(* ===== verification/Prelude.thy ===== *)
theory Prelude
  imports Main
begin

text \<open>
  Shared vocabulary of the development: error values of the Go code, the result type, time
  values, and the collections of facts the component theories extend.

  A Go \<open>error\<close> is a sentinel (\<open>errors.New\<close> bound to a package variable), a plain message, or
  a message that wraps another error with the \<open>%w\<close> verb of \<open>fmt.Errorf\<close>.  A function that
  returns \<open>(T, error)\<close> becomes a function into \<open>error + T\<close>.
\<close>

named_theorems op_defs "definitions of store operations and handlers, for unfolding"
named_theorems frame "what an operation leaves unchanged"

section \<open>Errors\<close>

datatype sentinel =
    SessionNotFound | SessionExpired
  | UserNotFound
  | KeyNotFound | FingerprintTaken
  | TokenNotFound | TokenExpired
  | InvalidReturnTo | MissingPreAuth | CorruptPreAuth
  | InvalidCA

fun sentinel_text :: "sentinel \<Rightarrow> string" where
  "sentinel_text SessionNotFound = ''session: not found''"
| "sentinel_text SessionExpired = ''session: expired''"
| "sentinel_text UserNotFound = ''user: not found''"
| "sentinel_text KeyNotFound = ''sshkey: not found''"
| "sentinel_text FingerprintTaken = ''sshkey: fingerprint already registered''"
| "sentinel_text TokenNotFound = ''sshenroll: token not found''"
| "sentinel_text TokenExpired = ''sshenroll: token expired''"
| "sentinel_text InvalidReturnTo = ''auth: invalid return_to''"
| "sentinel_text MissingPreAuth = ''auth: pre-auth cookie missing''"
| "sentinel_text CorruptPreAuth = ''auth: pre-auth cookie corrupt''"
| "sentinel_text InvalidCA = ''sshca: nil CA signer''"

datatype err =
    Sentinel sentinel
  | Message string
  | Wrap string err

text \<open>\<open>err.Error()\<close>; \<open>Wrap p e\<close> is \<open>fmt.Errorf("p: %w", e)\<close>.\<close>

primrec err_text :: "err \<Rightarrow> string" where
  "err_text (Sentinel s) = sentinel_text s"
| "err_text (Message m) = m"
| "err_text (Wrap p e) = p @ '': '' @ err_text e"

text \<open>\<open>errors.Is(err, sentinel)\<close> follows the chain of wrapped errors.\<close>

primrec err_is :: "err \<Rightarrow> sentinel \<Rightarrow> bool" where
  "err_is (Sentinel s) t = (s = t)"
| "err_is (Message m) t = False"
| "err_is (Wrap p e) t = err_is e t"

type_synonym 'a result = "err + 'a"

section \<open>Time\<close>

text \<open>
  A \<open>time.Time\<close> is the number of nanoseconds since the Unix epoch, a \<open>time.Duration\<close> a
  number of nanoseconds.  The database columns hold Unix seconds: \<open>t.Unix()\<close> rounds down and
  \<open>time.Unix(s, 0)\<close> is exact.
\<close>

type_synonym gotime = int
type_synonym duration = int

abbreviation nanos_per_sec :: int where
  "nanos_per_sec \<equiv> 1000000000"

definition seconds :: "int \<Rightarrow> duration" where
  "seconds n = n * nanos_per_sec"

definition unix :: "gotime \<Rightarrow> int" where
  "unix t = t div nanos_per_sec"

definition from_unix :: "int \<Rightarrow> gotime" where
  "from_unix s = s * nanos_per_sec"

text \<open>The zero \<open>time.Time\<close>, 1 January of year 1 in UTC.\<close>

definition zero_time :: gotime where
  "zero_time = from_unix (-62135596800)"

text \<open>\<open>t.Sub(u)\<close> saturates at the bounds of a 64-bit duration.\<close>

definition time_sub :: "gotime \<Rightarrow> gotime \<Rightarrow> duration" where
  "time_sub t u = max (- (2 ^ 63)) (min (2 ^ 63 - 1) (t - u))"

lemma unix_from_unix [simp]: "unix (from_unix s) = s"
  by (simp add: unix_def from_unix_def)

lemma from_unix_unix_le: "from_unix (unix t) \<le> t"
  unfolding unix_def from_unix_def by (simp add: minus_mod_eq_div_mult [symmetric])

lemma less_from_unix_unix: "t < from_unix (unix t) + nanos_per_sec"
  unfolding unix_def from_unix_def
  by (simp add: minus_mod_eq_div_mult [symmetric])

lemma unix_mono: "t \<le> u \<Longrightarrow> unix t \<le> unix u"
  by (simp add: unix_def zdiv_mono1)

lemma unix_less_iff: "unix t < s \<longleftrightarrow> t < from_unix s"
proof
  assume "unix t < s"
  then have "from_unix (unix t) + nanos_per_sec \<le> from_unix s"
    by (simp add: from_unix_def)
  with less_from_unix_unix [of t] show "t < from_unix s" by linarith
next
  assume "t < from_unix s"
  with from_unix_unix_le [of t] have "from_unix (unix t) < from_unix s" by linarith
  then show "unix t < s" by (simp add: from_unix_def)
qed

lemma from_unix_le_iff: "from_unix s \<le> t \<longleftrightarrow> s \<le> unix t"
  using unix_less_iff [of t s] by linarith

lemma from_unix_mono [simp]: "from_unix s \<le> from_unix t \<longleftrightarrow> s \<le> t"
  by (simp add: from_unix_def)

lemma from_unix_strict_mono [simp]: "from_unix s < from_unix t \<longleftrightarrow> s < t"
  by (simp add: from_unix_def)

lemma time_sub_less: "d \<le> 2 ^ 63 - 1 \<Longrightarrow> - (2 ^ 63) < d \<Longrightarrow> time_sub t u < d \<longleftrightarrow> t - u < d"
  by (auto simp: time_sub_def)

section \<open>Lists and maps\<close>

lemma find_Some_iff_mem: "find P xs = Some x \<Longrightarrow> x \<in> set xs \<and> P x"
  by (induction xs) (auto split: if_splits)

lemma find_map_inv:
  assumes "\<And>x. P (f x) = P x"
  shows "find P (map f xs) = map_option f (find P xs)"
  by (induction xs) (auto simp: assms)

lemma find_filter_conj: "find P (filter Q xs) = find (\<lambda>x. Q x \<and> P x) xs"
  by (induction xs) auto

lemma find_append: "find P (xs @ ys) = (case find P xs of None \<Rightarrow> find P ys | Some x \<Rightarrow> Some x)"
  by (induction xs) auto

lemma distinct_find_iff:
  assumes "distinct (map f xs)" and "x \<in> set xs"
  shows "find (\<lambda>y. f y = f x) xs = Some x"
  using assms by (induction xs) (auto simp: image_iff)

lemma find_cong_set: "(\<And>x. x \<in> set xs \<Longrightarrow> P x = Q x) \<Longrightarrow> find P xs = find Q xs"
  by (induction xs) auto

lemma list_all2_right: "list_all2 P xs ys \<Longrightarrow> y \<in> set ys \<Longrightarrow> \<exists>x \<in> set xs. P x y"
  by (induction rule: list_all2_induct) auto

lemma list_all2_left: "list_all2 P xs ys \<Longrightarrow> x \<in> set xs \<Longrightarrow> \<exists>y \<in> set ys. P x y"
  by (induction rule: list_all2_induct) auto

section \<open>Tables indexed by a key\<close>

text \<open>The map a list of rows stands for when its rows are looked up by the key \<open>k\<close>.\<close>

definition index_by :: "('r \<Rightarrow> 'k) \<Rightarrow> 'r list \<Rightarrow> 'k \<Rightarrow> 'r option" where
  "index_by k rs = map_of (map (\<lambda>r. (k r, r)) rs)"

definition keep_rows :: "('r \<Rightarrow> bool) \<Rightarrow> ('k \<Rightarrow> 'r option) \<Rightarrow> 'k \<Rightarrow> 'r option" where
  "keep_rows P m = (\<lambda>x. case m x of Some r \<Rightarrow> if P r then Some r else None | None \<Rightarrow> None)"

lemma index_by_Nil [simp]: "index_by k [] = (\<lambda>_. None)"
  by (simp add: index_by_def)

lemma index_by_Cons: "index_by k (r # rs) = (index_by k rs)(k r \<mapsto> r)"
  by (simp add: index_by_def)

lemma find_index_by: "find (\<lambda>r. k r = x) rs = index_by k rs x"
  by (induction rs) (auto simp: index_by_Cons)

lemma index_by_Some: "index_by k rs x = Some r \<Longrightarrow> r \<in> set rs \<and> k r = x"
  by (induction rs) (auto simp: index_by_Cons split: if_splits)

lemma index_by_None: "index_by k rs x = None \<longleftrightarrow> x \<notin> k ` set rs"
  by (induction rs) (auto simp: index_by_Cons)

lemma index_by_mem: "distinct (map k rs) \<Longrightarrow> r \<in> set rs \<Longrightarrow> index_by k rs (k r) = Some r"
  by (induction rs) (auto simp: index_by_Cons rev_image_eqI)

lemma index_by_append:
  "k r \<notin> k ` set rs \<Longrightarrow> index_by k (rs @ [r]) = (index_by k rs)(k r \<mapsto> r)"
  by (induction rs) (auto simp: index_by_Cons fun_upd_twist)

lemma index_by_update:
  assumes "\<And>r. k (f r) = k r"
  shows "index_by k (map (\<lambda>r. if k r = x then f r else r) rs) =
           (index_by k rs)(x := map_option f (index_by k rs x))"
  by (induction rs) (auto simp: index_by_Cons assms)

lemma index_by_filter:
  "distinct (map k rs) \<Longrightarrow> index_by k (filter P rs) = keep_rows P (index_by k rs)"
proof (induction rs)
  case (Cons a rs)
  then have "index_by k rs (k a) = None" by (auto simp: index_by_None)
  with Cons show ?case by (auto simp: index_by_Cons keep_rows_def fun_eq_iff)
qed (simp add: keep_rows_def)

lemma index_by_remove: "index_by k (filter (\<lambda>r. k r \<noteq> x) rs) = (index_by k rs)(x := None)"
  by (induction rs) (auto simp: index_by_Cons fun_upd_twist)

lemma keep_rows_Some: "keep_rows P m x = Some r \<longleftrightarrow> m x = Some r \<and> P r"
  by (auto simp: keep_rows_def split: option.splits)

lemma distinct_map_update:
  assumes "\<And>r. k (f r) = k r"
  shows "map k (map (\<lambda>r. if k r = x then f r else r) rs) = map k rs"
  by (induction rs) (auto simp: assms)

end
