(* ===== verification/GoStrings.thy ===== *)
theory GoStrings
  imports Prelude "HOL-Library.Code_Target_Nat"
begin

text \<open>
  The parts of Go's string library the program uses.  A Go string is a sequence of bytes, here
  a \<open>char list\<close> whose characters are bytes (\<open>of_char\<close> reads one as a number).

  \<^item> package \<open>strings\<close>: \<open>HasPrefix\<close>, \<open>HasSuffix\<close>, \<open>TrimPrefix\<close>, \<open>Index\<close>, \<open>Contains\<close>,
    \<open>Cut\<close>, \<open>Split\<close>/\<open>SplitSeq\<close> and \<open>Join\<close> on one-character separators, \<open>TrimSpace\<close> with all
    the Unicode white space, \<open>ToLower\<close> with the Unicode simple lower-case mapping;
  \<^item> package \<open>utf8\<close>: decoding and encoding of one rune;
  \<^item> package \<open>strconv\<close>: \<open>Atoi\<close>/\<open>ParseInt(_, 10, 64)\<close> with the range check, \<open>Itoa\<close>/\<open>FormatInt\<close>;
  \<^item> package \<open>html\<close>: \<open>EscapeString\<close>;
  \<^item> the two regular expressions of the program, as predicates.
\<close>

section \<open>Prefixes, suffixes and substrings\<close>

definition has_prefix :: "string \<Rightarrow> string \<Rightarrow> bool" where
  "has_prefix s p \<longleftrightarrow> take (length p) s = p"

definition has_suffix :: "string \<Rightarrow> string \<Rightarrow> bool" where
  "has_suffix s p \<longleftrightarrow> length p \<le> length s \<and> drop (length s - length p) s = p"

definition trim_prefix :: "string \<Rightarrow> string \<Rightarrow> string" where
  "trim_prefix s p = (if has_prefix s p then drop (length p) s else s)"

fun str_index :: "string \<Rightarrow> string \<Rightarrow> nat option" where
  "str_index [] p = (if p = [] then Some 0 else None)"
| "str_index (c # cs) p =
     (if has_prefix (c # cs) p then Some 0 else map_option Suc (str_index cs p))"

definition str_contains :: "string \<Rightarrow> string \<Rightarrow> bool" where
  "str_contains s p \<longleftrightarrow> str_index s p \<noteq> None"

text \<open>\<open>strings.Cut\<close> around the first occurrence of a one-character separator.\<close>

definition str_cut :: "char \<Rightarrow> string \<Rightarrow> string \<times> string \<times> bool" where
  "str_cut c s =
     (case dropWhile (\<lambda>x. x \<noteq> c) s of
        [] \<Rightarrow> (s, [], False)
      | _ # rest \<Rightarrow> (takeWhile (\<lambda>x. x \<noteq> c) s, rest, True))"

text \<open>\<open>strings.Split\<close> and \<open>strings.SplitSeq\<close>: there is always at least one piece.\<close>

fun str_split :: "char \<Rightarrow> string \<Rightarrow> string list" where
  "str_split c [] = [[]]"
| "str_split c (x # xs) =
     (if x = c then [] # str_split c xs
      else (case str_split c xs of [] \<Rightarrow> [[x]] | p # ps \<Rightarrow> (x # p) # ps))"

fun str_join :: "string list \<Rightarrow> string \<Rightarrow> string" where
  "str_join [] sep = []"
| "str_join [s] sep = s"
| "str_join (s # t # ss) sep = s @ sep @ str_join (t # ss) sep"

lemma has_prefix_iff: "has_prefix s p \<longleftrightarrow> (\<exists>t. s = p @ t)"
  unfolding has_prefix_def by (metis append_eq_conv_conj append_take_drop_id)

lemma has_suffix_iff: "has_suffix s p \<longleftrightarrow> (\<exists>t. s = t @ p)"
proof
  assume "has_suffix s p"
  then have "s = take (length s - length p) s @ p"
    by (metis append_take_drop_id has_suffix_def)
  then show "\<exists>t. s = t @ p" by blast
qed (auto simp: has_suffix_def)

lemma has_prefix_refl [simp]: "has_prefix s s"
  by (simp add: has_prefix_def)

lemma has_prefix_append [simp]: "has_prefix (p @ t) p"
  by (simp add: has_prefix_def)

lemma has_suffix_append [simp]: "has_suffix (t @ p) p"
  by (simp add: has_suffix_def)

lemma has_prefix_Nil_right [simp]: "has_prefix s []"
  by (simp add: has_prefix_def)

lemma has_prefix_Nil_left [simp]: "has_prefix [] p \<longleftrightarrow> p = []"
  by (auto simp: has_prefix_def)

lemma has_prefix_Cons [simp]: "has_prefix (c # s) (d # p) \<longleftrightarrow> c = d \<and> has_prefix s p"
  by (auto simp: has_prefix_def)

lemma str_index_Some: "str_index s p = Some i \<Longrightarrow> has_prefix (drop i s) p \<and> i \<le> length s"
  by (induction s arbitrary: i) (auto split: if_splits)

lemma str_contains_iff: "str_contains s p \<longleftrightarrow> (\<exists>a b. s = a @ p @ b)"
proof (induction s)
  case Nil
  then show ?case by (auto simp: str_contains_def)
next
  case (Cons c s)
  show ?case
  proof
    assume L: "str_contains (c # s) p"
    show "\<exists>a b. c # s = a @ p @ b"
    proof (cases "has_prefix (c # s) p")
      case True
      then show ?thesis by (metis append_Nil has_prefix_iff)
    next
      case False
      with L have "str_contains s p" by (auto simp: str_contains_def)
      with Cons.IH obtain a b where "s = a @ p @ b" by blast
      then have "c # s = (c # a) @ p @ b" by simp
      then show ?thesis by blast
    qed
  next
    assume "\<exists>a b. c # s = a @ p @ b"
    then obtain a b where ab: "c # s = a @ p @ b" by blast
    show "str_contains (c # s) p"
    proof (cases a)
      case Nil
      with ab have "has_prefix (c # s) p" by (simp add: has_prefix_iff)
      then show ?thesis by (simp add: str_contains_def)
    next
      case (Cons x xs)
      with ab have "s = xs @ p @ b" by simp
      with Cons.IH have "str_contains s p" by blast
      then show ?thesis by (auto simp: str_contains_def)
    qed
  qed
qed

lemma str_contains_char: "str_contains s [c] \<longleftrightarrow> c \<in> set s"
  by (auto simp: str_contains_iff in_set_conv_decomp)

lemma str_cut_None: "c \<notin> set s \<Longrightarrow> str_cut c s = (s, [], False)"
proof -
  assume "c \<notin> set s"
  then have "dropWhile (\<lambda>x. x \<noteq> c) s = []" by (auto simp: dropWhile_eq_Nil_conv)
  then show ?thesis by (simp only: str_cut_def list.case)
qed

lemma str_cut_append: "c \<notin> set a \<Longrightarrow> str_cut c (a @ c # b) = (a, b, True)"
proof -
  assume a: "c \<notin> set a"
  then have "dropWhile (\<lambda>x. x \<noteq> c) (a @ c # b) = c # b"
    by (subst dropWhile_append2) auto
  moreover have "takeWhile (\<lambda>x. x \<noteq> c) (a @ c # b) = a"
    using a by (subst takeWhile_append2) auto
  ultimately show ?thesis by (simp add: str_cut_def)
qed

lemma str_cut_found:
  assumes "str_cut c s = (a, b, True)"
  shows "s = a @ c # b \<and> c \<notin> set a"
proof -
  from assms obtain x where dw: "dropWhile (\<lambda>x. x \<noteq> c) s = x # b"
    and a: "a = takeWhile (\<lambda>x. x \<noteq> c) s"
    by (auto simp: str_cut_def split: list.splits)
  from dw have "x = c" using hd_dropWhile [of "\<lambda>x. x \<noteq> c" s] by simp
  with dw a show ?thesis
    by (metis (mono_tags, lifting) set_takeWhileD takeWhile_dropWhile_id)
qed

lemma str_cut_not_found: "str_cut c s = (a, b, False) \<Longrightarrow> a = s \<and> b = [] \<and> c \<notin> set s"
  by (auto simp: str_cut_def dropWhile_eq_Nil_conv split: list.splits)

lemma str_cut_flag: "str_cut c s = (a, b, f) \<Longrightarrow> f \<longleftrightarrow> c \<in> set s"
  by (cases f) (auto dest: str_cut_found str_cut_not_found)

lemma str_split_nonempty [simp]: "str_split c s \<noteq> []"
  by (cases s) (auto split: list.splits)

lemma str_split_no_sep: "c \<notin> set s \<Longrightarrow> str_split c s = [s]"
  by (induction s) auto

lemma str_split_append: "c \<notin> set a \<Longrightarrow> str_split c (a @ c # b) = a # str_split c b"
  by (induction a) auto

lemma str_split_pieces: "p \<in> set (str_split c s) \<Longrightarrow> c \<notin> set p"
proof (induction s arbitrary: p)
  case Nil
  then show ?case by simp
next
  case (Cons x xs)
  then show ?case by (cases "str_split c xs") (auto split: if_splits)
qed

lemma str_split_join:
  assumes "xs \<noteq> []" and "\<And>x. x \<in> set xs \<Longrightarrow> c \<notin> set x"
  shows "str_split c (str_join xs [c]) = xs"
  using assms
proof (induction xs "[c]" rule: str_join.induct)
  case (2 s)
  then show ?case by (simp add: str_split_no_sep)
next
  case (3 s t ss)
  then have "str_split c (str_join (t # ss) [c]) = t # ss" by simp
  with 3 show ?case by (simp add: str_split_append)
qed simp

lemma str_join_split: "str_join (str_split c s) [c] = s"
proof (induction s)
  case (Cons x xs)
  show ?case
  proof (cases "str_split c xs")
    case Nil
    then show ?thesis by (simp add: str_split_nonempty)
  next
    case (Cons p ps)
    with Cons.IH show ?thesis by (cases ps) auto
  qed
qed simp

lemma set_str_join: "set (str_join xs sep) \<subseteq> \<Union> (set ` set xs) \<union> set sep"
  by (induction xs sep rule: str_join.induct) auto

lemma str_join_empty_iff: "sep \<noteq> [] \<Longrightarrow> str_join xs sep = [] \<longleftrightarrow> xs = [] \<or> xs = [[]]"
  by (cases "(xs, sep)" rule: str_join.cases) auto

section \<open>White space\<close>

text \<open>
  The UTF-8 encodings of the runes \<open>unicode.IsSpace\<close> accepts: tab, newline, vertical tab, form
  feed, carriage return, space, U+0085, U+00A0, U+1680, U+2000 to U+200A, U+2028, U+2029,
  U+202F, U+205F and U+3000.  A rune at the end of a string is recognised by its encoding,
  since the first byte of an encoding starts a rune and the others continue one.
\<close>

definition white_space :: "string list" where
  "white_space =
     [[CHR 0x09], [CHR 0x0A], [CHR 0x0B], [CHR 0x0C], [CHR 0x0D], [CHR 0x20],
      [CHR 0xC2, CHR 0x85], [CHR 0xC2, CHR 0xA0], [CHR 0xE1, CHR 0x9A, CHR 0x80],
      [CHR 0xE2, CHR 0x80, CHR 0x80], [CHR 0xE2, CHR 0x80, CHR 0x81],
      [CHR 0xE2, CHR 0x80, CHR 0x82], [CHR 0xE2, CHR 0x80, CHR 0x83],
      [CHR 0xE2, CHR 0x80, CHR 0x84], [CHR 0xE2, CHR 0x80, CHR 0x85],
      [CHR 0xE2, CHR 0x80, CHR 0x86], [CHR 0xE2, CHR 0x80, CHR 0x87],
      [CHR 0xE2, CHR 0x80, CHR 0x88], [CHR 0xE2, CHR 0x80, CHR 0x89],
      [CHR 0xE2, CHR 0x80, CHR 0x8A], [CHR 0xE2, CHR 0x80, CHR 0xA8],
      [CHR 0xE2, CHR 0x80, CHR 0xA9], [CHR 0xE2, CHR 0x80, CHR 0xAF],
      [CHR 0xE2, CHR 0x81, CHR 0x9F], [CHR 0xE3, CHR 0x80, CHR 0x80]]"

function strip_left :: "string list \<Rightarrow> string \<Rightarrow> string" where
  "strip_left ws s =
     (case find (\<lambda>w. w \<noteq> [] \<and> has_prefix s w) ws of
        None \<Rightarrow> s
      | Some w \<Rightarrow> strip_left ws (drop (length w) s))"
  by pat_completeness auto
termination
  by (relation "measure (\<lambda>(ws, s). length s)")
     (auto dest!: find_Some_iff_mem simp: has_prefix_iff)

declare strip_left.simps [simp del]

definition trim_left :: "string \<Rightarrow> string" where
  "trim_left s = strip_left white_space s"

definition trim_right :: "string \<Rightarrow> string" where
  "trim_right s = rev (strip_left (map rev white_space) (rev s))"

definition trim_space :: "string \<Rightarrow> string" where
  "trim_space s = trim_right (trim_left s)"

definition stripped :: "string list \<Rightarrow> string \<Rightarrow> bool" where
  "stripped ws s \<longleftrightarrow> (\<forall>w \<in> set ws. w \<noteq> [] \<longrightarrow> \<not> has_prefix s w)"

lemma strip_left_id: "stripped ws s \<Longrightarrow> strip_left ws s = s"
  by (subst strip_left.simps) (auto simp: stripped_def find_None_iff split: option.splits
      dest!: find_Some_iff_mem)

lemma stripped_strip_left [simp]: "stripped ws (strip_left ws s)"
proof (induction ws s rule: strip_left.induct)
  case (1 ws s)
  show ?case
  proof (cases "find (\<lambda>w. w \<noteq> [] \<and> has_prefix s w) ws")
    case None
    then have "stripped ws s" by (auto simp: stripped_def find_None_iff)
    then show ?thesis by (simp add: strip_left_id)
  next
    case (Some w)
    with 1 show ?thesis by (subst strip_left.simps) simp
  qed
qed

lemma strip_left_suffix: "\<exists>t. s = t @ strip_left ws s"
proof (induction ws s rule: strip_left.induct)
  case (1 ws s)
  show ?case
  proof (cases "find (\<lambda>w. w \<noteq> [] \<and> has_prefix s w) ws")
    case None
    then show ?thesis by (subst strip_left.simps) simp
  next
    case (Some w)
    then have eq: "strip_left ws s = strip_left ws (drop (length w) s)"
      by (subst strip_left.simps) simp
    from 1 [OF Some] obtain t where "drop (length w) s = t @ strip_left ws s"
      unfolding eq by blast
    then have "s = (take (length w) s @ t) @ strip_left ws s"
      by (metis append.assoc append_take_drop_id)
    then show ?thesis by blast
  qed
qed

lemma stripped_prefix: "stripped ws (s @ t) \<Longrightarrow> stripped ws s"
  by (auto simp: stripped_def has_prefix_iff)

lemma strip_left_Nil [simp]: "strip_left ws [] = []"
  by (rule strip_left_id) (auto simp: stripped_def)

lemma trim_right_prefix: "\<exists>t. s = trim_right s @ t"
proof -
  obtain t where "rev s = t @ strip_left (map rev white_space) (rev s)"
    using strip_left_suffix by blast
  then have "s = trim_right s @ rev t"
    by (metis rev_append rev_rev_ident trim_right_def)
  then show ?thesis by blast
qed

lemma trim_space_idem [simp]: "trim_space (trim_space s) = trim_space s"
proof -
  define x where "x = trim_left s"
  have x: "stripped white_space x" by (simp add: x_def trim_left_def)
  obtain t where "x = trim_right x @ t" using trim_right_prefix by blast
  with x have "stripped white_space (trim_right x)" by (metis stripped_prefix)
  then have left: "trim_left (trim_right x) = trim_right x"
    by (simp add: trim_left_def strip_left_id)
  have "trim_right (trim_right x) = trim_right x"
    by (simp add: trim_right_def strip_left_id)
  with left show ?thesis by (simp add: trim_space_def x_def)
qed

lemma trim_space_Nil [simp]: "trim_space [] = []"
  by (simp add: trim_space_def trim_left_def trim_right_def)

lemma set_trim_space: "set (trim_space s) \<subseteq> set s"
proof -
  obtain a where "s = a @ trim_left s"
    using strip_left_suffix by (metis trim_left_def)
  moreover obtain b where "trim_left s = trim_space s @ b"
    using trim_right_prefix by (metis trim_space_def)
  ultimately show ?thesis by (metis set_append Un_upper1 Un_upper2 subset_trans)
qed

text \<open>Bytes that can stand at the edge of a trimmed string.\<close>

definition edge_char :: "char \<Rightarrow> bool" where
  "edge_char c \<longleftrightarrow> (0x21 \<le> (of_char c :: nat) \<and> (of_char c :: nat) < 0x80)"

lemma ws_edges:
  "w \<in> set white_space \<Longrightarrow> w \<noteq> [] \<and> \<not> edge_char (hd w) \<and> \<not> edge_char (last w)"
  by (auto simp: white_space_def edge_char_def)

lemma stripped_edge: "edge_char c \<Longrightarrow> stripped white_space (c # s)"
  using ws_edges by (fastforce simp: stripped_def has_prefix_def neq_Nil_conv)

lemma stripped_rev_edge:
  assumes "edge_char c" shows "stripped (map rev white_space) (c # s)"
  unfolding stripped_def
proof (intro ballI impI notI)
  fix w assume w: "w \<in> set (map rev white_space)" "w \<noteq> []" "has_prefix (c # s) w"
  then obtain v where v: "v \<in> set white_space" "w = rev v" by auto
  from w(2,3) have "hd w = c" by (cases w) auto
  with v w(2) have "last v = c" by (simp add: hd_rev)
  with ws_edges [OF v(1)] assms show False by simp
qed

lemma trim_space_edges:
  assumes "s \<noteq> []" and "edge_char (hd s)" and "edge_char (last s)"
  shows "trim_space s = s"
proof -
  from assms obtain c t where s: "s = c # t" and "edge_char c" by (cases s) auto
  then have 1: "trim_left s = s"
    by (simp add: trim_left_def strip_left_id stripped_edge)
  from assms have "rev s = last s # rev (butlast s)"
    by (metis append_butlast_last_id rev.simps(2) rev_rev_ident)
  with assms have "trim_right s = s"
    by (metis rev_rev_ident strip_left_id stripped_rev_edge trim_right_def)
  with 1 show ?thesis by (simp add: trim_space_def)
qed

lemma trim_space_all_edge: "list_all edge_char s \<Longrightarrow> trim_space s = s"
  by (cases "s = []") (auto simp: trim_space_edges list_all_iff)

section \<open>UTF-8\<close>

text \<open>\<open>utf8.RuneError\<close>, the replacement character U+FFFD.\<close>

definition rune_error :: nat where
  "rune_error = 0xFFFD"

text \<open>\<open>utf8.DecodeRuneInString\<close>: the rune at the start of the string and its width.\<close>

definition decode_rune :: "string \<Rightarrow> nat \<times> nat" where
  "decode_rune s =
     (case map of_char (take 4 s) of
        [] \<Rightarrow> (rune_error, 0)
      | b0 # bs \<Rightarrow>
          (if b0 < 0x80 then (b0, 1)
           else if 0xC2 \<le> b0 \<and> b0 \<le> 0xDF then
             (case bs of
                b1 # _ \<Rightarrow> if 0x80 \<le> b1 \<and> b1 \<le> 0xBF
                  then ((b0 - 0xC0) * 64 + (b1 - 0x80), 2) else (rune_error, 1)
              | [] \<Rightarrow> (rune_error, 1))
           else if 0xE0 \<le> b0 \<and> b0 \<le> 0xEF then
             (case bs of
                b1 # b2 # _ \<Rightarrow>
                  (if (if b0 = 0xE0 then 0xA0 else 0x80) \<le> b1
                      \<and> b1 \<le> (if b0 = 0xED then 0x9F else 0xBF) \<and> 0x80 \<le> b2 \<and> b2 \<le> 0xBF
                   then ((b0 - 0xE0) * 4096 + (b1 - 0x80) * 64 + (b2 - 0x80), 3)
                   else (rune_error, 1))
              | _ \<Rightarrow> (rune_error, 1))
           else if 0xF0 \<le> b0 \<and> b0 \<le> 0xF4 then
             (case bs of
                b1 # b2 # b3 # _ \<Rightarrow>
                  (if (if b0 = 0xF0 then 0x90 else 0x80) \<le> b1
                      \<and> b1 \<le> (if b0 = 0xF4 then 0x8F else 0xBF) \<and> 0x80 \<le> b2 \<and> b2 \<le> 0xBF
                      \<and> 0x80 \<le> b3 \<and> b3 \<le> 0xBF
                   then ((b0 - 0xF0) * 262144 + (b1 - 0x80) * 4096 + (b2 - 0x80) * 64
                          + (b3 - 0x80), 4)
                   else (rune_error, 1))
              | _ \<Rightarrow> (rune_error, 1))
           else (rune_error, 1)))"

text \<open>\<open>utf8.EncodeRune\<close>; a surrogate or a value above U+10FFFF becomes the replacement character.\<close>

definition encode_rune :: "nat \<Rightarrow> string" where
  "encode_rune n =
     (let r = (if (0xD800 \<le> n \<and> n \<le> 0xDFFF) \<or> 0x10FFFF < n then rune_error else n)
      in map char_of
        (if r < 0x80 then [r]
         else if r < 0x800 then [0xC0 + r div 64, 0x80 + r mod 64]
         else if r < 0x10000 then
           [0xE0 + r div 4096, 0x80 + r div 64 mod 64, 0x80 + r mod 64]
         else [0xF0 + r div 262144, 0x80 + r div 4096 mod 64, 0x80 + r div 64 mod 64,
               0x80 + r mod 64]))"

text \<open>The runes a \<open>for _, r := range s\<close> loop visits.\<close>

function runes :: "string \<Rightarrow> nat list" where
  "runes s =
     (if s = [] then []
      else fst (decode_rune s) # runes (drop (max 1 (snd (decode_rune s))) s))"
  by pat_completeness auto
termination
  by (relation "measure length") auto

declare runes.simps [simp del]

definition is_ascii :: "string \<Rightarrow> bool" where
  "is_ascii s \<longleftrightarrow> list_all (\<lambda>c. (of_char c :: nat) < 0x80) s"

lemma decode_rune_ascii:
  "(of_char c :: nat) < 0x80 \<Longrightarrow> decode_rune (c # s) = (of_char c, 1)"
  by (simp add: decode_rune_def)

lemma decode_rune_append_ascii:
  assumes "(of_char c :: nat) < 0x80" and "s \<noteq> []"
  shows "decode_rune (s @ [c]) = decode_rune s"
proof -
  consider (1) x where "s = [x]" | (2) x y where "s = [x, y]" | (3) x y z where "s = [x, y, z]"
    | (4) x y z w t where "s = x # y # z # w # t"
    using assms(2) by (metis neq_Nil_conv)
  then show ?thesis
    by cases (use assms(1) in \<open>auto simp: decode_rune_def\<close>)
qed

lemma decode_rune_width:
  assumes "s \<noteq> []"
  shows "max 1 (snd (decode_rune s)) \<le> length s"
proof -
  define bytes :: "nat list" where "bytes = map of_char (take 4 s)"
  have "length bytes \<le> length s" by (simp add: bytes_def)
  moreover have "snd (decode_rune s) \<le> length bytes"
    unfolding decode_rune_def bytes_def [symmetric] by (simp split: list.split)
  ultimately show ?thesis using assms by (cases s) auto
qed

lemma runes_Nil [simp]: "runes [] = []"
  by (simp add: runes.simps)

lemma runes_snoc_ascii:
  assumes "(of_char c :: nat) < 0x80"
  shows "runes (s @ [c]) = runes s @ [of_char c]"
proof (induction s rule: runes.induct)
  case (1 s)
  show ?case
  proof (cases "s = []")
    case True
    then show ?thesis using assms by (simp add: runes.simps decode_rune_ascii)
  next
    case False
    with assms have d: "decode_rune (s @ [c]) = decode_rune s"
      by (intro decode_rune_append_ascii)
    have "runes (s @ [c]) = fst (decode_rune s) # runes (drop (max 1 (snd (decode_rune s))) (s @ [c]))"
      by (subst runes.simps) (simp add: d)
    also have "drop (max 1 (snd (decode_rune s))) (s @ [c]) = drop (max 1 (snd (decode_rune s))) s @ [c]"
      using decode_rune_width [OF False] by simp
    finally show ?thesis
      using 1 False by (simp add: runes.simps [of s])
  qed
qed

lemma runes_Cons_ascii: "(of_char c :: nat) < 0x80 \<Longrightarrow> runes (c # s) = of_char c # runes s"
  by (simp add: runes.simps [of "c # s"] decode_rune_ascii)

lemma runes_ascii: "is_ascii s \<Longrightarrow> runes s = map of_char s"
  by (induction s) (auto simp: is_ascii_def runes.simps [of "_ # _"] decode_rune_ascii)

section \<open>Lower case\<close>

definition lower_byte :: "char \<Rightarrow> char" where
  "lower_byte c =
     (if 65 \<le> (of_char c :: nat) \<and> (of_char c :: nat) \<le> 90 then char_of ((of_char c :: nat) + 32)
      else c)"

text \<open>
  The simple lower-case mapping of the Unicode data \<open>unicode.ToLower\<close> uses, for the runes
  beyond ASCII: \<open>(lo, hi, step, delta)\<close> maps \<open>lo\<close>, \<open>lo + step\<close>, \<open>\<dots>\<close>, \<open>hi\<close> to themselves plus
  \<open>delta\<close>; a rune in no entry is its own lower case.
\<close>

definition lower_table :: "(nat \<times> nat \<times> nat \<times> int) list" where
  "lower_table =
   [
    (192, 214, 1, 32), (216, 222, 1, 32), (256, 302, 2, 1), (304, 304, 1, -199),
    (306, 310, 2, 1), (313, 327, 2, 1), (330, 374, 2, 1), (376, 376, 1, -121), (377, 381, 2, 1),
    (385, 385, 1, 210), (386, 388, 2, 1), (390, 390, 1, 206), (391, 391, 1, 1),
    (393, 394, 1, 205), (395, 395, 1, 1), (398, 398, 1, 79), (399, 399, 1, 202),
    (400, 400, 1, 203), (401, 401, 1, 1), (403, 403, 1, 205), (404, 404, 1, 207),
    (406, 406, 1, 211), (407, 407, 1, 209), (408, 408, 1, 1), (412, 412, 1, 211),
    (413, 413, 1, 213), (415, 415, 1, 214), (416, 420, 2, 1), (422, 422, 1, 218),
    (423, 423, 1, 1), (425, 425, 1, 218), (428, 428, 1, 1), (430, 430, 1, 218),
    (431, 431, 1, 1), (433, 434, 1, 217), (435, 437, 2, 1), (439, 439, 1, 219),
    (440, 440, 1, 1), (444, 444, 1, 1), (452, 452, 1, 2), (453, 453, 1, 1), (455, 455, 1, 2),
    (456, 456, 1, 1), (458, 458, 1, 2), (459, 475, 2, 1), (478, 494, 2, 1), (497, 497, 1, 2),
    (498, 500, 2, 1), (502, 502, 1, -97), (503, 503, 1, -56), (504, 542, 2, 1),
    (544, 544, 1, -130), (546, 562, 2, 1), (570, 570, 1, 10795), (571, 571, 1, 1),
    (573, 573, 1, -163), (574, 574, 1, 10792), (577, 577, 1, 1), (579, 579, 1, -195),
    (580, 580, 1, 69), (581, 581, 1, 71), (582, 590, 2, 1), (880, 882, 2, 1), (886, 886, 1, 1),
    (895, 895, 1, 116), (902, 902, 1, 38), (904, 906, 1, 37), (908, 908, 1, 64),
    (910, 911, 1, 63), (913, 929, 1, 32), (931, 939, 1, 32), (975, 975, 1, 8),
    (984, 1006, 2, 1), (1012, 1012, 1, -60), (1015, 1015, 1, 1), (1017, 1017, 1, -7),
    (1018, 1018, 1, 1), (1021, 1023, 1, -130), (1024, 1039, 1, 80), (1040, 1071, 1, 32),
    (1120, 1152, 2, 1), (1162, 1214, 2, 1), (1216, 1216, 1, 15), (1217, 1229, 2, 1),
    (1232, 1326, 2, 1), (1329, 1366, 1, 48), (4256, 4293, 1, 7264), (4295, 4295, 1, 7264),
    (4301, 4301, 1, 7264), (5024, 5103, 1, 38864), (5104, 5109, 1, 8), (7312, 7354, 1, -3008),
    (7357, 7359, 1, -3008), (7680, 7828, 2, 1), (7838, 7838, 1, -7615), (7840, 7934, 2, 1),
    (7944, 7951, 1, -8), (7960, 7965, 1, -8), (7976, 7983, 1, -8), (7992, 7999, 1, -8),
    (8008, 8013, 1, -8), (8025, 8031, 2, -8), (8040, 8047, 1, -8), (8072, 8079, 1, -8),
    (8088, 8095, 1, -8), (8104, 8111, 1, -8), (8120, 8121, 1, -8), (8122, 8123, 1, -74),
    (8124, 8124, 1, -9), (8136, 8139, 1, -86), (8140, 8140, 1, -9), (8152, 8153, 1, -8),
    (8154, 8155, 1, -100), (8168, 8169, 1, -8), (8170, 8171, 1, -112), (8172, 8172, 1, -7),
    (8184, 8185, 1, -128), (8186, 8187, 1, -126), (8188, 8188, 1, -9), (8486, 8486, 1, -7517),
    (8490, 8490, 1, -8383), (8491, 8491, 1, -8262), (8498, 8498, 1, 28), (8544, 8559, 1, 16),
    (8579, 8579, 1, 1), (9398, 9423, 1, 26), (11264, 11311, 1, 48), (11360, 11360, 1, 1),
    (11362, 11362, 1, -10743), (11363, 11363, 1, -3814), (11364, 11364, 1, -10727),
    (11367, 11371, 2, 1), (11373, 11373, 1, -10780), (11374, 11374, 1, -10749),
    (11375, 11375, 1, -10783), (11376, 11376, 1, -10782), (11378, 11378, 1, 1),
    (11381, 11381, 1, 1), (11390, 11391, 1, -10815), (11392, 11490, 2, 1), (11499, 11501, 2, 1),
    (11506, 11506, 1, 1), (42560, 42604, 2, 1), (42624, 42650, 2, 1), (42786, 42798, 2, 1),
    (42802, 42862, 2, 1), (42873, 42875, 2, 1), (42877, 42877, 1, -35332), (42878, 42886, 2, 1),
    (42891, 42891, 1, 1), (42893, 42893, 1, -42280), (42896, 42898, 2, 1), (42902, 42920, 2, 1),
    (42922, 42922, 1, -42308), (42923, 42923, 1, -42319), (42924, 42924, 1, -42315),
    (42925, 42925, 1, -42305), (42926, 42926, 1, -42308), (42928, 42928, 1, -42258),
    (42929, 42929, 1, -42282), (42930, 42930, 1, -42261), (42931, 42931, 1, 928),
    (42932, 42946, 2, 1), (42948, 42948, 1, -48), (42949, 42949, 1, -42307),
    (42950, 42950, 1, -35384), (42951, 42953, 2, 1), (42960, 42960, 1, 1), (42966, 42968, 2, 1),
    (42997, 42997, 1, 1), (65313, 65338, 1, 32), (66560, 66599, 1, 40), (66736, 66771, 1, 40),
    (66928, 66938, 1, 39), (66940, 66954, 1, 39), (66956, 66962, 1, 39), (66964, 66965, 1, 39),
    (68736, 68786, 1, 64), (71840, 71871, 1, 32), (93760, 93791, 1, 32), (125184, 125217, 1, 34)
   ]"

definition lower_rune :: "nat \<Rightarrow> nat" where
  "lower_rune r =
     (if r < 0x80 then (if 65 \<le> r \<and> r \<le> 90 then r + 32 else r)
      else (case find (\<lambda>(lo, hi, step, d). lo \<le> r \<and> r \<le> hi \<and> (r - lo) mod step = 0) lower_table of
              None \<Rightarrow> r
            | Some (lo, hi, step, d) \<Rightarrow> nat (int r + d)))"

text \<open>\<open>strings.ToLower\<close>: the ASCII path of the library, and \<open>strings.Map\<close> otherwise.\<close>

definition to_lower :: "string \<Rightarrow> string" where
  "to_lower s =
     (if is_ascii s then map lower_byte s
      else concat (map (\<lambda>r. encode_rune (lower_rune r)) (runes s)))"

lemma lower_byte_idem [simp]: "lower_byte (lower_byte c) = lower_byte c"
  by (auto simp: lower_byte_def)

lemma to_lower_ascii: "is_ascii s \<Longrightarrow> to_lower s = map lower_byte s"
  by (simp add: to_lower_def)

lemma lower_byte_ascii: "(of_char c :: nat) < 0x80 \<Longrightarrow> (of_char (lower_byte c) :: nat) < 0x80"
  by (auto simp: lower_byte_def)

lemma is_ascii_map_lower: "is_ascii s \<Longrightarrow> is_ascii (map lower_byte s)"
  by (auto simp: is_ascii_def list_all_iff lower_byte_ascii)

lemma to_lower_idem: "is_ascii s \<Longrightarrow> to_lower (to_lower s) = to_lower s"
  by (simp add: to_lower_ascii is_ascii_map_lower)

lemma is_ascii_append [simp]: "is_ascii (s @ t) \<longleftrightarrow> is_ascii s \<and> is_ascii t"
  by (simp add: is_ascii_def)

lemma to_lower_append:
  "is_ascii s \<Longrightarrow> is_ascii t \<Longrightarrow> to_lower (s @ t) = to_lower s @ to_lower t"
  by (simp add: to_lower_ascii)

section \<open>Decimal numbers\<close>

definition is_digit :: "char \<Rightarrow> bool" where
  "is_digit c \<longleftrightarrow> 48 \<le> (of_char c :: nat) \<and> (of_char c :: nat) \<le> 57"

definition digits_value :: "string \<Rightarrow> nat" where
  "digits_value ds = foldl (\<lambda>a c. a * 10 + ((of_char c :: nat) - 48)) 0 ds"

text \<open>
  \<open>strconv.Atoi\<close> and \<open>strconv.ParseInt(_, 10, 64)\<close>: an optional sign, then one or more
  decimal digits, with a value that fits 64 bits.  \<open>None\<close> is either error (syntax or range).
\<close>

definition atoi :: "string \<Rightarrow> int option" where
  "atoi s =
     (let (neg, ds) =
        (case s of
           [] \<Rightarrow> (False, [])
         | c # cs \<Rightarrow> if c = CHR ''-'' then (True, cs) else if c = CHR ''+'' then (False, cs)
             else (False, s));
        v = int (digits_value ds)
      in if ds = [] \<or> \<not> list_all is_digit ds then None
         else if neg then (if v \<le> 2 ^ 63 then Some (- v) else None)
         else (if v < 2 ^ 63 then Some v else None))"

fun nat_digits :: "nat \<Rightarrow> string" where
  "nat_digits n =
     (if n < 10 then [char_of (48 + n)] else nat_digits (n div 10) @ [char_of (48 + n mod 10)])"

declare nat_digits.simps [simp del]

text \<open>\<open>strconv.Itoa\<close> and \<open>strconv.FormatInt(_, 10)\<close>.\<close>

definition itoa :: "int \<Rightarrow> string" where
  "itoa i = (if i < 0 then CHR ''-'' # nat_digits (nat (- i)) else nat_digits (nat i))"

lemma of_char_digit [simp]: "d < 10 \<Longrightarrow> (of_char (char_of (48 + d) :: char) :: nat) = 48 + d"
  by simp

lemma nat_digits_digits: "list_all is_digit (nat_digits n)"
proof (induction n rule: nat_digits.induct)
  case (1 n)
  then show ?case
    by (subst nat_digits.simps) (auto simp: is_digit_def list_all_iff)
qed

lemma nat_digits_nonempty [simp]: "nat_digits n \<noteq> []"
  by (subst nat_digits.simps) simp

lemma digits_value_nat_digits: "digits_value (nat_digits n) = n"
proof (induction n rule: nat_digits.induct)
  case (1 n)
  show ?case
  proof (cases "n < 10")
    case True
    then show ?thesis by (subst nat_digits.simps) (simp add: digits_value_def)
  next
    case False
    with 1 have "digits_value (nat_digits (n div 10)) = n div 10" by blast
    with False show ?thesis by (subst nat_digits.simps) (simp add: digits_value_def)
  qed
qed

lemma nat_digits_hd: "is_digit (hd (nat_digits n))"
  using nat_digits_digits [of n] by (cases "nat_digits n") auto

lemma atoi_itoa:
  assumes "- (2 ^ 63) \<le> i" and "i < 2 ^ 63"
  shows "atoi (itoa i) = Some i"
proof (cases "i < 0")
  case True
  with assms show ?thesis
    by (simp add: atoi_def itoa_def digits_value_nat_digits nat_digits_digits)
next
  case False
  obtain c cs where c: "nat_digits (nat i) = c # cs"
    by (meson neq_Nil_conv nat_digits_nonempty)
  have "is_digit c" using nat_digits_hd [of "nat i"] c by simp
  then have "c \<noteq> CHR ''-''" "c \<noteq> CHR ''+''" by (auto simp: is_digit_def)
  with False assms c show ?thesis
    using digits_value_nat_digits [of "nat i"] nat_digits_digits [of "nat i"]
    by (simp add: atoi_def itoa_def)
qed

lemma atoi_range: "atoi s = Some i \<Longrightarrow> - (2 ^ 63) \<le> i \<and> i < 2 ^ 63"
  by (auto simp: atoi_def Let_def split: if_splits prod.splits list.splits)

lemma itoa_nonempty [simp]: "itoa i \<noteq> []"
  by (simp add: itoa_def)

section \<open>Regular expressions of the program\<close>

text \<open>\<open>[A-Za-z0-9_-]\<close>, the alphabet of a role name, and \<open>^[A-Za-z0-9_-]+$\<close>.\<close>

definition role_char :: "char \<Rightarrow> bool" where
  "role_char c \<longleftrightarrow>
     (let n = (of_char c :: nat)
      in (65 \<le> n \<and> n \<le> 90) \<or> (97 \<le> n \<and> n \<le> 122) \<or> (48 \<le> n \<and> n \<le> 57) \<or> n = 95 \<or> n = 45)"

definition role_name_re :: "string \<Rightarrow> bool" where
  "role_name_re s \<longleftrightarrow> s \<noteq> [] \<and> list_all role_char s"

text \<open>\<open>^T[A-Z0-9]+$\<close>, the shape of a Slack team id.\<close>

definition slack_team_pattern :: "string \<Rightarrow> bool" where
  "slack_team_pattern s \<longleftrightarrow>
     (case s of
        [] \<Rightarrow> False
      | c # cs \<Rightarrow> c = CHR ''T'' \<and> cs \<noteq> [] \<and>
          list_all (\<lambda>x. (65 \<le> (of_char x :: nat) \<and> (of_char x :: nat) \<le> 90) \<or> is_digit x) cs)"

lemma role_char_edge: "role_char c \<Longrightarrow> edge_char c"
  by (auto simp: role_char_def edge_char_def Let_def)

lemma role_char_not_comma: "role_char c \<Longrightarrow> c \<noteq> CHR '',''"
  by (auto simp: role_char_def)

lemma role_name_trim [simp]: "role_name_re r \<Longrightarrow> trim_space r = r"
  by (rule trim_space_all_edge) (auto simp: role_name_re_def list_all_iff role_char_edge)

lemma role_name_no_comma: "role_name_re r \<Longrightarrow> CHR '','' \<notin> set r"
  by (auto simp: role_name_re_def list_all_iff dest: role_char_not_comma)

lemma role_name_nonempty [simp]: "\<not> role_name_re []"
  by (simp add: role_name_re_def)

section \<open>HTML\<close>

text \<open>\<open>html.EscapeString\<close>.\<close>

definition html_escape_char :: "char \<Rightarrow> string" where
  "html_escape_char c =
     (if c = CHR ''&'' then ''&amp;''
      else if c = CHR 0x27 then ''&#39;''
      else if c = CHR ''<'' then ''&lt;''
      else if c = CHR ''>'' then ''&gt;''
      else if c = CHR 0x22 then ''&#34;''
      else [c])"

definition html_escape :: "string \<Rightarrow> string" where
  "html_escape s = concat (map html_escape_char s)"

text \<open>The characters that open or close a tag or an attribute value.\<close>

definition html_special :: "char set" where
  "html_special = {CHR ''<'', CHR ''>'', CHR 0x22, CHR 0x27}"

lemma html_escape_safe: "set (html_escape s) \<inter> html_special = {}"
  by (auto simp: html_escape_def html_escape_char_def html_special_def split: if_splits)

text \<open>The byte-wise order of Go strings, \<open>a < b\<close>.\<close>

fun str_less :: "string \<Rightarrow> string \<Rightarrow> bool" where
  "str_less [] [] = False"
| "str_less [] (b # bs) = True"
| "str_less (a # as) [] = False"
| "str_less (a # as) (b # bs) =
     (if a = b then str_less as bs else (of_char a :: nat) < of_char b)"

lemma str_less_irrefl [simp]: "\<not> str_less s s"
  by (induction s) auto

lemma str_less_trans: "str_less a b \<Longrightarrow> str_less b c \<Longrightarrow> str_less a c"
proof (induction a b arbitrary: c rule: str_less.induct)
  case (2 b bs)
  then show ?case by (cases c) auto
next
  case (4 a as b bs)
  then show ?case by (cases c) (auto split: if_splits)
qed auto

lemma str_less_total: "str_less a b \<or> a = b \<or> str_less b a"
proof (induction a b rule: str_less.induct)
  case (4 a as b bs)
  have "a \<noteq> b \<Longrightarrow> (of_char a :: nat) < of_char b \<or> (of_char b :: nat) < of_char a"
    by (metis linorder_neqE_nat of_char_eq_iff)
  with 4 show ?case by auto
qed auto

section \<open>Quoting\<close>

text \<open>
  \<open>strconv.Quote\<close>, the \<open>%q\<close> verb.  Runes outside ASCII are taken to be printable (as letters and
  symbols are) and kept; invalid bytes become hexadecimal escapes.
\<close>

definition low_hex :: "nat \<Rightarrow> char" where
  "low_hex n = (if n < 10 then char_of (48 + n) else char_of (87 + n))"

definition quote_rune :: "nat \<Rightarrow> string \<Rightarrow> string" where
  "quote_rune r bytes =
     (if r = rune_error \<and> length bytes = 1 then
        (let b = of_char (hd bytes) in [CHR 0x5C, CHR ''x'', low_hex (b div 16), low_hex (b mod 16)])
      else if r = 0x22 \<or> r = 0x5C then CHR 0x5C # bytes
      else if r = 7 then [CHR 0x5C, CHR ''a'']
      else if r = 8 then [CHR 0x5C, CHR ''b'']
      else if r = 12 then [CHR 0x5C, CHR ''f'']
      else if r = 10 then [CHR 0x5C, CHR ''n'']
      else if r = 13 then [CHR 0x5C, CHR ''r'']
      else if r = 9 then [CHR 0x5C, CHR ''t'']
      else if r = 11 then [CHR 0x5C, CHR ''v'']
      else if r < 0x20 \<or> r = 0x7F then [CHR 0x5C, CHR ''x'', low_hex (r div 16), low_hex (r mod 16)]
      else bytes)"

function quote_body :: "string \<Rightarrow> string" where
  "quote_body s =
     (if s = [] then []
      else (let n = max 1 (snd (decode_rune s))
            in quote_rune (fst (decode_rune s)) (take n s) @ quote_body (drop n s)))"
  by pat_completeness auto
termination
  by (relation "measure length") auto

declare quote_body.simps [simp del]

definition go_quote :: "string \<Rightarrow> string" where
  "go_quote s = [CHR 0x22] @ quote_body s @ [CHR 0x22]"

end
