(* ===== verification/Database.thy ===== *)
theory Database
  imports GoStrings
begin

text \<open>
  \<open>internal/db\<close>: the SQLite schema of the three migrations as records and tables, and the write
  transaction \<open>DB.WithWriteTx\<close>.

  A table is the list of its rows in \<open>rowid\<close> order.  The SQL statements of the stores are
  translated where they occur, as operations on these lists; the constraints of the schema
  (\<open>PRIMARY KEY\<close>, \<open>UNIQUE\<close>, \<open>REFERENCES\<close> with \<open>foreign_keys=ON\<close>, \<open>AUTOINCREMENT\<close>) are part of
  the insert operations below.  Failures of the driver (a lock not acquired, an I/O error, a
  cancelled context) are inputs: a statement runs under an optional fault.
\<close>

section \<open>Schema\<close>

record user_row =
  ur_id :: int
  ur_slack_user_id :: string
  ur_slack_team_id :: string
  ur_email :: string
  ur_name :: string
  ur_avatar_url :: string
  ur_roles :: string
  ur_created_at :: int
  ur_last_login_at :: int

record session_row =
  sr_id :: string
  sr_user_id :: int
  sr_created_at :: int
  sr_last_seen_at :: int
  sr_expires_at :: int
  sr_user_agent :: "string option"
  sr_ip :: "string option"

record key_row =
  kr_id :: int
  kr_user_id :: int
  kr_fingerprint :: string
  kr_key_type :: string
  kr_public_key :: string
  kr_label :: "string option"
  kr_created_at :: int
  kr_last_used_at :: "int option"

record db =
  users :: "user_row list"
  users_seq :: int
  sessions :: "session_row list"
  ssh_keys :: "key_row list"
  ssh_keys_seq :: int

definition empty_db :: db where
  "empty_db = \<lparr>users = [], users_seq = 0, sessions = [], ssh_keys = [], ssh_keys_seq = 0\<rparr>"

section \<open>Inserts and their constraints\<close>

definition unique_error :: "string \<Rightarrow> err" where
  "unique_error col = Message (''constraint failed: UNIQUE constraint failed: '' @ col)"

definition foreign_key_error :: err where
  "foreign_key_error = Message ''constraint failed: FOREIGN KEY constraint failed''"

definition user_exists :: "db \<Rightarrow> int \<Rightarrow> bool" where
  "user_exists d i \<longleftrightarrow> i \<in> set (map ur_id (users d))"

text \<open>An \<open>AUTOINCREMENT\<close> id is one more than the largest id the table ever held.\<close>

definition insert_user :: "(int \<Rightarrow> user_row) \<Rightarrow> db \<Rightarrow> int result \<times> db" where
  "insert_user mk d =
     (let i = users_seq d + 1; r = mk i
      in if ur_slack_user_id r \<in> set (map ur_slack_user_id (users d))
         then (Inl (unique_error ''users.slack_user_id''), d)
         else (Inr i, d\<lparr>users := users d @ [r], users_seq := i\<rparr>))"

definition insert_session :: "session_row \<Rightarrow> db \<Rightarrow> unit result \<times> db" where
  "insert_session r d =
     (if sr_id r \<in> set (map sr_id (sessions d)) then (Inl (unique_error ''sessions.id''), d)
      else if \<not> user_exists d (sr_user_id r) then (Inl foreign_key_error, d)
      else (Inr (), d\<lparr>sessions := sessions d @ [r]\<rparr>))"

definition insert_key :: "(int \<Rightarrow> key_row) \<Rightarrow> db \<Rightarrow> int result \<times> db" where
  "insert_key mk d =
     (let i = ssh_keys_seq d + 1; r = mk i
      in if kr_fingerprint r \<in> set (map kr_fingerprint (ssh_keys d))
         then (Inl (unique_error ''ssh_keys.fingerprint''), d)
         else if \<not> user_exists d (kr_user_id r) then (Inl foreign_key_error, d)
         else (Inr i, d\<lparr>ssh_keys := ssh_keys d @ [r], ssh_keys_seq := i\<rparr>))"

section \<open>Statements under a fault\<close>

definition stmt :: "err option \<Rightarrow> ('s \<Rightarrow> 'a result \<times> 's) \<Rightarrow> 's \<Rightarrow> 'a result \<times> 's" where
  "stmt fault op s = (case fault of Some e \<Rightarrow> (Inl e, s) | None \<Rightarrow> op s)"

lemma stmt_None [simp]: "stmt None op s = op s"
  by (simp add: stmt_def)

lemma stmt_Some [simp]: "stmt (Some e) op s = (Inl e, s)"
  by (simp add: stmt_def)

section \<open>WithWriteTx\<close>

text \<open>What the callback does: return a value or an error, or panic.\<close>

datatype 'a fn_out = Done "'a result" | Panicked string

text \<open>
  The failures a transaction can meet: acquiring the writer connection, \<open>BEGIN IMMEDIATE\<close>,
  the statements of the callback by position, \<open>COMMIT\<close> and \<open>ROLLBACK\<close>.
\<close>

record tx_fault =
  ft_acquire :: "err option"
  ft_begin :: "err option"
  ft_stmt :: "nat \<Rightarrow> err option"
  ft_commit :: "err option"
  ft_rollback :: "err option"

definition no_fault :: tx_fault where
  "no_fault = \<lparr>ft_acquire = None, ft_begin = None, ft_stmt = (\<lambda>_. None), ft_commit = None,
               ft_rollback = None\<rparr>"

text \<open>The deferred rollback: its own error is reported only when there is none yet.\<close>

definition rollback_result :: "tx_fault \<Rightarrow> err option \<Rightarrow> err option" where
  "rollback_result f e =
     (case (ft_rollback f, e) of
        (Some rb, None) \<Rightarrow> Some (Wrap ''rollback'' rb)
      | _ \<Rightarrow> e)"

definition with_write_tx ::
    "tx_fault \<Rightarrow> (db \<Rightarrow> 'a fn_out \<times> db) \<Rightarrow> db \<Rightarrow> 'a fn_out \<times> db" where
  "with_write_tx f fn s =
     (case ft_acquire f of
        Some e \<Rightarrow> (Done (Inl (Wrap ''acquire writer conn'' e)), s)
      | None \<Rightarrow>
     (case ft_begin f of
        Some e \<Rightarrow> (Done (Inl (Wrap ''begin immediate'' e)), s)
      | None \<Rightarrow>
     (case fn s of
        (Panicked m, s') \<Rightarrow> (Panicked m, s)
      | (Done (Inl e), s') \<Rightarrow>
          (case rollback_result f (Some e) of Some e' \<Rightarrow> (Done (Inl e'), s) | None \<Rightarrow> (Done (Inl e), s))
      | (Done (Inr v), s') \<Rightarrow>
          (case ft_commit f of
             None \<Rightarrow> (Done (Inr v), s')
           | Some ce \<Rightarrow>
               (let e = Wrap ''commit'' ce
                in case rollback_result f (Some e) of
                     Some e' \<Rightarrow> (Done (Inl e'), s) | None \<Rightarrow> (Done (Inl e), s))))))"

text \<open>A callback that cannot panic, which is every callback of the program.\<close>

definition write_tx :: "tx_fault \<Rightarrow> (db \<Rightarrow> 'a result \<times> db) \<Rightarrow> db \<Rightarrow> 'a result \<times> db" where
  "write_tx f body d =
     (case with_write_tx f (\<lambda>s. case body s of (r, s') \<Rightarrow> (Done r, s')) d of
        (Done r, d') \<Rightarrow> (r, d')
      | (Panicked m, d') \<Rightarrow> (Inl (Message m), d'))"

lemma rollback_result_Some [simp]: "rollback_result f (Some e) = Some e"
  by (auto simp: rollback_result_def split: option.splits)

text \<open>The equation the component proofs use: the callback's state is kept on success only.\<close>

lemma write_tx_eq:
  "write_tx f body d =
     (case ft_acquire f of
        Some e \<Rightarrow> (Inl (Wrap ''acquire writer conn'' e), d)
      | None \<Rightarrow>
     (case ft_begin f of
        Some e \<Rightarrow> (Inl (Wrap ''begin immediate'' e), d)
      | None \<Rightarrow>
     (case body d of
        (Inl e, d') \<Rightarrow> (Inl e, d)
      | (Inr v, d') \<Rightarrow>
          (case ft_commit f of
             None \<Rightarrow> (Inr v, d')
           | Some e \<Rightarrow> (Inl (Wrap ''commit'' e), d)))))"
  by (auto simp: write_tx_def with_write_tx_def Let_def split: option.splits prod.splits sum.splits)

lemma write_tx_no_fault [simp]:
  "write_tx no_fault body d = (case body d of (Inl e, d') \<Rightarrow> (Inl e, d) | (Inr v, d') \<Rightarrow> (Inr v, d'))"
  by (simp add: write_tx_eq no_fault_def split: prod.splits sum.splits)

lemma write_tx_Inr:
  "write_tx f body d = (Inr v, d') \<Longrightarrow> body d = (Inr v, d')"
  by (auto simp: write_tx_eq split: option.splits prod.splits sum.splits)

lemma write_tx_Inl: "write_tx f body d = (Inl e, d') \<Longrightarrow> d' = d"
  by (auto simp: write_tx_eq split: option.splits prod.splits sum.splits)

text \<open>
  A property of the database that the callback keeps is kept by the transaction: the rule
  every invariant proof of a store goes through.
\<close>

lemma write_tx_invariant:
  assumes "P d" and "\<And>v d'. body d = (Inr v, d') \<Longrightarrow> P d'"
  shows "P (snd (write_tx f body d))"
  using assms by (auto simp: write_tx_eq split: option.splits prod.splits sum.splits)

section \<open>Opening and closing\<close>

text \<open>
  \<open>Open\<close> works on two pools.  What it does to them is the trace of the events below; the errors
  of the driver and of the migration library are inputs.
\<close>

definition build_dsn :: "string \<Rightarrow> bool \<Rightarrow> string" where
  "build_dsn path read_only =
     (let dsn = ''file:'' @ path @ ''?_pragma=journal_mode(WAL)'' @ ''&_pragma=synchronous(NORMAL)''
                @ ''&_pragma=foreign_keys(ON)'' @ ''&_pragma=busy_timeout(5000)''
      in if read_only then dsn @ ''&mode=ro'' else dsn)"

datatype pool = WriterPool | ReaderPool

datatype pool_event =
    PoolOpened pool string nat
  | PoolClosed pool
  | MigrationsApplied

definition open_writer :: "string \<Rightarrow> err option \<Rightarrow> pool_event result" where
  "open_writer path fault =
     (case fault of Some e \<Rightarrow> Inl e | None \<Rightarrow> Inr (PoolOpened WriterPool (build_dsn path False) 1))"

definition open_reader :: "string \<Rightarrow> nat \<Rightarrow> err option \<Rightarrow> pool_event result" where
  "open_reader path cpus fault =
     (case fault of
        Some e \<Rightarrow> Inl e
      | None \<Rightarrow> Inr (PoolOpened ReaderPool (build_dsn path True) (max cpus 4)))"

text \<open>\<open>migrate\<close>: the two calls of the migration library that can fail.\<close>

definition migrate :: "err option \<Rightarrow> err option \<Rightarrow> err option" where
  "migrate set_dialect up =
     (case set_dialect of
        Some e \<Rightarrow> Some (Wrap ''set goose dialect'' e)
      | None \<Rightarrow> map_option (Wrap ''apply migrations'') up)"

record open_fault =
  of_writer :: "err option"
  of_writer_ping :: "err option"
  of_dialect :: "err option"
  of_up :: "err option"
  of_reader :: "err option"
  of_reader_ping :: "err option"

definition db_open :: "string \<Rightarrow> nat \<Rightarrow> open_fault \<Rightarrow> string result \<times> pool_event list" where
  "db_open path cpus f =
     (let failed = (\<lambda>what e. Inl (Wrap (''db: '' @ what @ '' '' @ go_quote path) e))
      in if path = [] then (Inl (Message ''db: empty path''), [])
      else (case open_writer path (of_writer f) of
        Inl e \<Rightarrow> (failed ''open writer'' e, [])
      | Inr w \<Rightarrow>
      (case of_writer_ping f of
        Some e \<Rightarrow> (failed ''ping writer'' e, [w, PoolClosed WriterPool])
      | None \<Rightarrow>
      (case migrate (of_dialect f) (of_up f) of
        Some e \<Rightarrow> (failed ''migrate'' e, [w, PoolClosed WriterPool])
      | None \<Rightarrow>
      (case open_reader path cpus (of_reader f) of
        Inl e \<Rightarrow> (failed ''open reader'' e, [w, MigrationsApplied, PoolClosed WriterPool])
      | Inr r \<Rightarrow>
      (case of_reader_ping f of
        Some e \<Rightarrow> (failed ''ping reader'' e,
                   [w, MigrationsApplied, r, PoolClosed ReaderPool, PoolClosed WriterPool])
      | None \<Rightarrow> (Inr path, [w, MigrationsApplied, r])))))))"

text \<open>\<open>Close\<close> closes both pools whatever the first answers, and joins the errors.\<close>

definition db_close :: "err option \<Rightarrow> err option \<Rightarrow> err list \<times> pool_event list" where
  "db_close reader_err writer_err =
     ((case reader_err of Some e \<Rightarrow> [Wrap ''close reader'' e] | None \<Rightarrow> [])
      @ (case writer_err of Some e \<Rightarrow> [Wrap ''close writer'' e] | None \<Rightarrow> []),
      [PoolClosed ReaderPool, PoolClosed WriterPool])"

definition opened :: "pool_event list \<Rightarrow> pool set" where
  "opened es = {p. \<exists>dsn n. PoolOpened p dsn n \<in> set es}"

definition closed :: "pool_event list \<Rightarrow> pool set" where
  "closed es = {p. PoolClosed p \<in> set es}"

text \<open>A failed open leaves no pool open.\<close>

lemma db_open_closes:
  "db_open path cpus f = (Inl e, es) \<Longrightarrow> opened es \<subseteq> closed es"
  by (auto simp: db_open_def open_writer_def open_reader_def opened_def closed_def Let_def
           split: if_splits option.splits sum.splits)

lemma db_open_success:
  "db_open path cpus f = (Inr p, es) \<Longrightarrow>
     es = [PoolOpened WriterPool (build_dsn path False) 1, MigrationsApplied,
           PoolOpened ReaderPool (build_dsn path True) (max cpus 4)]"
  by (auto simp: db_open_def open_writer_def open_reader_def Let_def
           split: if_splits option.splits sum.splits)

section \<open>Well-formed databases\<close>

text \<open>What the constraints of the schema say of a database.\<close>

definition db_wf :: "db \<Rightarrow> bool" where
  "db_wf d \<longleftrightarrow>
     distinct (map ur_id (users d)) \<and>
     distinct (map ur_slack_user_id (users d)) \<and>
     (\<forall>u \<in> set (users d). ur_id u \<le> users_seq d) \<and>
     distinct (map sr_id (sessions d)) \<and>
     (\<forall>s \<in> set (sessions d). user_exists d (sr_user_id s)) \<and>
     distinct (map kr_id (ssh_keys d)) \<and>
     distinct (map kr_fingerprint (ssh_keys d)) \<and>
     (\<forall>k \<in> set (ssh_keys d). kr_id k \<le> ssh_keys_seq d \<and> user_exists d (kr_user_id k))"

lemma db_wf_empty [simp]: "db_wf empty_db"
  by (simp add: db_wf_def empty_db_def)

lemma insert_user_wf:
  "db_wf d \<Longrightarrow> (\<And>i. ur_id (mk i) = i) \<Longrightarrow> db_wf (snd (insert_user mk d))"
  by (fastforce simp: db_wf_def insert_user_def Let_def user_exists_def)

lemma insert_session_wf: "db_wf d \<Longrightarrow> db_wf (snd (insert_session r d))"
  by (auto simp: db_wf_def insert_session_def user_exists_def)

lemma insert_key_wf:
  "db_wf d \<Longrightarrow> (\<And>i. kr_id (mk i) = i) \<Longrightarrow> db_wf (snd (insert_key mk d))"
  by (fastforce simp: db_wf_def insert_key_def Let_def user_exists_def)

section \<open>An example\<close>

text \<open>A database with two users, for the concrete instances of the properties.\<close>

definition example_user :: "int \<Rightarrow> string \<Rightarrow> string \<Rightarrow> user_row" where
  "example_user i name roles =
     \<lparr>ur_id = i, ur_slack_user_id = ''U'' @ name, ur_slack_team_id = ''T01'',
      ur_email = name @ ''@example.org'', ur_name = name, ur_avatar_url = [],
      ur_roles = roles, ur_created_at = 500, ur_last_login_at = 500\<rparr>"

definition example_db :: db where
  "example_db =
     \<lparr>users = [example_user 1 ''ada'' ''admin,dev'', example_user 2 ''bob'' []], users_seq = 2,
      sessions = [], ssh_keys = [], ssh_keys_seq = 0\<rparr>"

lemma example_db_wf [simp]: "db_wf example_db"
  by (simp add: db_wf_def example_db_def example_user_def user_exists_def)

lemma example_db_sessions [simp]: "sessions example_db = []"
  by (simp add: example_db_def)

end
