(* ===== verification/GoCodec.thy ===== *)
theory GoCodec
  imports GoStrings
begin

text \<open>
  \<open>base64.RawURLEncoding\<close> of Go: the URL-safe alphabet, no padding.  Session ids, pre-auth
  tokens, enrollment tokens and request ids are random bytes in this encoding, and the
  pre-auth cookie is a JSON text in it.  The decoder is the library's default (not strict)
  one: it skips CR and LF and ignores the unused low bits of the last character.
\<close>

section \<open>Alphabet\<close>

definition b64_char :: "nat \<Rightarrow> char" where
  "b64_char n =
     (if n < 26 then char_of (65 + n)
      else if n < 52 then char_of (97 + (n - 26))
      else if n < 62 then char_of (48 + (n - 52))
      else if n = 62 then CHR ''-'' else CHR ''_'')"

definition b64_value :: "char \<Rightarrow> nat option" where
  "b64_value c =
     (let n = (of_char c :: nat)
      in if 65 \<le> n \<and> n \<le> 90 then Some (n - 65)
         else if 97 \<le> n \<and> n \<le> 122 then Some (n - 97 + 26)
         else if 48 \<le> n \<and> n \<le> 57 then Some (n - 48 + 52)
         else if n = 45 then Some 62
         else if n = 95 then Some 63
         else None)"

lemma b64_value_char [simp]: "n < 64 \<Longrightarrow> b64_value (b64_char n) = Some n"
  by (auto simp: b64_value_def b64_char_def Let_def)

lemma b64_char_edge: "n < 64 \<Longrightarrow> role_char (b64_char n)"
  by (auto simp: b64_char_def role_char_def Let_def)

section \<open>Encoding\<close>

fun b64_encode_bytes :: "nat list \<Rightarrow> string" where
  "b64_encode_bytes [] = []"
| "b64_encode_bytes [a] = [b64_char (a div 4), b64_char (a mod 4 * 16)]"
| "b64_encode_bytes [a, b] =
     [b64_char (a div 4), b64_char (a mod 4 * 16 + b div 16), b64_char (b mod 16 * 4)]"
| "b64_encode_bytes (a # b # c # rest) =
     b64_char (a div 4) # b64_char (a mod 4 * 16 + b div 16)
       # b64_char (b mod 16 * 4 + c div 64) # b64_char (c mod 64) # b64_encode_bytes rest"

definition b64_encode :: "string \<Rightarrow> string" where
  "b64_encode s = b64_encode_bytes (map of_char s)"

fun b64_decode_values :: "nat list \<Rightarrow> nat list option" where
  "b64_decode_values [] = Some []"
| "b64_decode_values [a] = None"
| "b64_decode_values [a, b] = Some [a * 4 + b div 16]"
| "b64_decode_values [a, b, c] = Some [a * 4 + b div 16, b mod 16 * 16 + c div 4]"
| "b64_decode_values (a # b # c # d # rest) =
     map_option (\<lambda>xs. (a * 4 + b div 16) # (b mod 16 * 16 + c div 4) # (c mod 4 * 64 + d) # xs)
       (b64_decode_values rest)"

fun b64_values :: "string \<Rightarrow> nat list option" where
  "b64_values [] = Some []"
| "b64_values (c # cs) =
     (if c = CHR 0x0A \<or> c = CHR 0x0D then b64_values cs
      else case b64_value c of
             None \<Rightarrow> None
           | Some v \<Rightarrow> map_option (Cons v) (b64_values cs))"

definition b64_decode :: "string \<Rightarrow> string option" where
  "b64_decode s =
     (case b64_values s of
        None \<Rightarrow> None
      | Some vs \<Rightarrow> map_option (map char_of) (b64_decode_values vs))"

section \<open>Round trip\<close>

lemma b64_char_not_newline:
  "n < 64 \<Longrightarrow> b64_char n \<noteq> CHR 0x0A" "n < 64 \<Longrightarrow> b64_char n \<noteq> CHR 0x0D"
  using b64_char_edge [of n] by (auto simp: role_char_def)

lemma b64_values_char [simp]:
  "n < 64 \<Longrightarrow> b64_values (b64_char n # cs) = map_option (Cons n) (b64_values cs)"
  by (simp add: b64_char_not_newline)

lemma b64_roundtrip_bytes:
  "\<forall>b \<in> set bs. b < 256 \<Longrightarrow>
   (case b64_values (b64_encode_bytes bs) of None \<Rightarrow> None | Some vs \<Rightarrow> b64_decode_values vs)
     = Some bs"
proof (induction bs rule: b64_encode_bytes.induct)
  case 1
  show ?case by simp
next
  case (2 a)
  then have "a div 4 < 64" "a mod 4 * 16 < 64" by auto
  then show ?case by (simp del: b64_values.simps(2))
next
  case (3 a b)
  then have "a div 4 < 64" "a mod 4 * 16 + b div 16 < 64" "b mod 16 * 4 < 64" "b div 16 < 16"
    by auto
  then show ?case by (simp del: b64_values.simps(2))
next
  case (4 a b c rest)
  then have "a div 4 < 64" "a mod 4 * 16 + b div 16 < 64" "b mod 16 * 4 + c div 64 < 64"
    "c mod 64 < 64" "b div 16 < 16" "c div 64 < 4" by auto
  moreover from 4 obtain vs where "b64_values (b64_encode_bytes rest) = Some vs"
    "b64_decode_values vs = Some rest"
    by (auto split: option.splits)
  ultimately show ?case by (simp del: b64_values.simps(2))
qed

lemma b64_decode_encode: "b64_decode (b64_encode s) = Some s"
proof -
  have "\<forall>b \<in> set (map of_char s). (b :: nat) < 256" by (auto simp: nat_of_char_less_256)
  from b64_roundtrip_bytes [OF this] show ?thesis
    by (auto simp: b64_decode_def b64_encode_def o_def split: option.splits)
qed

lemma b64_encode_inj: "b64_encode s = b64_encode t \<longleftrightarrow> s = t"
  by (metis b64_decode_encode option.inject)

lemma b64_encode_bytes_role: "\<forall>b \<in> set bs. b < 256 \<Longrightarrow> list_all role_char (b64_encode_bytes bs)"
  by (induction bs rule: b64_encode_bytes.induct) (auto intro!: b64_char_edge)

lemma b64_encode_role: "list_all role_char (b64_encode s)"
  unfolding b64_encode_def
  by (rule b64_encode_bytes_role) (auto simp: nat_of_char_less_256)

lemma length_b64_encode_bytes:
  "length (b64_encode_bytes bs) = (4 * length bs + 2) div 3"
  by (induction bs rule: b64_encode_bytes.induct) auto

lemma length_b64_encode: "length (b64_encode s) = (4 * length s + 2) div 3"
  by (simp add: b64_encode_def length_b64_encode_bytes)

section \<open>Random tokens\<close>

text \<open>
  \<open>rand.Read\<close> fills a buffer of the given length or fails; its result is an input of the
  functions that draw random bytes.  The three packages that mint ids share this shape: 32
  random bytes in base64url.
\<close>

definition random_id :: "string \<Rightarrow> string result \<Rightarrow> string result" where
  "random_id what rnd =
     (case rnd of Inl e \<Rightarrow> Inl (Wrap what e) | Inr b \<Rightarrow> Inr (b64_encode b))"

lemma random_id_inj: "random_id w (Inr a) = random_id w (Inr b) \<longleftrightarrow> a = b"
  by (simp add: random_id_def b64_encode_inj)

end
