(* ===== verification/GoUrl.thy ===== *)
theory GoUrl
  imports GoStrings
begin

text \<open>
  Package \<open>net/url\<close> of the Go release the module names (go 1.25.7), as far as the program uses
  it: \<open>Parse\<close>, \<open>URL.String\<close>, \<open>URL.Hostname\<close>, \<open>URL.Port\<close>, \<open>URL.RequestURI\<close>, \<open>URL.Query\<close>,
  \<open>QueryEscape\<close>, \<open>PathEscape\<close> and \<open>QueryUnescape\<close>.  A parse error is \<open>None\<close>: the program
  never looks at its text beyond printing it.  In this release a bracketed host must hold an
  IPv6 address (\<open>netip.ParseAddr\<close>, with an optional zone), text before the bracket is dropped,
  and colons inside an unbracketed host are accepted when the last one starts a valid port.
\<close>

section \<open>Escaping\<close>

datatype encoding =
    EncodePath | EncodePathSegment | EncodeHost | EncodeZone
  | EncodeUserPassword | EncodeQueryComponent | EncodeFragment

definition is_alnum :: "char \<Rightarrow> bool" where
  "is_alnum c \<longleftrightarrow>
     (let n = (of_char c :: nat)
      in (97 \<le> n \<and> n \<le> 122) \<or> (65 \<le> n \<and> n \<le> 90) \<or> (48 \<le> n \<and> n \<le> 57))"

definition should_escape :: "char \<Rightarrow> encoding \<Rightarrow> bool" where
  "should_escape c mode \<longleftrightarrow>
     (if is_alnum c then False
      else if (mode = EncodeHost \<or> mode = EncodeZone)
        \<and> c \<in> set (''!$&()*+,;=:[]<>'' @ [CHR 0x27, CHR 0x22]) then False
      else if c \<in> set ''-_.~'' then False
      else if c \<in> set ''$&+,/:;=?@'' then
        (case mode of
           EncodePath \<Rightarrow> c = CHR ''?''
         | EncodePathSegment \<Rightarrow> c \<in> set ''/;,?''
         | EncodeUserPassword \<Rightarrow> c \<in> set ''@/?:''
         | EncodeQueryComponent \<Rightarrow> True
         | EncodeFragment \<Rightarrow> False
         | EncodeHost \<Rightarrow> True
         | EncodeZone \<Rightarrow> True)
      else if mode = EncodeFragment \<and> c \<in> set ''!()*'' then False
      else True)"

definition hex_digit :: "nat \<Rightarrow> char" where
  "hex_digit n = (if n < 10 then char_of (48 + n) else char_of (55 + n))"

definition unhex :: "char \<Rightarrow> nat option" where
  "unhex c =
     (let n = (of_char c :: nat)
      in if 48 \<le> n \<and> n \<le> 57 then Some (n - 48)
         else if 97 \<le> n \<and> n \<le> 102 then Some (n - 97 + 10)
         else if 65 \<le> n \<and> n \<le> 70 then Some (n - 65 + 10)
         else None)"

definition percent :: "char \<Rightarrow> string" where
  "percent c = [CHR ''%'', hex_digit (of_char c div 16), hex_digit (of_char c mod 16)]"

definition escape_char :: "encoding \<Rightarrow> char \<Rightarrow> string" where
  "escape_char mode c =
     (if c = CHR '' '' \<and> mode = EncodeQueryComponent then ''+''
      else if should_escape c mode then percent c else [c])"

definition url_escape :: "encoding \<Rightarrow> string \<Rightarrow> string" where
  "url_escape mode s = concat (map (escape_char mode) s)"

text \<open>Whether a percent-encoded triple is accepted in a mode, and whether a plain byte is.\<close>

definition triple_ok :: "encoding \<Rightarrow> char \<Rightarrow> char \<Rightarrow> bool" where
  "triple_ok mode a b \<longleftrightarrow>
     (case (unhex a, unhex b) of
        (Some x, Some y) \<Rightarrow>
          \<not> (mode = EncodeHost \<and> x < 8 \<and> [a, b] \<noteq> ''25'') \<and>
          \<not> (mode = EncodeZone \<and> [a, b] \<noteq> ''25'' \<and> x * 16 + y \<noteq> 32
               \<and> should_escape (char_of (x * 16 + y)) EncodeHost)
      | _ \<Rightarrow> False)"

definition plain_ok :: "encoding \<Rightarrow> char \<Rightarrow> bool" where
  "plain_ok mode c \<longleftrightarrow>
     \<not> ((mode = EncodeHost \<or> mode = EncodeZone) \<and> (of_char c :: nat) < 0x80 \<and> should_escape c mode)"

fun url_unescape :: "encoding \<Rightarrow> string \<Rightarrow> string option" where
  "url_unescape mode [] = Some []"
| "url_unescape mode (c # cs) =
     (if c = CHR ''%'' then
        (case cs of
           a # b # rest \<Rightarrow>
             (if triple_ok mode a b
              then map_option (Cons (char_of (the (unhex a) * 16 + the (unhex b))))
                     (url_unescape mode rest)
              else None)
         | _ \<Rightarrow> None)
      else if c = CHR ''+'' then
        map_option (Cons (if mode = EncodeQueryComponent then CHR '' '' else c))
          (url_unescape mode cs)
      else if plain_ok mode c then map_option (Cons c) (url_unescape mode cs)
      else None)"

abbreviation query_escape :: "string \<Rightarrow> string" where
  "query_escape \<equiv> url_escape EncodeQueryComponent"

abbreviation path_escape :: "string \<Rightarrow> string" where
  "path_escape \<equiv> url_escape EncodePathSegment"

lemma unhex_hex_digit [simp]: "n < 16 \<Longrightarrow> unhex (hex_digit n) = Some n"
  by (auto simp: unhex_def hex_digit_def Let_def)

lemma char_split [simp]: "char_of ((of_char c :: nat) div 16 * 16 + of_char c mod 16) = c"
  by simp

lemma of_char_div16: "(of_char (c :: char) :: nat) div 16 < 16"
proof -
  have "(of_char c :: nat) < 16 * 16" by simp
  then show ?thesis by (rule less_mult_imp_div_less)
qed

lemma should_escape_percent: "should_escape (CHR ''%'') mode"
  by (simp add: should_escape_def is_alnum_def)

lemma should_escape_plus: "should_escape (CHR ''+'') EncodeQueryComponent"
  by (simp add: should_escape_def is_alnum_def)

lemma unescape_percent:
  assumes "mode \<noteq> EncodeHost" and "mode \<noteq> EncodeZone"
  shows "url_unescape mode (percent c @ s) = map_option (Cons c) (url_unescape mode s)"
proof -
  have "triple_ok mode (hex_digit (of_char c div 16)) (hex_digit (of_char c mod 16))"
    using assms by (simp add: triple_ok_def of_char_div16)
  then show ?thesis by (simp add: percent_def of_char_div16)
qed

lemma unescape_plain:
  assumes "mode \<noteq> EncodeHost" and "mode \<noteq> EncodeZone"
    and "c \<noteq> CHR ''%''" and "c = CHR ''+'' \<Longrightarrow> mode \<noteq> EncodeQueryComponent"
  shows "url_unescape mode (c # s) = map_option (Cons c) (url_unescape mode s)"
  using assms by (auto simp: plain_ok_def)

lemma escape_char_unescape:
  assumes "mode \<noteq> EncodeHost" and "mode \<noteq> EncodeZone"
  shows "url_unescape mode (escape_char mode c @ s) = map_option (Cons c) (url_unescape mode s)"
proof (cases "c = CHR '' '' \<and> mode = EncodeQueryComponent")
  case True
  then show ?thesis by (simp add: escape_char_def)
next
  case no_space: False
  show ?thesis
  proof (cases "should_escape c mode")
    case True
    with no_space have "escape_char mode c = percent c" by (auto simp: escape_char_def)
    with assms show ?thesis by (simp add: unescape_percent)
  next
    case False
    with no_space have "escape_char mode c @ s = c # s" by (auto simp: escape_char_def)
    moreover from False have "c \<noteq> CHR ''%''" "c = CHR ''+'' \<Longrightarrow> mode \<noteq> EncodeQueryComponent"
      using should_escape_percent should_escape_plus by auto
    ultimately show ?thesis using assms by (metis unescape_plain)
  qed
qed

lemma unescape_escape:
  assumes "mode \<noteq> EncodeHost" and "mode \<noteq> EncodeZone"
  shows "url_unescape mode (url_escape mode s) = Some s"
proof (induction s)
  case (Cons c s)
  then show ?case
    using escape_char_unescape [OF assms, of c "url_escape mode s"] by (simp add: url_escape_def)
qed (simp add: url_escape_def)

section \<open>IP literals\<close>

definition is_hex :: "char \<Rightarrow> bool" where
  "is_hex c \<longleftrightarrow> unhex c \<noteq> None"

definition octet_ok :: "string \<Rightarrow> bool" where
  "octet_ok f \<longleftrightarrow> f \<noteq> [] \<and> list_all is_digit f \<and> (length f = 1 \<or> hd f \<noteq> CHR ''0'')
     \<and> digits_value f \<le> 255"

definition valid_ipv4 :: "string \<Rightarrow> bool" where
  "valid_ipv4 s \<longleftrightarrow>
     (let fs = str_split (CHR ''.'') s in length fs = 4 \<and> list_all octet_ok fs)"

text \<open>The loop of \<open>netip.parseIPv6\<close>: bytes written so far, the rest, whether \<open>::\<close> was seen.\<close>

function ipv6_loop :: "nat \<Rightarrow> string \<Rightarrow> bool \<Rightarrow> bool" where
  "ipv6_loop i s ell =
     (let finish = (\<lambda>i ell. if i < 16 then ell else \<not> ell)
      in if 16 \<le> i then s = [] \<and> finish i ell
         else
           let off = length (takeWhile is_hex s); rest = drop off s
           in if off = 0 \<or> 4 < off then False
              else (case rest of
                  [] \<Rightarrow> finish (i + 2) ell
                | c # s' \<Rightarrow>
                    if c = CHR ''.'' then
                      (ell \<or> i = 12) \<and> i + 4 \<le> 16 \<and> valid_ipv4 s \<and> finish (i + 4) ell
                    else if c \<noteq> CHR '':'' then False
                    else (case s' of
                        [] \<Rightarrow> False
                      | d # s'' \<Rightarrow>
                          if d = CHR '':'' then
                            (if ell then False
                             else if s'' = [] then finish (i + 2) True
                             else ipv6_loop (i + 2) s'' True)
                          else ipv6_loop (i + 2) s' ell)))"
  by pat_completeness auto
termination
  by (relation "measure (\<lambda>(i, s, ell). 16 - i)") auto

declare ipv6_loop.simps [simp del]

definition valid_ipv6 :: "string \<Rightarrow> bool" where
  "valid_ipv6 s \<longleftrightarrow>
     (case str_cut (CHR ''%'') s of (addr, zone, has_zone) \<Rightarrow>
        if has_zone \<and> zone = [] then False
        else if has_prefix addr ''::'' then
          drop 2 addr = [] \<or> ipv6_loop 0 (drop 2 addr) True
        else ipv6_loop 0 addr False)"

text \<open>\<open>netip.ParseAddr\<close> succeeds with an address that is not an IPv4 one.\<close>

definition parse_addr_is6 :: "string \<Rightarrow> bool" where
  "parse_addr_is6 s \<longleftrightarrow>
     (case find (\<lambda>c. c \<in> set ''.:%'') s of
        Some c \<Rightarrow> c = CHR '':'' \<and> valid_ipv6 s
      | None \<Rightarrow> False)"

section \<open>URLs\<close>

record userinfo =
  ui_username :: string
  ui_password :: "string option"

record url =
  u_scheme :: string
  u_opaque :: string
  u_user :: "userinfo option"
  u_host :: string
  u_path :: string
  u_raw_path :: string
  u_omit_host :: bool
  u_force_query :: bool
  u_raw_query :: string
  u_fragment :: string
  u_raw_fragment :: string

definition empty_url :: url where
  "empty_url = \<lparr>u_scheme = [], u_opaque = [], u_user = None, u_host = [], u_path = [],
                u_raw_path = [], u_omit_host = False, u_force_query = False, u_raw_query = [],
                u_fragment = [], u_raw_fragment = []\<rparr>"

text \<open>The last occurrence of a character: what is before it and what is after it.\<close>

definition last_cut :: "char \<Rightarrow> string \<Rightarrow> (string \<times> string) option" where
  "last_cut c s =
     (case str_cut c (rev s) of (a, b, True) \<Rightarrow> Some (rev b, rev a) | _ \<Rightarrow> None)"

definition valid_optional_port :: "string \<Rightarrow> bool" where
  "valid_optional_port p \<longleftrightarrow>
     (case p of [] \<Rightarrow> True | c # cs \<Rightarrow> c = CHR '':'' \<and> list_all is_digit cs)"

definition split_host_port :: "string \<Rightarrow> string \<times> string" where
  "split_host_port hp =
     (let (host, port) =
        (case last_cut (CHR '':'') hp of
           Some (h, p) \<Rightarrow> if valid_optional_port (CHR '':'' # p) then (h, p) else (hp, [])
         | None \<Rightarrow> (hp, []))
      in if has_prefix host ''['' \<and> has_suffix host '']''
         then (butlast (tl host), port) else (host, port))"

definition url_hostname :: "url \<Rightarrow> string" where
  "url_hostname u = fst (split_host_port (u_host u))"

definition url_port :: "url \<Rightarrow> string" where
  "url_port u = snd (split_host_port (u_host u))"

text \<open>\<open>getScheme\<close>: \<open>None\<close> is "missing protocol scheme".\<close>

definition is_letter :: "char \<Rightarrow> bool" where
  "is_letter c \<longleftrightarrow>
     (let n = (of_char c :: nat) in (97 \<le> n \<and> n \<le> 122) \<or> (65 \<le> n \<and> n \<le> 90))"

fun scheme_at :: "string \<Rightarrow> string \<Rightarrow> string \<Rightarrow> (string \<times> string) option" where
  "scheme_at raw pre [] = Some ([], raw)"
| "scheme_at raw pre (c # cs) =
     (if is_letter c then scheme_at raw (pre @ [c]) cs
      else if is_digit c \<or> c \<in> set ''+-.'' then
        (if pre = [] then Some ([], raw) else scheme_at raw (pre @ [c]) cs)
      else if c = CHR '':'' then (if pre = [] then None else Some (pre, cs))
      else Some ([], raw))"

definition get_scheme :: "string \<Rightarrow> (string \<times> string) option" where
  "get_scheme raw = scheme_at raw [] raw"

definition contains_ctl :: "string \<Rightarrow> bool" where
  "contains_ctl s \<longleftrightarrow> list_ex (\<lambda>c. (of_char c :: nat) < 0x20 \<or> (of_char c :: nat) = 0x7F) s"

definition userinfo_char :: "char \<Rightarrow> bool" where
  "userinfo_char c \<longleftrightarrow> is_alnum c \<or> c \<in> set (''-._:~!$&()*+,;=%@'' @ [CHR 0x27])"

definition unescape_user :: "string \<Rightarrow> string option" where
  "unescape_user s = url_unescape EncodeUserPassword s"

definition parse_userinfo :: "string \<Rightarrow> userinfo option" where
  "parse_userinfo s =
     (if \<not> list_all userinfo_char s then None
      else case str_cut (CHR '':'') s of
          (name, pw, False) \<Rightarrow>
            map_option (\<lambda>n. \<lparr>ui_username = n, ui_password = None\<rparr>) (unescape_user name)
        | (name, pw, True) \<Rightarrow>
            (case (unescape_user name, unescape_user pw) of
               (Some n, Some p) \<Rightarrow> Some \<lparr>ui_username = n, ui_password = Some p\<rparr>
             | _ \<Rightarrow> None))"

text \<open>The parts of a bracketed host: what is inside the brackets, unescaped.\<close>

definition unescape_zoned :: "string \<Rightarrow> string option" where
  "unescape_zoned h =
     (case str_index h ''%25'' of
        Some z \<Rightarrow>
          (case (url_unescape EncodeHost (take z h), url_unescape EncodeZone (drop z h)) of
             (Some a, Some b) \<Rightarrow> Some (a @ b)
           | _ \<Rightarrow> None)
      | None \<Rightarrow> url_unescape EncodeHost h)"

definition parse_host :: "string \<Rightarrow> string option" where
  "parse_host host =
     (case last_cut (CHR ''['') host of
        Some (pre, inner) \<Rightarrow>
          (case last_cut (CHR '']'') host of
             None \<Rightarrow> None
           | Some (front, colon_port) \<Rightarrow>
               (if length front < length pre + 1 then None
                else if \<not> valid_optional_port colon_port then None
                else case (url_unescape EncodeHost colon_port,
                           unescape_zoned (drop (length pre + 1) front)) of
                    (Some cp, Some name) \<Rightarrow>
                      (if parse_addr_is6 name then Some (''['' @ name @ '']'' @ cp) else None)
                  | _ \<Rightarrow> None))
      | None \<Rightarrow>
          (case last_cut (CHR '':'') host of
             Some (h, p) \<Rightarrow>
               (if valid_optional_port (CHR '':'' # p) then url_unescape EncodeHost host else None)
           | None \<Rightarrow> url_unescape EncodeHost host))"

definition parse_authority :: "string \<Rightarrow> (userinfo option \<times> string) option" where
  "parse_authority authority =
     (case last_cut (CHR ''@'') authority of
        None \<Rightarrow> map_option (Pair None) (parse_host authority)
      | Some (ui, h) \<Rightarrow>
          (case parse_host h of
             None \<Rightarrow> None
           | Some host \<Rightarrow>
               (case parse_userinfo ui of
                  None \<Rightarrow> None
                | Some u \<Rightarrow> Some (Some u, host))))"

definition set_path :: "string \<Rightarrow> url \<Rightarrow> url option" where
  "set_path p u =
     (case url_unescape EncodePath p of
        None \<Rightarrow> None
      | Some path \<Rightarrow>
          Some (u\<lparr>u_path := path,
                  u_raw_path := (if p = url_escape EncodePath path then [] else p)\<rparr>))"

definition set_fragment :: "string \<Rightarrow> url \<Rightarrow> url option" where
  "set_fragment f u =
     (case url_unescape EncodeFragment f of
        None \<Rightarrow> None
      | Some frag \<Rightarrow>
          Some (u\<lparr>u_fragment := frag,
                  u_raw_fragment := (if f = url_escape EncodeFragment frag then [] else f)\<rparr>))"

text \<open>The query part: a single trailing question mark sets \<open>ForceQuery\<close>.\<close>

definition split_query :: "string \<Rightarrow> string \<times> string \<times> bool" where
  "split_query rest =
     (if has_suffix rest ''?'' \<and> count_list rest (CHR ''?'') = 1
      then (butlast rest, [], True)
      else case str_cut (CHR ''?'') rest of (r, q, _) \<Rightarrow> (r, q, False))"

text \<open>The authority and path of a hierarchical URL; \<open>u\<close> already holds scheme and query.\<close>

definition parse_hier :: "url \<Rightarrow> string \<Rightarrow> url option" where
  "parse_hier u rest =
     (if (u_scheme u \<noteq> [] \<or> \<not> has_prefix rest ''///'') \<and> has_prefix rest ''//'' then
        (let a = drop 2 rest;
             authority = takeWhile (\<lambda>c. c \<noteq> CHR ''/'') a;
             path = dropWhile (\<lambda>c. c \<noteq> CHR ''/'') a
         in case parse_authority authority of
              None \<Rightarrow> None
            | Some (user, host) \<Rightarrow> set_path path (u\<lparr>u_user := user, u_host := host\<rparr>))
      else if u_scheme u \<noteq> [] \<and> has_prefix rest ''/'' then
        set_path rest (u\<lparr>u_omit_host := True\<rparr>)
      else set_path rest u)"

definition parse_no_fragment :: "string \<Rightarrow> url option" where
  "parse_no_fragment raw =
     (if contains_ctl raw then None
      else if raw = ''*'' then Some (empty_url\<lparr>u_path := ''*''\<rparr>)
      else case get_scheme raw of
          None \<Rightarrow> None
        | Some (scheme, rest0) \<Rightarrow>
            (case split_query rest0 of (rest, query, force) \<Rightarrow>
               (let u = empty_url\<lparr>u_scheme := to_lower scheme, u_raw_query := query,
                                  u_force_query := force\<rparr>
                in if \<not> has_prefix rest ''/'' then
                     (if u_scheme u \<noteq> [] then Some (u\<lparr>u_opaque := rest\<rparr>)
                      else if CHR '':'' \<in> set (fst (str_cut (CHR ''/'') rest)) then None
                      else parse_hier u rest)
                   else parse_hier u rest)))"

definition url_parse :: "string \<Rightarrow> url option" where
  "url_parse raw =
     (case str_cut (CHR ''#'') raw of (r, frag, _) \<Rightarrow>
        (case parse_no_fragment r of
           None \<Rightarrow> None
         | Some u \<Rightarrow> if frag = [] then Some u else set_fragment frag u))"

section \<open>Printing\<close>

definition valid_encoded :: "string \<Rightarrow> encoding \<Rightarrow> bool" where
  "valid_encoded s mode \<longleftrightarrow>
     list_all (\<lambda>c. c \<in> set (''!$&()*+,;=:@[]%'' @ [CHR 0x27]) \<or> \<not> should_escape c mode) s"

definition escaped_path :: "url \<Rightarrow> string" where
  "escaped_path u =
     (if u_raw_path u \<noteq> [] \<and> valid_encoded (u_raw_path u) EncodePath
        \<and> url_unescape EncodePath (u_raw_path u) = Some (u_path u) then u_raw_path u
      else if u_path u = ''*'' then ''*''
      else url_escape EncodePath (u_path u))"

definition escaped_fragment :: "url \<Rightarrow> string" where
  "escaped_fragment u =
     (if u_raw_fragment u \<noteq> [] \<and> valid_encoded (u_raw_fragment u) EncodeFragment
        \<and> url_unescape EncodeFragment (u_raw_fragment u) = Some (u_fragment u)
      then u_raw_fragment u
      else url_escape EncodeFragment (u_fragment u))"

definition userinfo_string :: "userinfo \<Rightarrow> string" where
  "userinfo_string ui =
     url_escape EncodeUserPassword (ui_username ui) @
     (case ui_password ui of
        None \<Rightarrow> []
      | Some p \<Rightarrow> CHR '':'' # url_escape EncodeUserPassword p)"

definition authority_string :: "url \<Rightarrow> string" where
  "authority_string u =
     (if u_scheme u \<noteq> [] \<or> u_host u \<noteq> [] \<or> u_user u \<noteq> None then
        (if u_omit_host u \<and> u_host u = [] \<and> u_user u = None then []
         else (if u_host u \<noteq> [] \<or> u_path u \<noteq> [] \<or> u_user u \<noteq> None then ''//'' else []) @
           (case u_user u of None \<Rightarrow> [] | Some ui \<Rightarrow> userinfo_string ui @ ''@'') @
           (if u_host u \<noteq> [] then url_escape EncodeHost (u_host u) else []))
      else [])"

definition query_fragment_string :: "url \<Rightarrow> string" where
  "query_fragment_string u =
     (if u_force_query u \<or> u_raw_query u \<noteq> [] then CHR ''?'' # u_raw_query u else []) @
     (if u_fragment u \<noteq> [] then CHR ''#'' # escaped_fragment u else [])"

definition url_string :: "url \<Rightarrow> string" where
  "url_string u =
     (let scheme = (if u_scheme u \<noteq> [] then u_scheme u @ '':'' else [])
      in if u_opaque u \<noteq> [] then scheme @ u_opaque u @ query_fragment_string u
         else
           let auth = authority_string u;
               path = escaped_path u;
               slash = (if path \<noteq> [] \<and> hd path \<noteq> CHR ''/'' \<and> u_host u \<noteq> [] then ''/'' else []);
               front = scheme @ auth @ slash;
               dot = (if front = [] \<and> CHR '':'' \<in> set (fst (str_cut (CHR ''/'') path))
                      then ''./'' else [])
           in front @ dot @ path @ query_fragment_string u)"

definition request_uri :: "url \<Rightarrow> string" where
  "request_uri u =
     (let r = (if u_opaque u = [] then
                 (if escaped_path u = [] then ''/'' else escaped_path u)
               else if has_prefix (u_opaque u) ''//'' then u_scheme u @ '':'' @ u_opaque u
               else u_opaque u)
      in if u_force_query u \<or> u_raw_query u \<noteq> [] then r @ ''?'' @ u_raw_query u else r)"

section \<open>Query parameters\<close>

text \<open>
  \<open>URL.Query().Get(key)\<close>: the first well-formed \<open>key=value\<close> pair of the raw query; a pair with
  a semicolon or a bad escape is skipped.
\<close>

definition parse_pair :: "string \<Rightarrow> (string \<times> string) option" where
  "parse_pair p =
     (if CHR '';'' \<in> set p \<or> p = [] then None
      else case str_cut (CHR ''='') p of (k, v, _) \<Rightarrow>
        (case (url_unescape EncodeQueryComponent k, url_unescape EncodeQueryComponent v) of
           (Some k', Some v') \<Rightarrow> Some (k', v')
         | _ \<Rightarrow> None))"

definition query_get :: "string \<Rightarrow> string \<Rightarrow> string" where
  "query_get raw key =
     (case find (\<lambda>(k, v). k = key) (List.map_filter parse_pair (str_split (CHR ''&'') raw)) of
        Some (k, v) \<Rightarrow> v
      | None \<Rightarrow> [])"

section \<open>Shape of parsed URLs\<close>

lemma set_path_frame:
  "set_path p u = Some v \<Longrightarrow>
     u_scheme v = u_scheme u \<and> u_opaque v = u_opaque u \<and> u_user v = u_user u \<and> u_host v = u_host u
     \<and> u_raw_query v = u_raw_query u \<and> u_omit_host v = u_omit_host u"
  by (auto simp: set_path_def split: option.splits)

lemma set_fragment_frame:
  "set_fragment f u = Some v \<Longrightarrow>
     u_scheme v = u_scheme u \<and> u_opaque v = u_opaque u \<and> u_user v = u_user u \<and> u_host v = u_host u
     \<and> u_raw_query v = u_raw_query u \<and> u_omit_host v = u_omit_host u"
  by (auto simp: set_fragment_def split: option.splits)

lemma parse_hier_opaque: "parse_hier u rest = Some v \<Longrightarrow> u_opaque v = u_opaque u"
  by (auto simp: parse_hier_def Let_def dest!: set_path_frame split: if_splits option.splits prod.splits)

text \<open>An opaque URL has no host.\<close>

lemma url_parse_host_opaque:
  assumes "url_parse raw = Some u" and "u_host u \<noteq> []"
  shows "u_opaque u = []"
proof -
  obtain v where v: "parse_no_fragment (fst (str_cut (CHR ''#'') raw)) = Some v"
    and uv: "u_opaque u = u_opaque v" "u_host u = u_host v"
    using assms(1)
    by (auto simp: url_parse_def dest: set_fragment_frame split: prod.splits option.splits if_splits)
  from v have "u_opaque v = [] \<or> u_host v = []"
    by (auto simp: parse_no_fragment_def Let_def empty_url_def dest!: parse_hier_opaque
        split: if_splits option.splits prod.splits)
  with assms(2) uv show ?thesis by simp
qed

end
