(* ===== verification/GoHttp.thy ===== *)
theory GoHttp
  imports GoUrl "HOL-Library.AList"
begin

text \<open>
  The parts of \<open>net/http\<close>, \<open>net/textproto\<close> and \<open>net\<close> the handlers use: header maps with
  canonical keys, cookies of a request, the cookies and the answer a handler writes, requests,
  and \<open>SplitHostPort\<close>.

  A \<open>http.Header\<close> (a Go map from keys to lists of values) is an association list whose order
  stands for Go's unspecified iteration order.  The library's cap of 3000 cookies per request
  is not modelled.
\<close>

section \<open>Header keys\<close>

definition token_char :: "char \<Rightarrow> bool" where
  "token_char c \<longleftrightarrow> is_alnum c \<or> c \<in> set (''!#$%&*+-.^_`|~'' @ [CHR 0x27])"

definition is_token :: "string \<Rightarrow> bool" where
  "is_token s \<longleftrightarrow> s \<noteq> [] \<and> list_all token_char s"

definition upper_byte :: "char \<Rightarrow> char" where
  "upper_byte c =
     (if 97 \<le> (of_char c :: nat) \<and> (of_char c :: nat) \<le> 122 then char_of ((of_char c :: nat) - 32)
      else c)"

fun canonical_loop :: "bool \<Rightarrow> string \<Rightarrow> string" where
  "canonical_loop upper [] = []"
| "canonical_loop upper (c # cs) =
     (let d = (if upper then upper_byte c else lower_byte c)
      in d # canonical_loop (d = CHR ''-'') cs)"

text \<open>\<open>http.CanonicalHeaderKey\<close>: a key with a byte outside the token alphabet is left alone.\<close>

definition canonical_key :: "string \<Rightarrow> string" where
  "canonical_key k = (if list_all token_char k then canonical_loop True k else k)"

lemma of_char_upper:
  "(of_char (upper_byte c) :: nat) =
     (if 97 \<le> (of_char c :: nat) \<and> (of_char c :: nat) \<le> 122 then of_char c - 32 else of_char c)"
  by (auto simp: upper_byte_def)

lemma of_char_lower:
  "(of_char (lower_byte c) :: nat) =
     (if 65 \<le> (of_char c :: nat) \<and> (of_char c :: nat) \<le> 90 then of_char c + 32 else of_char c)"
  by (auto simp: lower_byte_def)

lemma char_eq_nat: "c = d \<longleftrightarrow> (of_char c :: nat) = of_char d"
  by simp

lemma upper_byte_idem [simp]: "upper_byte (upper_byte c) = upper_byte c"
  unfolding char_eq_nat of_char_upper by auto

lemma upper_byte_dash [simp]: "upper_byte c = CHR ''-'' \<longleftrightarrow> c = CHR ''-''"
  unfolding char_eq_nat of_char_upper by auto

lemma lower_byte_dash [simp]: "lower_byte c = CHR ''-'' \<longleftrightarrow> c = CHR ''-''"
  unfolding char_eq_nat of_char_lower by auto

lemma canonical_loop_idem [simp]: "canonical_loop b (canonical_loop b s) = canonical_loop b s"
  by (induction s arbitrary: b) (simp_all add: Let_def)

lemma is_alnum_upper [simp]: "is_alnum (upper_byte c) \<longleftrightarrow> is_alnum c"
  unfolding is_alnum_def of_char_upper Let_def by auto

lemma is_alnum_lower [simp]: "is_alnum (lower_byte c) \<longleftrightarrow> is_alnum c"
  unfolding is_alnum_def of_char_lower Let_def by auto

lemma upper_byte_other: "\<not> is_alnum c \<Longrightarrow> upper_byte c = c"
  unfolding is_alnum_def upper_byte_def Let_def by auto

lemma lower_byte_other: "\<not> is_alnum c \<Longrightarrow> lower_byte c = c"
  unfolding is_alnum_def lower_byte_def Let_def by auto

lemma token_char_alnum: "is_alnum c \<Longrightarrow> token_char c"
  by (simp add: token_char_def)

lemma token_char_upper [simp]: "token_char (upper_byte c) \<longleftrightarrow> token_char c"
  by (cases "is_alnum c") (simp_all add: token_char_alnum upper_byte_other)

lemma token_char_lower [simp]: "token_char (lower_byte c) \<longleftrightarrow> token_char c"
  by (cases "is_alnum c") (simp_all add: token_char_alnum lower_byte_other)

lemma token_canonical_loop [simp]:
  "list_all token_char (canonical_loop b s) \<longleftrightarrow> list_all token_char s"
  by (induction s arbitrary: b) (simp_all add: Let_def)

lemma canonical_key_idem [simp]: "canonical_key (canonical_key k) = canonical_key k"
  by (simp add: canonical_key_def)

section \<open>Header maps\<close>

type_synonym header = "(string \<times> string list) list"

definition header_values :: "header \<Rightarrow> string \<Rightarrow> string list" where
  "header_values h k = (case map_of h (canonical_key k) of None \<Rightarrow> [] | Some vs \<Rightarrow> vs)"

definition header_get :: "header \<Rightarrow> string \<Rightarrow> string" where
  "header_get h k = (case header_values h k of [] \<Rightarrow> [] | v # vs \<Rightarrow> v)"

definition header_set :: "string \<Rightarrow> string \<Rightarrow> header \<Rightarrow> header" where
  "header_set k v h = AList.update (canonical_key k) [v] h"

definition header_del :: "string \<Rightarrow> header \<Rightarrow> header" where
  "header_del k h = AList.delete (canonical_key k) h"

definition header_add :: "string \<Rightarrow> string \<Rightarrow> header \<Rightarrow> header" where
  "header_add k v h = AList.update (canonical_key k) (header_values h k @ [v]) h"

lemma header_values_set:
  "header_values (header_set k v h) k' =
     (if canonical_key k' = canonical_key k then [v] else header_values h k')"
  by (simp add: header_values_def header_set_def update_conv')

lemma header_values_del:
  "header_values (header_del k h) k' =
     (if canonical_key k' = canonical_key k then [] else header_values h k')"
  by (simp add: header_values_def header_del_def AList.delete_conv)

lemma header_values_add:
  "header_values (header_add k v h) k' =
     (if canonical_key k' = canonical_key k then header_values h k' @ [v] else header_values h k')"
  by (simp add: header_values_def header_add_def update_conv')

lemma header_get_set:
  "header_get (header_set k v h) k' =
     (if canonical_key k' = canonical_key k then v else header_get h k')"
  by (simp add: header_get_def header_values_set)

lemma header_get_del:
  "header_get (header_del k h) k' =
     (if canonical_key k' = canonical_key k then [] else header_get h k')"
  by (simp add: header_get_def header_values_del)

section \<open>Cookies\<close>

text \<open>\<open>textproto.TrimString\<close> removes spaces, tabs and line ends only.\<close>

definition ascii_ws :: "char \<Rightarrow> bool" where
  "ascii_ws c \<longleftrightarrow> c \<in> {CHR '' '', CHR 0x09, CHR 0x0A, CHR 0x0D}"

definition trim_ascii :: "string \<Rightarrow> string" where
  "trim_ascii s = rev (dropWhile ascii_ws (rev (dropWhile ascii_ws s)))"

definition cookie_byte :: "char \<Rightarrow> bool" where
  "cookie_byte c \<longleftrightarrow>
     0x20 \<le> (of_char c :: nat) \<and> (of_char c :: nat) < 0x7F \<and> c \<notin> {CHR 0x22, CHR '';'', CHR 0x5C}"

definition parse_cookie_value :: "string \<Rightarrow> string option" where
  "parse_cookie_value raw =
     (let v = (if 1 < length raw \<and> hd raw = CHR 0x22 \<and> last raw = CHR 0x22
               then butlast (tl raw) else raw)
      in if list_all cookie_byte v then Some v else None)"

text \<open>One entry of a \<open>Cookie\<close> header line.\<close>

definition parse_cookie_part :: "string \<Rightarrow> (string \<times> string) option" where
  "parse_cookie_part part0 =
     (let part = trim_ascii part0;
          name = trim_ascii (fst (str_cut (CHR ''='') part));
          val = fst (snd (str_cut (CHR ''='') part))
      in if part = [] \<or> \<not> is_token name then None
         else map_option (Pair name) (parse_cookie_value val))"

definition parse_cookie_line :: "string \<Rightarrow> (string \<times> string) list" where
  "parse_cookie_line line = List.map_filter parse_cookie_part (str_split (CHR '';'') (trim_ascii line))"

definition read_cookies :: "header \<Rightarrow> (string \<times> string) list" where
  "read_cookies h = concat (map parse_cookie_line (header_values h ''Cookie''))"

text \<open>\<open>Request.Cookie\<close>: the first cookie of the name; \<open>None\<close> is \<open>http.ErrNoCookie\<close>.\<close>

definition request_cookie :: "header \<Rightarrow> string \<Rightarrow> string option" where
  "request_cookie h name = (if name = [] then None else map_of (read_cookies h) name)"

datatype same_site = SameSiteDefault | SameSiteLax | SameSiteStrict | SameSiteNone

record cookie =
  ck_name :: string
  ck_value :: string
  ck_path :: string
  ck_domain :: string
  ck_expires :: "gotime option"
  ck_max_age :: int
  ck_http_only :: bool
  ck_secure :: bool
  ck_same_site :: same_site

section \<open>Requests and answers\<close>

record request =
  rq_method :: string
  rq_host :: string
  rq_url :: url
  rq_header :: header
  rq_trailer :: header
  rq_remote_addr :: string
  rq_body :: string

text \<open>
  What a handler does to its \<open>ResponseWriter\<close>: the status of the answer, the headers set, the
  cookies passed to \<open>http.SetCookie\<close> in order, the target given to \<open>http.Redirect\<close>, the body.
\<close>

record response =
  rs_status :: nat
  rs_header :: header
  rs_cookies :: "cookie list"
  rs_location :: "string option"
  rs_body :: string

definition new_response :: response where
  "new_response = \<lparr>rs_status = 200, rs_header = [], rs_cookies = [], rs_location = None, rs_body = []\<rparr>"

definition set_cookie :: "cookie \<Rightarrow> response \<Rightarrow> response" where
  "set_cookie c w = w\<lparr>rs_cookies := rs_cookies w @ [c]\<rparr>"

definition set_header :: "string \<Rightarrow> string \<Rightarrow> response \<Rightarrow> response" where
  "set_header k v w = w\<lparr>rs_header := header_set k v (rs_header w)\<rparr>"

definition redirect :: "string \<Rightarrow> nat \<Rightarrow> response \<Rightarrow> response" where
  "redirect target code w = w\<lparr>rs_status := code, rs_location := Some target\<rparr>"

text \<open>\<open>http.Error\<close>: two headers, the status and the message with a line end.\<close>

definition http_error :: "string \<Rightarrow> nat \<Rightarrow> response \<Rightarrow> response" where
  "http_error msg code w =
     (let w1 = w\<lparr>rs_header := header_del ''Content-Length'' (rs_header w)\<rparr>;
          w2 = set_header ''Content-Type'' ''text/plain; charset=utf-8'' w1;
          w3 = set_header ''X-Content-Type-Options'' ''nosniff'' w2
      in w3\<lparr>rs_status := code, rs_body := rs_body w3 @ msg @ [CHR 0x0A]\<rparr>)"

definition write_body :: "string \<Rightarrow> response \<Rightarrow> response" where
  "write_body b w = w\<lparr>rs_body := rs_body w @ b\<rparr>"

definition write_status :: "nat \<Rightarrow> response \<Rightarrow> response" where
  "write_status code w = w\<lparr>rs_status := code\<rparr>"

section \<open>net.SplitHostPort\<close>

definition net_split_host_port :: "string \<Rightarrow> (string \<times> string) option" where
  "net_split_host_port hp =
     (case last_cut (CHR '':'') hp of
        None \<Rightarrow> None
      | Some (before, port) \<Rightarrow>
          (if hd hp = CHR ''['' then
             (case str_cut (CHR '']'') hp of
                (inside, rest, found) \<Rightarrow>
                  if found \<and> rest = CHR '':'' # port \<and> CHR '':'' \<notin> set port
                     \<and> CHR ''['' \<notin> set (tl inside @ rest) \<and> CHR '']'' \<notin> set rest
                  then Some (tl inside, port) else None)
           else if CHR '':'' \<in> set before \<or> CHR ''['' \<in> set hp \<or> CHR '']'' \<in> set hp then None
           else Some (before, port)))"

end
