(* ===== verification/SessionStore.thy ===== *)
theory SessionStore
  imports Database GoCodec GoHttp
begin

text \<open>
  \<open>internal/session\<close>: the session store (\<open>store.go\<close>), the cookie helpers (\<open>cookie.go\<close>) and the
  sweeper (\<open>sweeper.go\<close>).

  The clock reading of a call, the random bytes it draws and the failures of the database are
  arguments.  \<open>Touch\<close> reads through the reader pool and then, in a transaction of its own,
  decides again; the two phases are separate definitions so that other operations can run in
  between.
\<close>

section \<open>Store\<close>

record session =
  se_id :: string
  se_user_id :: int
  se_created_at :: gotime
  se_last_seen_at :: gotime
  se_expires_at :: gotime
  se_user_agent :: string
  se_ip :: string

record session_opts =
  so_lifetime :: duration
  so_idle_timeout :: duration
  so_cookie_domain :: string

definition touch_throttle :: duration where
  "touch_throttle = seconds 60"

definition generate_session_id :: "string result \<Rightarrow> string result" where
  "generate_session_id rnd = random_id ''session: crypto/rand'' rnd"

definition session_create ::
    "session_opts \<Rightarrow> gotime \<Rightarrow> string result \<Rightarrow> tx_fault \<Rightarrow> int \<Rightarrow> string \<Rightarrow> string \<Rightarrow> db
       \<Rightarrow> session result \<times> db" where
  "session_create opts now rnd f user_id user_agent ip d =
     (case generate_session_id rnd of
        Inl e \<Rightarrow> (Inl e, d)
      | Inr sid \<Rightarrow>
          (let expires = now + so_idle_timeout opts;
               row = \<lparr>sr_id = sid, sr_user_id = user_id, sr_created_at = unix now,
                      sr_last_seen_at = unix now, sr_expires_at = unix expires,
                      sr_user_agent = Some user_agent, sr_ip = Some ip\<rparr>
           in case write_tx f (stmt (ft_stmt f 0) (insert_session row)) d of
                (Inl e, d') \<Rightarrow> (Inl (Wrap ''session: insert'' e), d')
              | (Inr _, d') \<Rightarrow>
                  (Inr \<lparr>se_id = sid, se_user_id = user_id, se_created_at = now,
                        se_last_seen_at = now, se_expires_at = expires,
                        se_user_agent = user_agent, se_ip = ip\<rparr>, d')))"

definition session_row_of :: "db \<Rightarrow> string \<Rightarrow> session_row option" where
  "session_row_of d sid = find (\<lambda>r. sr_id r = sid) (sessions d)"

abbreviation null_string :: "string option \<Rightarrow> string" where
  "null_string v \<equiv> (case v of None \<Rightarrow> [] | Some s \<Rightarrow> s)"

definition session_get ::
    "session_opts \<Rightarrow> gotime \<Rightarrow> err option \<Rightarrow> string \<Rightarrow> db \<Rightarrow> session result" where
  "session_get opts now fault sid d =
     (case fault of
        Some e \<Rightarrow> Inl (Wrap ''session: select'' e)
      | None \<Rightarrow>
     (case session_row_of d sid of
        None \<Rightarrow> Inl (Sentinel SessionNotFound)
      | Some r \<Rightarrow>
          (let expires = from_unix (sr_expires_at r)
           in if \<not> now < expires then Inl (Sentinel SessionExpired)
              else Inr \<lparr>se_id = sid, se_user_id = sr_user_id r,
                        se_created_at = from_unix (sr_created_at r),
                        se_last_seen_at = from_unix (sr_last_seen_at r),
                        se_expires_at = expires,
                        se_user_agent = null_string (sr_user_agent r),
                        se_ip = null_string (sr_ip r)\<rparr>)))"

text \<open>An \<open>UPDATE \<dots> WHERE id = ?\<close> on the sessions table.\<close>

definition update_session :: "string \<Rightarrow> int \<Rightarrow> int \<Rightarrow> db \<Rightarrow> unit result \<times> db" where
  "update_session sid last_seen expires d =
     (Inr (), d\<lparr>sessions := map (\<lambda>r. if sr_id r = sid
        then r\<lparr>sr_last_seen_at := last_seen, sr_expires_at := expires\<rparr> else r) (sessions d)\<rparr>)"

text \<open>The fast path of \<open>Touch\<close>: \<open>Inr True\<close> means that it goes on to the transaction.\<close>

definition touch_precheck :: "gotime \<Rightarrow> err option \<Rightarrow> string \<Rightarrow> db \<Rightarrow> bool result" where
  "touch_precheck now fault sid d =
     (case fault of
        Some e \<Rightarrow> Inl (Wrap ''session: touch pre-check'' e)
      | None \<Rightarrow>
     (case session_row_of d sid of
        None \<Rightarrow> Inr False
      | Some r \<Rightarrow> Inr (\<not> time_sub now (from_unix (sr_last_seen_at r)) < touch_throttle)))"

definition touch_body ::
    "session_opts \<Rightarrow> gotime \<Rightarrow> tx_fault \<Rightarrow> string \<Rightarrow> db \<Rightarrow> unit result \<times> db" where
  "touch_body opts now f sid d =
     (case ft_stmt f 0 of
        Some e \<Rightarrow> (Inl (Wrap ''session: touch select'' e), d)
      | None \<Rightarrow>
     (case session_row_of d sid of
        None \<Rightarrow> (Inr (), d)
      | Some r \<Rightarrow>
          (let expires = from_unix (sr_expires_at r)
           in if \<not> now < expires then (Inr (), d)
              else if time_sub now (from_unix (sr_last_seen_at r)) < touch_throttle then (Inr (), d)
              else
                (let absolute_cap = from_unix (sr_created_at r) + so_lifetime opts;
                     new_expires = now + so_idle_timeout opts;
                     new_expires = (if absolute_cap < new_expires then absolute_cap else new_expires)
                 in case stmt (ft_stmt f 1) (update_session sid (unix now) (unix new_expires)) d of
                      (Inl e, d') \<Rightarrow> (Inl (Wrap ''session: touch update'' e), d')
                    | (Inr _, d') \<Rightarrow> (Inr (), d')))))"

definition touch_tx ::
    "session_opts \<Rightarrow> gotime \<Rightarrow> tx_fault \<Rightarrow> string \<Rightarrow> db \<Rightarrow> unit result \<times> db" where
  "touch_tx opts now f sid d = write_tx f (touch_body opts now f sid) d"

text \<open>\<open>Touch\<close> with nothing in between the two phases.\<close>

definition session_touch ::
    "session_opts \<Rightarrow> gotime \<Rightarrow> err option \<Rightarrow> tx_fault \<Rightarrow> string \<Rightarrow> db \<Rightarrow> unit result \<times> db" where
  "session_touch opts now pre f sid d =
     (case touch_precheck now pre sid d of
        Inl e \<Rightarrow> (Inl e, d)
      | Inr False \<Rightarrow> (Inr (), d)
      | Inr True \<Rightarrow> touch_tx opts now f sid d)"

definition delete_sessions :: "(session_row \<Rightarrow> bool) \<Rightarrow> db \<Rightarrow> int result \<times> db" where
  "delete_sessions P d =
     (Inr (int (length (filter P (sessions d)))), d\<lparr>sessions := filter (\<lambda>r. \<not> P r) (sessions d)\<rparr>)"

definition session_delete :: "tx_fault \<Rightarrow> string \<Rightarrow> db \<Rightarrow> unit result \<times> db" where
  "session_delete f sid d =
     write_tx f (\<lambda>s. case stmt (ft_stmt f 0) (delete_sessions (\<lambda>r. sr_id r = sid)) s of
                       (Inl e, s') \<Rightarrow> (Inl (Wrap ''session: delete'' e), s')
                     | (Inr _, s') \<Rightarrow> (Inr (), s')) d"

definition session_delete_all_for_user :: "tx_fault \<Rightarrow> int \<Rightarrow> db \<Rightarrow> unit result \<times> db" where
  "session_delete_all_for_user f uid d =
     write_tx f (\<lambda>s. case stmt (ft_stmt f 0) (delete_sessions (\<lambda>r. sr_user_id r = uid)) s of
                       (Inl e, s') \<Rightarrow> (Inl (Wrap ''session: delete by user'' e), s')
                     | (Inr _, s') \<Rightarrow> (Inr (), s')) d"

text \<open>\<open>Sweep\<close>; the second statement fault is a failure of \<open>RowsAffected\<close>.\<close>

definition session_sweep :: "tx_fault \<Rightarrow> gotime \<Rightarrow> db \<Rightarrow> int result \<times> db" where
  "session_sweep f now d =
     write_tx f (\<lambda>s. case stmt (ft_stmt f 0) (delete_sessions (\<lambda>r. sr_expires_at r < unix now)) s of
                       (Inl e, s') \<Rightarrow> (Inl (Wrap ''session: sweep'' e), s')
                     | (Inr n, s') \<Rightarrow>
                         (case ft_stmt f 1 of
                            Some e \<Rightarrow> (Inl (Wrap ''session: sweep rows-affected'' e), s')
                          | None \<Rightarrow> (Inr n, s'))) d"

section \<open>Cookie\<close>

definition cookie_name :: string where
  "cookie_name = ''forge_session''"

definition session_set_cookie :: "string \<Rightarrow> gotime \<Rightarrow> string \<Rightarrow> response \<Rightarrow> response" where
  "session_set_cookie sid expires domain w =
     set_cookie \<lparr>ck_name = cookie_name, ck_value = sid, ck_path = ''/'', ck_domain = domain,
                 ck_expires = Some expires, ck_max_age = 0, ck_http_only = True, ck_secure = True,
                 ck_same_site = SameSiteLax\<rparr> w"

definition session_clear_cookie :: "string \<Rightarrow> response \<Rightarrow> response" where
  "session_clear_cookie domain w =
     set_cookie \<lparr>ck_name = cookie_name, ck_value = [], ck_path = ''/'', ck_domain = domain,
                 ck_expires = None, ck_max_age = - 1, ck_http_only = True, ck_secure = True,
                 ck_same_site = SameSiteLax\<rparr> w"

definition session_read :: "request \<Rightarrow> string option" where
  "session_read r =
     (case request_cookie (rq_header r) cookie_name of
        None \<Rightarrow> None
      | Some v \<Rightarrow> if v = [] then None else Some v)"

section \<open>Sweeper\<close>

text \<open>
  \<open>Sweep\<close> of the store behind the \<open>SweepStore\<close> interface is an argument.  A cancelled context
  and any other error differ in what is logged only.
\<close>

record sweeper =
  sw_last_success :: gotime

definition default_sweep_interval :: duration where
  "default_sweep_interval = seconds 3600"

definition new_sweeper :: sweeper where
  "new_sweeper = \<lparr>sw_last_success = zero_time\<rparr>"

definition sweeper_tick ::
    "('f \<Rightarrow> gotime \<Rightarrow> 's \<Rightarrow> int result \<times> 's) \<Rightarrow> 'f \<Rightarrow> gotime \<Rightarrow> sweeper \<times> 's \<Rightarrow> sweeper \<times> 's" where
  "sweeper_tick sweep f now = (\<lambda>(sw, st).
     (case sweep f now st of
        (Inl e, st') \<Rightarrow> (sw, st')
      | (Inr n, st') \<Rightarrow> (sw\<lparr>sw_last_success := now\<rparr>, st')))"

text \<open>
  What \<open>Run\<close>'s \<open>select\<close> sees: ticks of the timer, each with the clock reading and the failures
  of its sweep, and the cancellation.  \<open>Run\<close> sweeps once before the loop and returns at the
  first cancellation.
\<close>

datatype 'f sweep_event = TimerTick 'f gotime | CtxDone

fun sweeper_loop ::
    "('f \<Rightarrow> gotime \<Rightarrow> 's \<Rightarrow> int result \<times> 's) \<Rightarrow> 'f sweep_event list \<Rightarrow> sweeper \<times> 's
       \<Rightarrow> bool \<times> sweeper \<times> 's" where
  "sweeper_loop sweep [] s = (False, s)"
| "sweeper_loop sweep (CtxDone # es) s = (True, s)"
| "sweeper_loop sweep (TimerTick f now # es) s = sweeper_loop sweep es (sweeper_tick sweep f now s)"

definition sweeper_interval :: "duration \<Rightarrow> duration" where
  "sweeper_interval interval = (if interval \<le> 0 then default_sweep_interval else interval)"

definition sweeper_run ::
    "('f \<Rightarrow> gotime \<Rightarrow> 's \<Rightarrow> int result \<times> 's) \<Rightarrow> 'f \<Rightarrow> gotime \<Rightarrow> 'f sweep_event list
       \<Rightarrow> sweeper \<times> 's \<Rightarrow> bool \<times> sweeper \<times> 's" where
  "sweeper_run sweep f now es s = sweeper_loop sweep es (sweeper_tick sweep f now s)"

section \<open>What the store promises: a finite map\<close>

text \<open>
  Seen from outside, the table is a map from ids to rows.  \<open>session_exec\<close> runs one operation of
  the store and tells whether it succeeded; \<open>session_spec\<close> says what a successful operation
  does to the map.  \<open>STouch\<close> is the writing phase of \<open>Touch\<close>: its decision to write does not
  depend on the pre-check, so the pre-check may have read any older state.
\<close>

type_synonym session_map = "string \<Rightarrow> session_row option"

definition session_abs :: "db \<Rightarrow> session_map" where
  "session_abs d = index_by sr_id (sessions d)"

datatype session_op =
    SCreate gotime "string result" tx_fault int string string
  | STouch gotime tx_fault string
  | SDelete tx_fault string
  | SDeleteAll tx_fault int
  | SSweep tx_fault gotime

fun session_exec :: "session_op \<Rightarrow> session_opts \<Rightarrow> db \<Rightarrow> bool \<times> db" where
  "session_exec (SCreate now rnd f uid ua ip) opts d =
     (let (r, d') = session_create opts now rnd f uid ua ip d in (\<not> isl r, d'))"
| "session_exec (STouch now f sid) opts d =
     (let (r, d') = touch_tx opts now f sid d in (\<not> isl r, d'))"
| "session_exec (SDelete f sid) opts d = (let (r, d') = session_delete f sid d in (\<not> isl r, d'))"
| "session_exec (SDeleteAll f uid) opts d =
     (let (r, d') = session_delete_all_for_user f uid d in (\<not> isl r, d'))"
| "session_exec (SSweep f now) opts d = (let (r, d') = session_sweep f now d in (\<not> isl r, d'))"

definition renewed :: "session_opts \<Rightarrow> gotime \<Rightarrow> session_row \<Rightarrow> session_row" where
  "renewed opts now r =
     r\<lparr>sr_last_seen_at := unix now,
       sr_expires_at := unix (min (now + so_idle_timeout opts)
                                  (from_unix (sr_created_at r) + so_lifetime opts))\<rparr>"

definition renewable :: "gotime \<Rightarrow> session_row \<Rightarrow> bool" where
  "renewable now r \<longleftrightarrow>
     now < from_unix (sr_expires_at r) \<and> seconds 60 \<le> now - from_unix (sr_last_seen_at r)"

fun session_spec :: "session_op \<Rightarrow> session_opts \<Rightarrow> session_map \<Rightarrow> session_map" where
  "session_spec (SCreate now rnd f uid ua ip) opts m =
     (case rnd of
        Inl e \<Rightarrow> m
      | Inr bytes \<Rightarrow>
          m(b64_encode bytes \<mapsto>
              \<lparr>sr_id = b64_encode bytes, sr_user_id = uid, sr_created_at = unix now,
               sr_last_seen_at = unix now, sr_expires_at = unix (now + so_idle_timeout opts),
               sr_user_agent = Some ua, sr_ip = Some ip\<rparr>))"
| "session_spec (STouch now f sid) opts m =
     (case m sid of
        Some r \<Rightarrow> if renewable now r then m(sid \<mapsto> renewed opts now r) else m
      | None \<Rightarrow> m)"
| "session_spec (SDelete f sid) opts m = m(sid := None)"
| "session_spec (SDeleteAll f uid) opts m = keep_rows (\<lambda>r. sr_user_id r \<noteq> uid) m"
| "session_spec (SSweep f now) opts m = keep_rows (\<lambda>r. unix now \<le> sr_expires_at r) m"

lemma session_row_of_abs: "session_row_of d sid = session_abs d sid"
  by (simp add: session_row_of_def session_abs_def find_index_by)

lemma session_abs_id: "session_abs d sid = Some r \<Longrightarrow> sr_id r = sid"
  by (auto simp: session_abs_def dest: index_by_Some)

lemma throttle_iff: "time_sub now t < touch_throttle \<longleftrightarrow> \<not> seconds 60 \<le> now - t"
  using time_sub_less [of "seconds 60" now t] by (simp add: touch_throttle_def seconds_def not_le)

lemma session_get_abs:
  "session_get opts now None sid d =
     (case session_abs d sid of
        None \<Rightarrow> Inl (Sentinel SessionNotFound)
      | Some r \<Rightarrow>
          if from_unix (sr_expires_at r) \<le> now then Inl (Sentinel SessionExpired)
          else Inr \<lparr>se_id = sid, se_user_id = sr_user_id r,
                    se_created_at = from_unix (sr_created_at r),
                    se_last_seen_at = from_unix (sr_last_seen_at r),
                    se_expires_at = from_unix (sr_expires_at r),
                    se_user_agent = null_string (sr_user_agent r),
                    se_ip = null_string (sr_ip r)\<rparr>)"
  by (simp add: session_get_def session_row_of_abs Let_def not_less split: option.splits)

lemma session_get_Inr:
  "session_get opts now fault sid d = Inr s \<Longrightarrow>
     (\<exists>r. session_abs d sid = Some r \<and> now < from_unix (sr_expires_at r)
        \<and> se_id s = sid \<and> se_user_id s = sr_user_id r)"
  by (auto simp: session_get_def session_row_of_abs Let_def split: option.splits if_splits)

text \<open>The transactions in one equation each: what a successful one did to the rows.\<close>

lemma session_create_cases:
  assumes "session_create opts now rnd f uid ua ip d = (r, d')"
  shows "(isl r \<and> d' = d) \<or>
         (\<exists>bytes row. rnd = Inr bytes \<and> sr_id row = b64_encode bytes
            \<and> sr_id row \<notin> sr_id ` set (sessions d) \<and> user_exists d uid
            \<and> d' = d\<lparr>sessions := sessions d @ [row]\<rparr>
            \<and> row = \<lparr>sr_id = b64_encode bytes, sr_user_id = uid, sr_created_at = unix now,
                     sr_last_seen_at = unix now, sr_expires_at = unix (now + so_idle_timeout opts),
                     sr_user_agent = Some ua, sr_ip = Some ip\<rparr>
            \<and> r = Inr \<lparr>se_id = b64_encode bytes, se_user_id = uid, se_created_at = now,
                       se_last_seen_at = now, se_expires_at = now + so_idle_timeout opts,
                       se_user_agent = ua, se_ip = ip\<rparr>)"
  using assms
  by (auto simp: session_create_def generate_session_id_def random_id_def Let_def insert_session_def
           stmt_def split: sum.splits prod.splits option.splits if_splits
           dest!: write_tx_Inr write_tx_Inl)

lemma touch_tx_cases:
  assumes "touch_tx opts now f sid d = (r, d')"
  shows "(isl r \<and> d' = d) \<or>
         (r = Inr () \<and>
          (case session_abs d sid of
             Some row \<Rightarrow>
               if renewable now row
               then d' = d\<lparr>sessions := map (\<lambda>x. if sr_id x = sid
                                 then x\<lparr>sr_last_seen_at := sr_last_seen_at (renewed opts now row),
                                        sr_expires_at := sr_expires_at (renewed opts now row)\<rparr>
                                 else x) (sessions d)\<rparr>
               else d' = d
           | None \<Rightarrow> d' = d))"
proof (cases r)
  case (Inl e)
  with assms show ?thesis by (auto simp: touch_tx_def dest: write_tx_Inl)
next
  case (Inr u)
  with assms have "touch_body opts now f sid d = (Inr u, d')"
    by (auto simp: touch_tx_def dest: write_tx_Inr)
  then show ?thesis using Inr
    by (auto simp: touch_body_def session_row_of_abs Let_def stmt_def update_session_def throttle_iff
             renewable_def renewed_def min_def not_less not_le
             split: option.splits if_splits)
qed

lemma session_delete_cases:
  "session_delete f sid d = (r, d') \<Longrightarrow>
     (isl r \<and> d' = d) \<or>
     (r = Inr () \<and> d' = d\<lparr>sessions := filter (\<lambda>r. sr_id r \<noteq> sid) (sessions d)\<rparr>)"
  by (cases r) (auto simp: session_delete_def stmt_def delete_sessions_def
        split: option.splits dest!: write_tx_Inr write_tx_Inl)

lemma session_delete_all_cases:
  "session_delete_all_for_user f uid d = (r, d') \<Longrightarrow>
     (isl r \<and> d' = d) \<or>
     (r = Inr () \<and> d' = d\<lparr>sessions := filter (\<lambda>r. sr_user_id r \<noteq> uid) (sessions d)\<rparr>)"
  by (cases r) (auto simp: session_delete_all_for_user_def stmt_def delete_sessions_def
        split: option.splits dest!: write_tx_Inr write_tx_Inl)

lemma session_sweep_cases:
  "session_sweep f now d = (r, d') \<Longrightarrow>
     (isl r \<and> d' = d) \<or>
     (\<not> isl r \<and> d' = d\<lparr>sessions := filter (\<lambda>r. unix now \<le> sr_expires_at r) (sessions d)\<rparr>)"
  by (cases r) (auto simp: session_sweep_def stmt_def delete_sessions_def not_less
        split: option.splits dest!: write_tx_Inr write_tx_Inl)

lemmas session_cases =
  session_create_cases touch_tx_cases session_delete_cases session_delete_all_cases
  session_sweep_cases

lemma session_abs_update:
  "session_abs (d\<lparr>sessions := map (\<lambda>x. if sr_id x = sid
       then x\<lparr>sr_last_seen_at := a, sr_expires_at := b\<rparr> else x) (sessions d)\<rparr>) =
     (session_abs d)(sid := map_option (\<lambda>x. x\<lparr>sr_last_seen_at := a, sr_expires_at := b\<rparr>)
                              (session_abs d sid))"
  by (simp add: session_abs_def index_by_update)

lemma renewed_eq:
  "x\<lparr>sr_last_seen_at := sr_last_seen_at (renewed opts now x),
     sr_expires_at := sr_expires_at (renewed opts now x)\<rparr> = renewed opts now x"
  by (simp add: renewed_def)

lemma session_create_abs:
  "session_exec (SCreate now rnd f uid ua ip) opts d = (ok, d') \<Longrightarrow>
     session_abs d' = (if ok then session_spec (SCreate now rnd f uid ua ip) opts (session_abs d)
                       else session_abs d)"
  by (auto simp: session_abs_def index_by_append split: prod.splits dest!: session_create_cases)

lemma session_touch_abs:
  assumes "session_exec (STouch now f sid) opts d = (ok, d')"
  shows "session_abs d' = (if ok then session_spec (STouch now f sid) opts (session_abs d)
                           else session_abs d)"
proof -
  obtain r where r: "touch_tx opts now f sid d = (r, d')" "ok = (\<not> isl r)"
    using assms by (auto split: prod.splits)
  from touch_tx_cases [OF r(1)] r(2) show ?thesis
    by (auto simp: session_abs_update renewed_eq split: option.splits if_splits)
qed

lemma session_delete_abs:
  "session_exec (SDelete f sid) opts d = (ok, d') \<Longrightarrow>
     session_abs d' = (if ok then session_spec (SDelete f sid) opts (session_abs d)
                       else session_abs d)"
  by (auto simp: session_abs_def index_by_remove split: prod.splits dest!: session_delete_cases)

lemma db_wf_sessions_distinct: "db_wf d \<Longrightarrow> distinct (map sr_id (sessions d))"
  by (simp add: db_wf_def)

lemma session_delete_all_abs:
  "db_wf d \<Longrightarrow> session_exec (SDeleteAll f uid) opts d = (ok, d') \<Longrightarrow>
     session_abs d' = (if ok then session_spec (SDeleteAll f uid) opts (session_abs d)
                       else session_abs d)"
  by (auto simp: session_abs_def index_by_filter db_wf_sessions_distinct split: prod.splits
      dest!: session_delete_all_cases)

lemma session_sweep_abs:
  "db_wf d \<Longrightarrow> session_exec (SSweep f now) opts d = (ok, d') \<Longrightarrow>
     session_abs d' = (if ok then session_spec (SSweep f now) opts (session_abs d)
                       else session_abs d)"
  by (auto simp: session_abs_def index_by_filter db_wf_sessions_distinct split: prod.splits
      dest!: session_sweep_cases)

lemma session_exec_abs:
  "db_wf d \<Longrightarrow> session_exec op opts d = (ok, d') \<Longrightarrow>
     session_abs d' = (if ok then session_spec op opts (session_abs d) else session_abs d)"
  by (cases op) (simp_all only: session_create_abs session_touch_abs session_delete_abs
                   session_delete_all_abs session_sweep_abs)

section \<open>Constraints and frame\<close>

lemma db_wf_filter_sessions: "db_wf d \<Longrightarrow> db_wf (d\<lparr>sessions := filter P (sessions d)\<rparr>)"
  by (auto simp: db_wf_def user_exists_def distinct_map_filter)

lemma db_wf_update_session:
  "db_wf d \<Longrightarrow> db_wf (d\<lparr>sessions := map (\<lambda>x. if sr_id x = sid
       then x\<lparr>sr_last_seen_at := a, sr_expires_at := b\<rparr> else x) (sessions d)\<rparr>)"
  by (auto simp: db_wf_def user_exists_def distinct_map_update simp del: map_map)

lemma db_wf_append_session:
  "db_wf d \<Longrightarrow> sr_id r \<notin> sr_id ` set (sessions d) \<Longrightarrow> user_exists d (sr_user_id r) \<Longrightarrow>
     db_wf (d\<lparr>sessions := sessions d @ [r]\<rparr>)"
  by (auto simp: db_wf_def user_exists_def)

lemma session_exec_cases:
  assumes "session_exec op opts d = (ok, d')"
  shows "(\<exists>P. d' = d\<lparr>sessions := filter P (sessions d)\<rparr>) \<or> d' = d \<or>
         (\<exists>sid a b. d' = d\<lparr>sessions := map (\<lambda>x. if sr_id x = sid
             then x\<lparr>sr_last_seen_at := a, sr_expires_at := b\<rparr> else x) (sessions d)\<rparr>) \<or>
         (\<exists>r. d' = d\<lparr>sessions := sessions d @ [r]\<rparr> \<and> sr_id r \<notin> sr_id ` set (sessions d)
            \<and> user_exists d (sr_user_id r))"
proof (cases op)
  case (SCreate now rnd f uid ua ip)
  with assms show ?thesis by (auto split: prod.splits dest!: session_create_cases)
next
  case (STouch now f sid)
  with assms obtain r where "touch_tx opts now f sid d = (r, d')" by (auto split: prod.splits)
  from touch_tx_cases [OF this] show ?thesis by (auto split: option.splits if_splits)
next
  case (SDelete f sid)
  with assms show ?thesis by (auto split: prod.splits dest!: session_delete_cases)
next
  case (SDeleteAll f uid)
  with assms show ?thesis by (auto split: prod.splits dest!: session_delete_all_cases)
next
  case (SSweep f now)
  with assms show ?thesis by (auto split: prod.splits dest!: session_sweep_cases)
qed

lemma session_exec_wf: "db_wf d \<Longrightarrow> db_wf (snd (session_exec op opts d))"
  using session_exec_cases [of op opts d "fst (session_exec op opts d)" "snd (session_exec op opts d)"]
  by (auto simp: db_wf_filter_sessions db_wf_update_session db_wf_append_session)

lemma session_exec_frame [frame]:
  "session_exec op opts d = (ok, d') \<Longrightarrow>
     users d' = users d \<and> users_seq d' = users_seq d \<and> ssh_keys d' = ssh_keys d
       \<and> ssh_keys_seq d' = ssh_keys_seq d"
  by (drule session_exec_cases) auto

section \<open>Runs\<close>

text \<open>A sequence of operations, in the order their transactions commit or fail.\<close>

fun session_run :: "session_opts \<Rightarrow> session_op list \<Rightarrow> db \<Rightarrow> db" where
  "session_run opts [] d = d"
| "session_run opts (op # ops) d = session_run opts ops (snd (session_exec op opts d))"

fun op_clock :: "session_op \<Rightarrow> gotime option" where
  "op_clock (SCreate now rnd f uid ua ip) = Some now"
| "op_clock (STouch now f sid) = Some now"
| "op_clock (SDelete f sid) = None"
| "op_clock (SDeleteAll f uid) = None"
| "op_clock (SSweep f now) = Some now"

fun op_mints :: "string \<Rightarrow> session_op \<Rightarrow> bool" where
  "op_mints sid (SCreate now rnd f uid ua ip) = (\<exists>b. rnd = Inr b \<and> sid = b64_encode b)"
| "op_mints sid op = False"

text \<open>The rule for invariants of the table: what every successful operation keeps, every run keeps.\<close>

lemma session_run_invariant:
  assumes "db_wf d" and "Q (session_abs d)"
    and step: "\<And>op m. op \<in> set ops \<Longrightarrow> Q m \<Longrightarrow> (\<And>x r. m x = Some r \<Longrightarrow> sr_id r = x)
                 \<Longrightarrow> Q (session_spec op opts m)"
  shows "Q (session_abs (session_run opts ops d))"
  using assms
proof (induction ops arbitrary: d)
  case (Cons op ops)
  obtain ok d' where e: "session_exec op opts d = (ok, d')" by (cases "session_exec op opts d")
  have "Q (session_spec op opts (session_abs d))"
    by (rule Cons.prems(3)) (auto simp: Cons.prems session_abs_id)
  then have "Q (session_abs d')"
    using session_exec_abs [OF Cons.prems(1) e] Cons.prems(2) by auto
  moreover have "db_wf d'"
    using session_exec_wf [OF Cons.prems(1), of op opts] e by simp
  ultimately show ?case using Cons e by auto
qed simp

lemma session_run_wf: "db_wf d \<Longrightarrow> db_wf (session_run opts ops d)"
  by (induction ops arbitrary: d) (auto simp: session_exec_wf)

definition within_cap :: "session_opts \<Rightarrow> session_map \<Rightarrow> bool" where
  "within_cap opts m \<longleftrightarrow>
     (\<forall>x r. m x = Some r \<longrightarrow>
        from_unix (sr_expires_at r) < from_unix (sr_created_at r) + so_lifetime opts + nanos_per_sec)"

lemma within_cap_created:
  assumes "so_idle_timeout opts \<le> so_lifetime opts"
  shows "from_unix (unix (now + so_idle_timeout opts))
           < from_unix (unix now) + so_lifetime opts + nanos_per_sec"
  using assms from_unix_unix_le [of "now + so_idle_timeout opts"] less_from_unix_unix [of now]
  by linarith

lemma within_cap_renewed:
  "from_unix (sr_expires_at (renewed opts now r))
     < from_unix (sr_created_at (renewed opts now r)) + so_lifetime opts + nanos_per_sec"
  using from_unix_unix_le [of "min (now + so_idle_timeout opts)
                                   (from_unix (sr_created_at r) + so_lifetime opts)"]
  by (simp add: renewed_def)

lemma within_cap_step:
  "so_idle_timeout opts \<le> so_lifetime opts \<Longrightarrow> within_cap opts m \<Longrightarrow>
     within_cap opts (session_spec op opts m)"
  by (cases op)
    (auto simp: within_cap_def keep_rows_Some within_cap_created within_cap_renewed
          split: sum.splits option.splits if_splits)

lemma within_cap_run:
  "db_wf d \<Longrightarrow> so_idle_timeout opts \<le> so_lifetime opts \<Longrightarrow> within_cap opts (session_abs d) \<Longrightarrow>
     within_cap opts (session_abs (session_run opts ops d))"
  by (rule session_run_invariant) (auto simp: within_cap_step)

text \<open>An id is dead at an instant when it has no row, or its row has expired by then.\<close>

definition dead :: "gotime \<Rightarrow> string \<Rightarrow> session_map \<Rightarrow> bool" where
  "dead t sid m \<longleftrightarrow> (\<forall>r. m sid = Some r \<longrightarrow> from_unix (sr_expires_at r) \<le> t)"

lemma dead_get:
  "(\<exists>e. session_get opts t None sid d = Inl e) \<longleftrightarrow> dead t sid (session_abs d)"
  by (auto simp: session_get_abs dead_def split: option.splits)

lemma dead_mono: "dead t sid m \<Longrightarrow> t \<le> u \<Longrightarrow> dead u sid m"
  by (fastforce simp: dead_def)

lemma dead_step:
  assumes "dead t sid m" and "\<not> op_mints sid op" and "\<forall>u. op_clock op = Some u \<longrightarrow> t \<le> u"
  shows "dead t sid (session_spec op opts m)"
  using assms by (cases op) (auto simp: dead_def keep_rows_Some renewable_def
      split: sum.splits option.splits if_splits)

lemma dead_run:
  assumes "db_wf d" and "dead t sid (session_abs d)"
    and "\<And>op. op \<in> set ops \<Longrightarrow> \<not> op_mints sid op"
    and "\<And>op u. op \<in> set ops \<Longrightarrow> op_clock op = Some u \<Longrightarrow> t \<le> u"
  shows "dead t sid (session_abs (session_run opts ops d))"
  by (rule session_run_invariant) (auto simp: assms intro!: dead_step)

text \<open>How often the touches of a run write the row of a session.\<close>

fun session_writes :: "session_opts \<Rightarrow> string \<Rightarrow> session_op list \<Rightarrow> db \<Rightarrow> nat" where
  "session_writes opts sid [] d = 0"
| "session_writes opts sid (op # ops) d =
     (let d' = snd (session_exec op opts d)
      in (if (\<exists>now f. op = STouch now f sid) \<and> session_abs d' sid \<noteq> session_abs d sid then 1 else 0)
           + session_writes opts sid ops d')"

lemma writes_absent:
  assumes "db_wf d" and "session_abs d sid = None" and "\<And>op. op \<in> set ops \<Longrightarrow> \<not> op_mints sid op"
  shows "session_writes opts sid ops d = 0"
  using assms
proof (induction ops arbitrary: d)
  case (Cons op ops)
  obtain ok d' where e: "session_exec op opts d = (ok, d')" by (cases "session_exec op opts d")
  have "session_abs d' sid = None"
    using session_exec_abs [OF Cons.prems(1) e] Cons.prems(2) Cons.prems(3) [of op]
    by (cases op) (auto simp: keep_rows_def split: if_splits sum.splits option.splits)
  moreover have "db_wf d'"
    using session_exec_wf [OF Cons.prems(1), of op opts] e by simp
  ultimately show ?case using Cons e by (auto simp: Let_def)
qed simp

lemma write_advances:
  assumes "session_spec (STouch now f sid) opts m sid = Some r'" and "m sid = Some r"
  shows "r' = r \<or> (sr_last_seen_at r + 60 \<le> sr_last_seen_at r' \<and> sr_last_seen_at r' = unix now)"
proof (cases "renewable now r")
  case True
  then have "from_unix (sr_last_seen_at r + 60) \<le> now"
    by (simp add: renewable_def from_unix_def seconds_def algebra_simps)
  then have "sr_last_seen_at r + 60 \<le> unix now"
    by (simp only: from_unix_le_iff)
  with True assms show ?thesis by (auto simp: renewed_def)
qed (use assms in simp)

lemma spec_keeps_last_seen:
  assumes "session_spec op opts m sid = Some r'" and "m sid = Some r" and "\<not> op_mints sid op"
    and "\<And>now f. op \<noteq> STouch now f sid"
  shows "sr_last_seen_at r' = sr_last_seen_at r"
  using assms by (cases op) (auto simp: keep_rows_Some split: sum.splits option.splits if_splits)

lemma writes_bound:
  assumes "db_wf d" and "session_abs d sid = Some r"
    and "\<And>op. op \<in> set ops \<Longrightarrow> \<not> op_mints sid op"
    and "\<And>now f. STouch now f sid \<in> set ops \<Longrightarrow> now \<le> T"
  shows "60 * int (session_writes opts sid ops d) \<le> max 0 (unix T - sr_last_seen_at r)"
  using assms
proof (induction ops arbitrary: d r)
  case (Cons op ops)
  obtain ok d' where e: "session_exec op opts d = (ok, d')" by (cases "session_exec op opts d")
  note abs = session_exec_abs [OF Cons.prems(1) e]
  have wf: "db_wf d'" using session_exec_wf [OF Cons.prems(1), of op opts] e by simp
  show ?case
  proof (cases "session_abs d' sid")
    case None
    have nt: "\<not> ((\<exists>now f. op = STouch now f sid) \<and> session_abs d' sid \<noteq> session_abs d sid)"
      using None abs Cons.prems(2) by (auto split: if_splits)
    have "session_writes opts sid ops d' = 0"
      using writes_absent [OF wf None] Cons.prems(3) by simp
    then show ?thesis using e nt by (simp only: session_writes.simps Let_def snd_conv if_False) simp
  next
    case (Some r')
    have IH: "60 * int (session_writes opts sid ops d') \<le> max 0 (unix T - sr_last_seen_at r')"
    proof (rule Cons.IH [OF wf Some])
      show "\<not> op_mints sid op'" if "op' \<in> set ops" for op' using Cons.prems(3) that by simp
      show "now \<le> T" if "STouch now f sid \<in> set ops" for now f
        using Cons.prems(4) [of now f] that by simp
    qed
    show ?thesis
    proof (cases "(\<exists>now f. op = STouch now f sid) \<and> session_abs d' sid \<noteq> session_abs d sid")
      case True
      then obtain now f where op: "op = STouch now f sid" by blast
      from True abs have "session_abs d' = session_spec op opts (session_abs d)"
        by (auto split: if_splits)
      with op Some Cons.prems(2) True
      have adv: "sr_last_seen_at r + 60 \<le> sr_last_seen_at r' \<and> sr_last_seen_at r' = unix now"
        using write_advances [of now f sid opts "session_abs d" r' r] by metis
      moreover have "unix now \<le> unix T"
        using Cons.prems(4) [of now f] op by (simp add: unix_mono)
      ultimately show ?thesis using IH e True by (simp add: Let_def)
    next
      case False
      then have "sr_last_seen_at r' = sr_last_seen_at r"
        using abs Some Cons.prems(2) Cons.prems(3) [of op]
          spec_keeps_last_seen [of op opts "session_abs d" sid r' r]
        by (cases "\<exists>now f. op = STouch now f sid") (auto split: if_splits)
      then show ?thesis using IH e False
        by (simp only: session_writes.simps Let_def snd_conv if_False) simp
    qed
  qed
qed simp

section \<open>The SweepStore interface\<close>

text \<open>
  What the sweeper relies on: a failed sweep changes nothing, a successful one leaves no row
  expired before its clock reading, and no sweep takes a live row away.
\<close>

locale sweep_store =
  fixes sweep :: "'f \<Rightarrow> gotime \<Rightarrow> 's \<Rightarrow> int result \<times> 's"
    and expired :: "gotime \<Rightarrow> 's \<Rightarrow> 'k set"
    and live :: "gotime \<Rightarrow> 's \<Rightarrow> 'l set"
    and wf :: "'s \<Rightarrow> bool"
  assumes sweep_failed: "sweep f t s = (Inl e, s') \<Longrightarrow> s' = s"
    and sweep_done: "wf s \<Longrightarrow> sweep f t s = (Inr n, s') \<Longrightarrow> expired t s' = {}"
    and sweep_live: "wf s \<Longrightarrow> u \<le> t \<Longrightarrow> live t (snd (sweep f u s)) = live t s"
    and sweep_wf: "wf s \<Longrightarrow> wf (snd (sweep f t s))"
begin

text \<open>The last success the sweeper reports is one after which nothing expired by then is left.\<close>

definition clean :: "gotime \<Rightarrow> sweeper \<times> 's \<Rightarrow> bool" where
  "clean t0 p \<longleftrightarrow> sw_last_success (fst p) = t0 \<or> expired (sw_last_success (fst p)) (snd p) = {}"

lemma tick_wf: "wf (snd p) \<Longrightarrow> wf (snd (sweeper_tick sweep f now p))"
  using sweep_wf [of "snd p" f now]
  by (cases p) (auto simp: sweeper_tick_def split: prod.splits sum.splits)

lemma tick_clean:
  assumes "wf (snd p)" and "clean t0 p"
  shows "clean t0 (sweeper_tick sweep f now p)"
proof (cases "sweep f now (snd p)")
  case (Pair r st)
  show ?thesis
  proof (cases r)
    case (Inl e)
    with Pair have "st = snd p" using sweep_failed by blast
    with Inl Pair assms(2) show ?thesis by (simp add: sweeper_tick_def clean_def split_beta)
  next
    case (Inr n)
    with Pair have "expired now st = {}" using sweep_done [OF assms(1)] by blast
    with Inr Pair show ?thesis by (simp add: sweeper_tick_def clean_def split_beta)
  qed
qed

lemma tick_state: "snd (sweeper_tick sweep f now p) = snd (sweep f now (snd p))"
  by (cases p; cases "sweep f now (snd p)"; cases "fst (sweep f now (snd p))")
     (simp_all add: sweeper_tick_def)

lemma tick_live:
  "wf (snd p) \<Longrightarrow> now \<le> t \<Longrightarrow> live t (snd (sweeper_tick sweep f now p)) = live t (snd p)"
  by (simp add: tick_state sweep_live)

lemma loop_clean:
  "wf (snd p) \<Longrightarrow> clean t0 p \<Longrightarrow> clean t0 (snd (sweeper_loop sweep es p))"
proof (induction es arbitrary: p)
  case (Cons e es)
  then show ?case by (cases e) (simp_all add: tick_wf tick_clean)
qed simp

lemma loop_live:
  "wf (snd p) \<Longrightarrow> (\<And>f now. TimerTick f now \<in> set es \<Longrightarrow> now \<le> t) \<Longrightarrow>
     live t (snd (snd (sweeper_loop sweep es p))) = live t (snd p)"
proof (induction es arbitrary: p)
  case (Cons e es)
  then show ?case
  proof (cases e)
    case (TimerTick f now)
    with Cons.prems have "now \<le> t" and "\<And>f now. TimerTick f now \<in> set es \<Longrightarrow> now \<le> t" by auto
    with TimerTick Cons show ?thesis by (simp add: tick_wf tick_live)
  qed simp
qed simp

lemma run_clean:
  "wf (snd p) \<Longrightarrow> clean (sw_last_success (fst p)) (snd (sweeper_run sweep f now es p))"
  unfolding sweeper_run_def
  by (intro loop_clean tick_wf tick_clean) (simp_all add: clean_def)

lemma run_live:
  "wf (snd p) \<Longrightarrow> now \<le> t \<Longrightarrow> (\<And>f u. TimerTick f u \<in> set es \<Longrightarrow> u \<le> t) \<Longrightarrow>
     live t (snd (snd (sweeper_run sweep f now es p))) = live t (snd p)"
  by (simp add: sweeper_run_def loop_live tick_wf tick_live)

end

lemma loop_returns_iff: "fst (sweeper_loop sweep es p) \<longleftrightarrow> CtxDone \<in> set es"
  by (induction sweep es p rule: sweeper_loop.induct) auto

definition expired_ids :: "gotime \<Rightarrow> db \<Rightarrow> string set" where
  "expired_ids t d = {x. \<exists>r. session_abs d x = Some r \<and> sr_expires_at r < unix t}"

definition live_sessions :: "gotime \<Rightarrow> db \<Rightarrow> (string \<times> session_row) set" where
  "live_sessions t d = {(x, r). session_abs d x = Some r \<and> t < from_unix (sr_expires_at r)}"

lemma sweep_abs:
  "db_wf d \<Longrightarrow> session_sweep f now d = (r, d') \<Longrightarrow>
     session_abs d' = (if isl r then session_abs d
                       else keep_rows (\<lambda>r. unix now \<le> sr_expires_at r) (session_abs d))"
  using session_sweep_abs [of d f now undefined "\<not> isl r" d'] by simp

lemma live_not_expired: "t < from_unix e \<Longrightarrow> u \<le> t \<Longrightarrow> unix u \<le> e"
  using unix_mono [of u t] unix_less_iff [of t e] by linarith

interpretation ss: sweep_store session_sweep expired_ids live_sessions db_wf
proof
  show "s' = s" if "session_sweep f t s = (Inl e, s')" for f t s e s'
    using session_sweep_cases [OF that] by simp
  show "expired_ids t s' = {}" if "db_wf s" "session_sweep f t s = (Inr n, s')" for s f t n s'
    using sweep_abs [OF that] by (auto simp: expired_ids_def keep_rows_Some)
  show "live_sessions t (snd (session_sweep f u s)) = live_sessions t s"
    if "db_wf s" "u \<le> t" for s u t f
    using sweep_abs [OF that(1), of f u "fst (session_sweep f u s)" "snd (session_sweep f u s)"]
    by (auto simp: live_sessions_def keep_rows_Some dest: live_not_expired [OF _ that(2)])
  show "db_wf (snd (session_sweep f t s))" if "db_wf s" for s f t
    using session_exec_wf [OF that, of "SSweep f t"] by (simp add: Let_def split: prod.splits)
qed

section \<open>Properties\<close>

definition example_opts :: session_opts where
  "example_opts = \<lparr>so_lifetime = seconds 3600, so_idle_timeout = seconds 900,
                   so_cookie_domain = ''.example.org''\<rparr>"

definition example_ops :: "session_op list" where
  "example_ops =
     [SCreate (seconds 1000) (Inr ''abc'') no_fault 1 ''curl'' ''10.0.0.1'',
      STouch (seconds 1030) no_fault ''YWJj'',
      STouch (seconds 1100) no_fault ''YWJj'',
      SSweep no_fault (seconds 1200)]"

text \<open>
  C13. Absolute session cap: whatever sequence of create, touch, delete and sweep operations runs,
  with whatever failures, a session is served only before its creation time plus the configured
  lifetime, up to the second lost by storing whole seconds, provided that the idle timeout does
  not exceed the lifetime.
\<close>

theorem session_absolute_cap:
  assumes "db_wf d" and "sessions d = []" and "so_idle_timeout opts \<le> so_lifetime opts"
    and "session_get opts now fault sid (session_run opts ops d) = Inr s"
  shows "now < se_created_at s + so_lifetime opts + nanos_per_sec"
proof -
  have "within_cap opts (session_abs d)"
    using assms(2) by (simp add: within_cap_def session_abs_def)
  then have "within_cap opts (session_abs (session_run opts ops d))"
    using assms by (intro within_cap_run)
  with assms(4) show ?thesis
    by (fastforce simp: session_get_def session_row_of_abs within_cap_def Let_def
        split: option.splits if_splits)
qed

lemma session_absolute_cap_witness:
  "\<exists>s. session_get example_opts (seconds 1500) None ''YWJj''
         (session_run example_opts example_ops example_db) = Inr s
       \<and> seconds 1500 < se_created_at s + seconds 3600 + nanos_per_sec"
proof -
  let ?g = "session_get example_opts (seconds 1500) None ''YWJj''
              (session_run example_opts example_ops example_db)"
  have "\<not> isl ?g" by code_simp
  then obtain s where s: "?g = Inr s" by (cases ?g) auto
  have "so_idle_timeout example_opts \<le> so_lifetime example_opts" by code_simp
  from session_absolute_cap [OF _ _ this s] s show ?thesis by (auto simp: example_opts_def)
qed

text \<open>
  C14. No resurrection: once a session id is refused (unknown or expired) at some instant, no
  sequence of touches, deletes, sweeps and creations of other ids, with clock readings from that
  instant on, makes it valid again at any later instant.
\<close>

theorem session_no_resurrection:
  assumes "db_wf d" and "session_get opts t None sid d = Inl e"
    and "\<forall>op \<in> set ops. \<not> op_mints sid op \<and> (\<forall>u. op_clock op = Some u \<longrightarrow> t \<le> u)"
    and "t \<le> now"
  shows "\<exists>e'. session_get opts now fault sid (session_run opts ops d) = Inl e'"
proof -
  have "dead t sid (session_abs d)" using assms(2) dead_get by blast
  then have "dead t sid (session_abs (session_run opts ops d))"
    using assms by (intro dead_run) auto
  then have "dead now sid (session_abs (session_run opts ops d))"
    using assms(4) by (rule dead_mono)
  then obtain e' where "session_get opts now None sid (session_run opts ops d) = Inl e'"
    using dead_get by blast
  then show ?thesis by (cases fault) (auto simp: session_get_def)
qed

lemma session_no_resurrection_witness:
  "\<exists>e'. session_get example_opts (seconds 4000) None ''YWJj''
     (session_run example_opts [STouch (seconds 2200) no_fault ''YWJj'', SSweep no_fault (seconds 2200)]
        (session_run example_opts example_ops example_db)) = Inl e'"
proof (rule session_no_resurrection)
  show "db_wf (session_run example_opts example_ops example_db)"
    by (rule session_run_wf) simp
  show "session_get example_opts (seconds 2100) None ''YWJj''
          (session_run example_opts example_ops example_db) = Inl (Sentinel SessionExpired)"
    by code_simp
qed (auto simp: seconds_def)

text \<open>
  Touch throttle: however many touches run and however stale the state their pre-checks read,
  the row of a session is written at most once per 60 seconds: sixty times the number of writes
  is bounded by the time from its last-seen stamp to the latest clock reading.
\<close>

theorem touch_throttled:
  assumes "db_wf d" and "session_abs d sid = Some r"
    and "\<forall>op \<in> set ops. \<not> op_mints sid op \<and> (\<forall>now f. op = STouch now f sid \<longrightarrow> now \<le> T)"
  shows "60 * int (session_writes opts sid ops d) \<le> max 0 (unix T - sr_last_seen_at r)"
  using assms by (intro writes_bound) auto

lemma touch_throttled_witness:
  "60 * int (session_writes example_opts ''YWJj''
       [STouch (seconds 1170) no_fault ''YWJj'', STouch (seconds 1171) no_fault ''YWJj'',
        STouch (seconds 1240) no_fault ''YWJj'']
       (session_run example_opts example_ops example_db)) \<le> 140
   \<and> session_writes example_opts ''YWJj''
       [STouch (seconds 1170) no_fault ''YWJj'', STouch (seconds 1171) no_fault ''YWJj'',
        STouch (seconds 1240) no_fault ''YWJj'']
       (session_run example_opts example_ops example_db) = 2"
proof -
  let ?d = "session_run example_opts example_ops example_db"
  let ?ops = "[STouch (seconds 1170) no_fault ''YWJj'', STouch (seconds 1171) no_fault ''YWJj'',
               STouch (seconds 1240) no_fault ''YWJj'']"
  have wf: "db_wf ?d" by (rule session_run_wf) simp
  have "session_abs ?d ''YWJj'' \<noteq> None
          \<and> map_option sr_last_seen_at (session_abs ?d ''YWJj'') = Some 1100" by code_simp
  then obtain r where r: "session_abs ?d ''YWJj'' = Some r" "sr_last_seen_at r = 1100" by auto
  have "60 * int (session_writes example_opts ''YWJj'' ?ops ?d)
          \<le> max 0 (unix (seconds 1240) - sr_last_seen_at r)"
    by (rule touch_throttled [OF wf r(1)]) (auto simp: seconds_def)
  moreover have "session_writes example_opts ''YWJj'' ?ops ?d = 2"
    by (simp add: session_abs_def) code_simp
  ultimately show ?thesis using r(2) by (simp add: unix_def seconds_def)
qed

text \<open>
  C15. Refinement: the store implements a finite map from ids to rows.  A successful create,
  touch, delete, delete-all or sweep has the effect the specification gives it on that map, a
  failed one has none, and both keep the constraints of the schema and the other tables.
\<close>

theorem session_store_refines:
  assumes "db_wf d" and "session_exec op opts d = (ok, d')"
  shows "session_abs d' = (if ok then session_spec op opts (session_abs d) else session_abs d)
           \<and> db_wf d' \<and> users d' = users d \<and> ssh_keys d' = ssh_keys d"
  using session_exec_abs [OF assms] session_exec_wf [OF assms(1), of op opts]
    session_exec_frame [OF assms(2)] assms(2) by simp

lemma session_store_refines_witness:
  "session_abs (snd (session_exec (SDelete no_fault ''YWJj'') example_opts
       (session_run example_opts example_ops example_db))) ''YWJj'' = None"
proof -
  let ?d = "session_run example_opts example_ops example_db"
  let ?r = "session_exec (SDelete no_fault ''YWJj'') example_opts ?d"
  have ok: "fst ?r" by code_simp
  have "db_wf ?d" by (rule session_run_wf) simp
  from session_store_refines [OF this, of "SDelete no_fault ''YWJj''" example_opts "fst ?r" "snd ?r"] ok
  show ?thesis by simp
qed

text \<open>
  A created session is found: after a successful creation, a lookup of its id before the
  whole second of its expiry returns the same user, user agent and address, with the time
  stamps rounded down to seconds.
\<close>

theorem session_create_get:
  assumes "session_create opts now rnd f uid ua ip d = (Inr s, d')"
    and "t < from_unix (unix (se_expires_at s))"
  shows "session_get opts t None (se_id s) d' =
           Inr (s\<lparr>se_created_at := from_unix (unix now), se_last_seen_at := from_unix (unix now),
                  se_expires_at := from_unix (unix (se_expires_at s))\<rparr>)
         \<and> se_user_id s = uid \<and> se_user_agent s = ua \<and> se_ip s = ip \<and> user_exists d uid"
  using session_create_cases [OF assms(1)] assms(2)
  by (auto simp: session_get_abs session_abs_def index_by_append)

lemma session_create_get_witness:
  "\<exists>s. session_get example_opts (seconds 1200) None ''YWJj''
         (snd (session_create example_opts (seconds 1000) (Inr ''abc'') no_fault 2 ''ua'' ''ip'' example_db))
       = Inr s \<and> se_user_id s = 2"
proof -
  let ?c = "session_create example_opts (seconds 1000) (Inr ''abc'') no_fault 2 ''ua'' ''ip'' example_db"
  have "\<not> isl (fst ?c)" by code_simp
  then obtain s d' where c: "?c = (Inr s, d')" by (cases ?c; cases "fst ?c") auto
  moreover have "b64_encode ''abc'' = ''YWJj''" by code_simp
  ultimately have "se_id s = ''YWJj''" "se_expires_at s = seconds 1900"
    by (auto simp: example_opts_def seconds_def dest!: session_create_cases)
  with session_create_get [OF c, of "seconds 1200"] c
  show ?thesis by (simp add: seconds_def unix_def from_unix_def)
qed

text \<open>
  C16. The sweeper: whatever its sweeps meet, it returns exactly when its context is cancelled,
  every session that is live at an instant no earlier than its clock readings is still there,
  and once it reports a success, no session that had expired by the reported time is left.
\<close>

theorem sweeper_keeps_live:
  assumes "db_wf d" and "now \<le> t" and "\<forall>f u. TimerTick f u \<in> set es \<longrightarrow> u \<le> t"
    and "sweeper_run session_sweep f now es (new_sweeper, d) = (returned, sw, d')"
  shows "(returned \<longleftrightarrow> CtxDone \<in> set es)
         \<and> live_sessions t d' = live_sessions t d
         \<and> (sw_last_success sw = zero_time \<or> expired_ids (sw_last_success sw) d' = {})"
proof -
  have "returned \<longleftrightarrow> CtxDone \<in> set es"
    using assms(4) loop_returns_iff [of session_sweep es] by (simp add: sweeper_run_def) (metis fst_conv)
  moreover have "live_sessions t d' = live_sessions t d"
    using ss.run_live [of "(new_sweeper, d)" now t es f] assms by auto
  moreover have "sw_last_success sw = zero_time \<or> expired_ids (sw_last_success sw) d' = {}"
    using ss.run_clean [of "(new_sweeper, d)" f now es] assms
    by (simp add: ss.clean_def new_sweeper_def)
  ultimately show ?thesis by blast
qed

lemma sweeper_keeps_live_witness:
  "let r = sweeper_run session_sweep no_fault (seconds 1300)
             [TimerTick no_fault (seconds 2100), CtxDone]
             (new_sweeper, session_run example_opts example_ops example_db)
   in fst r \<and> expired_ids (seconds 2100) (snd (snd r)) = {}"
proof -
  let ?d = "session_run example_opts example_ops example_db"
  let ?r = "sweeper_run session_sweep no_fault (seconds 1300)
              [TimerTick no_fault (seconds 2100), CtxDone] (new_sweeper, ?d)"
  have wf: "db_wf ?d" by (rule session_run_wf) simp
  have sw: "sw_last_success (fst (snd ?r)) = seconds 2100" by code_simp
  have "\<not> (seconds 2100 = zero_time)" by code_simp
  with sweeper_keeps_live [OF wf, of "seconds 1300" "seconds 2100"
      "[TimerTick no_fault (seconds 2100), CtxDone]" no_fault "fst ?r" "fst (snd ?r)" "snd (snd ?r)"] sw
  show ?thesis by (simp add: seconds_def)
qed

end
