(* ===== verification/UserStore.thy ===== *)
theory UserStore
  imports Database "HOL-Library.Product_Lexorder"
begin

text \<open>
  \<open>internal/user\<close>: the users table (\<open>store.go\<close>) and the lookups of the admin commands
  (\<open>list.go\<close>).  Roles are stored as one comma-separated column.

  The SQL of the lookups is translated with SQLite's documented meaning: \<open>LIKE\<close> knows the
  wildcards \<open>%\<close> and \<open>_\<close> and ignores ASCII case, \<open>LOWER\<close> folds ASCII letters only, \<open>ORDER BY\<close> and
  \<open>LIMIT\<close> sort and truncate.  SQLite's limit on the length of a \<open>LIKE\<close> pattern is not modelled.
\<close>

section \<open>Roles\<close>

record user =
  us_id :: int
  us_slack_user_id :: string
  us_slack_team_id :: string
  us_email :: string
  us_name :: string
  us_avatar_url :: string
  us_roles :: "string list"
  us_created_at :: gotime
  us_last_login_at :: gotime

record oidc_claims =
  oc_slack_user_id :: string
  oc_slack_team_id :: string
  oc_email :: string
  oc_name :: string
  oc_avatar_url :: string

definition invalid_stored_role :: "string \<Rightarrow> err" where
  "invalid_stored_role r =
     Message (''user: invalid role name '' @ go_quote r @ '' in stored value'')"

fun parse_role_parts :: "string list \<Rightarrow> string list result" where
  "parse_role_parts [] = Inr []"
| "parse_role_parts (p # ps) =
     (let trimmed = trim_space p
      in if trimmed = [] then parse_role_parts ps
         else if \<not> role_name_re trimmed then Inl (invalid_stored_role trimmed)
         else (case parse_role_parts ps of Inl e \<Rightarrow> Inl e | Inr rs \<Rightarrow> Inr (trimmed # rs)))"

definition parse_roles :: "string \<Rightarrow> string list result" where
  "parse_roles raw = (if raw = [] then Inr [] else parse_role_parts (str_split (CHR '','') raw))"

section \<open>Store\<close>

text \<open>\<open>UpsertFromOIDC\<close>; the statement faults are the select, the insert or update, and the row id.\<close>

definition upsert_body ::
    "gotime \<Rightarrow> tx_fault \<Rightarrow> oidc_claims \<Rightarrow> db \<Rightarrow> user result \<times> db" where
  "upsert_body now f claims d =
     (case ft_stmt f 0 of
        Some e \<Rightarrow> (Inl (Wrap ''user: select'' e), d)
      | None \<Rightarrow>
     (case find (\<lambda>r. ur_slack_user_id r = oc_slack_user_id claims) (users d) of
        None \<Rightarrow>
          (case stmt (ft_stmt f 1)
                  (insert_user (\<lambda>i. \<lparr>ur_id = i, ur_slack_user_id = oc_slack_user_id claims,
                     ur_slack_team_id = oc_slack_team_id claims, ur_email = oc_email claims,
                     ur_name = oc_name claims, ur_avatar_url = oc_avatar_url claims,
                     ur_roles = [], ur_created_at = unix now, ur_last_login_at = unix now\<rparr>)) d of
             (Inl e, d') \<Rightarrow> (Inl (Wrap ''user: insert'' e), d')
           | (Inr new_id, d') \<Rightarrow>
               (case ft_stmt f 2 of
                  Some e \<Rightarrow> (Inl (Wrap ''user: last insert id'' e), d')
                | None \<Rightarrow>
                    (Inr \<lparr>us_id = new_id, us_slack_user_id = oc_slack_user_id claims,
                          us_slack_team_id = oc_slack_team_id claims, us_email = oc_email claims,
                          us_name = oc_name claims, us_avatar_url = oc_avatar_url claims,
                          us_roles = [], us_created_at = now, us_last_login_at = now\<rparr>, d')))
      | Some row \<Rightarrow>
          (case ft_stmt f 1 of
             Some e \<Rightarrow> (Inl (Wrap ''user: update'' e), d)
           | None \<Rightarrow>
               (let d' = d\<lparr>users := map (\<lambda>r. if ur_id r = ur_id row
                      then r\<lparr>ur_slack_team_id := oc_slack_team_id claims, ur_email := oc_email claims,
                             ur_name := oc_name claims, ur_avatar_url := oc_avatar_url claims,
                             ur_last_login_at := unix now\<rparr> else r) (users d)\<rparr>
                in case parse_roles (ur_roles row) of
                     Inl e \<Rightarrow> (Inl e, d')
                   | Inr roles \<Rightarrow>
                       (Inr \<lparr>us_id = ur_id row, us_slack_user_id = oc_slack_user_id claims,
                             us_slack_team_id = oc_slack_team_id claims, us_email = oc_email claims,
                             us_name = oc_name claims, us_avatar_url = oc_avatar_url claims,
                             us_roles = roles, us_created_at = from_unix (ur_created_at row),
                             us_last_login_at = now\<rparr>, d')))))"

definition upsert_from_oidc ::
    "gotime \<Rightarrow> tx_fault \<Rightarrow> oidc_claims \<Rightarrow> db \<Rightarrow> user result \<times> db" where
  "upsert_from_oidc now f claims d = write_tx f (upsert_body now f claims) d"

definition decode_user :: "user_row \<Rightarrow> user result" where
  "decode_user r =
     (case parse_roles (ur_roles r) of
        Inl e \<Rightarrow> Inl e
      | Inr roles \<Rightarrow>
          Inr \<lparr>us_id = ur_id r, us_slack_user_id = ur_slack_user_id r,
               us_slack_team_id = ur_slack_team_id r, us_email = ur_email r, us_name = ur_name r,
               us_avatar_url = ur_avatar_url r, us_roles = roles,
               us_created_at = from_unix (ur_created_at r),
               us_last_login_at = from_unix (ur_last_login_at r)\<rparr>)"

text \<open>\<open>queryOne\<close>: the first row that the \<open>WHERE\<close> clause keeps.\<close>

definition query_one :: "(user_row \<Rightarrow> bool) \<Rightarrow> err option \<Rightarrow> db \<Rightarrow> user result" where
  "query_one P fault d =
     (case fault of
        Some e \<Rightarrow> Inl (Wrap ''user: select'' e)
      | None \<Rightarrow>
     (case find P (users d) of
        None \<Rightarrow> Inl (Sentinel UserNotFound)
      | Some r \<Rightarrow> decode_user r))"

definition user_get :: "err option \<Rightarrow> int \<Rightarrow> db \<Rightarrow> user result" where
  "user_get fault uid d = query_one (\<lambda>r. ur_id r = uid) fault d"

definition user_get_by_slack_id :: "err option \<Rightarrow> string \<Rightarrow> db \<Rightarrow> user result" where
  "user_get_by_slack_id fault slack d = query_one (\<lambda>r. ur_slack_user_id r = slack) fault d"

definition user_roles :: "err option \<Rightarrow> int \<Rightarrow> db \<Rightarrow> string list result" where
  "user_roles fault uid d =
     (case fault of
        Some e \<Rightarrow> Inl (Wrap ''user: select roles'' e)
      | None \<Rightarrow>
     (case find (\<lambda>r. ur_id r = uid) (users d) of
        None \<Rightarrow> Inl (Sentinel UserNotFound)
      | Some r \<Rightarrow> parse_roles (ur_roles r)))"

definition invalid_role :: "string \<Rightarrow> err" where
  "invalid_role r =
     Message (''user: invalid role name '' @ go_quote r @ '': must match ^[A-Za-z0-9_-]+$'')"

definition update_roles :: "int \<Rightarrow> string \<Rightarrow> db \<Rightarrow> int result \<times> db" where
  "update_roles uid joined d =
     (Inr (int (length (filter (\<lambda>r. ur_id r = uid) (users d)))),
      d\<lparr>users := map (\<lambda>r. if ur_id r = uid then r\<lparr>ur_roles := joined\<rparr> else r) (users d)\<rparr>)"

definition set_roles :: "tx_fault \<Rightarrow> int \<Rightarrow> string list \<Rightarrow> db \<Rightarrow> unit result \<times> db" where
  "set_roles f uid roles d =
     (case find (\<lambda>r. \<not> role_name_re r) roles of
        Some r \<Rightarrow> (Inl (invalid_role r), d)
      | None \<Rightarrow>
          write_tx f (\<lambda>s.
            case stmt (ft_stmt f 0) (update_roles uid (str_join roles '','')) s of
              (Inl e, s') \<Rightarrow> (Inl (Wrap ''user: update roles'' e), s')
            | (Inr n, s') \<Rightarrow>
                (case ft_stmt f 1 of
                   Some e \<Rightarrow> (Inl (Wrap ''user: rows-affected'' e), s')
                 | None \<Rightarrow> if n = 0 then (Inl (Sentinel UserNotFound), s') else (Inr (), s'))) d)"

section \<open>Search\<close>

definition default_search_limit :: nat where
  "default_search_limit = 100"

definition fold_rune :: "nat \<Rightarrow> nat" where
  "fold_rune r = (if 65 \<le> r \<and> r \<le> 90 then r + 32 else r)"

fun like_runes :: "nat list \<Rightarrow> nat list \<Rightarrow> bool" where
  "like_runes [] s = (s = [])"
| "like_runes (p # ps) [] = (p = 37 \<and> like_runes ps [])"
| "like_runes (p # ps) (c # s) =
     (if p = 37 then like_runes ps (c # s) \<or> like_runes (p # ps) s
      else (p = 95 \<or> fold_rune p = fold_rune c) \<and> like_runes ps s)"

definition sql_like :: "string \<Rightarrow> string \<Rightarrow> bool" where
  "sql_like s pattern = like_runes (runes pattern) (runes s)"

text \<open>The rows of the query in order; the scan decodes them one by one and stops at an error.\<close>

definition search_rows :: "string \<Rightarrow> db \<Rightarrow> user_row list" where
  "search_rows substring d =
     (let pattern = ''%'' @ trim_space substring @ ''%''
      in take default_search_limit
           (sort_key (\<lambda>r. (- ur_last_login_at r, - ur_id r))
              (filter (\<lambda>r. sql_like (ur_email r) pattern \<or> sql_like (ur_name r) pattern) (users d))))"

fun scan_users :: "(nat \<Rightarrow> err option) \<Rightarrow> nat \<Rightarrow> user_row list \<Rightarrow> user list result" where
  "scan_users scan i [] = Inr []"
| "scan_users scan i (r # rs) =
     (case scan i of
        Some e \<Rightarrow> Inl (Wrap ''user: search scan'' e)
      | None \<Rightarrow>
     (case decode_user r of
        Inl e \<Rightarrow> Inl e
      | Inr u \<Rightarrow>
     (case scan_users scan (Suc i) rs of Inl e \<Rightarrow> Inl e | Inr us \<Rightarrow> Inr (u # us))))"

record search_fault =
  sf_query :: "err option"
  sf_scan :: "nat \<Rightarrow> err option"
  sf_rows :: "err option"

definition user_search :: "search_fault \<Rightarrow> string \<Rightarrow> db \<Rightarrow> user list result" where
  "user_search f substring d =
     (case sf_query f of
        Some e \<Rightarrow> Inl (Wrap ''user: search'' e)
      | None \<Rightarrow>
     (case scan_users (sf_scan f) 0 (search_rows substring d) of
        Inl e \<Rightarrow> Inl e
      | Inr us \<Rightarrow> (case sf_rows f of Some e \<Rightarrow> Inl (Wrap ''user: search rows'' e) | None \<Rightarrow> Inr us)))"

definition sql_lower :: "string \<Rightarrow> string" where
  "sql_lower s = map lower_byte s"

definition user_get_by_email :: "err option \<Rightarrow> string \<Rightarrow> db \<Rightarrow> user result" where
  "user_get_by_email fault email d =
     query_one (\<lambda>r. sql_lower (ur_email r) = sql_lower (trim_space email)) fault d"

section \<open>Facts about roles\<close>

lemma parse_role_parts_valid:
  "parse_role_parts ps = Inr rs \<Longrightarrow> list_all role_name_re rs"
  by (induction ps arbitrary: rs) (auto simp: Let_def split: if_splits sum.splits)

lemma parse_roles_valid: "parse_roles raw = Inr rs \<Longrightarrow> list_all role_name_re rs"
  by (auto simp: parse_roles_def parse_role_parts_valid split: if_splits)

lemma parse_role_parts_names: "list_all role_name_re rs \<Longrightarrow> parse_role_parts rs = Inr rs"
  by (induction rs) (auto simp: Let_def)

lemma parse_roles_join:
  assumes "list_all role_name_re rs"
  shows "parse_roles (str_join rs '','') = Inr rs"
proof (cases "rs = []")
  case False
  then have "str_join rs '','' \<noteq> []"
    using assms by (auto simp: str_join_empty_iff)
  moreover have "str_split (CHR '','') (str_join rs '','') = rs"
    using False assms by (intro str_split_join) (auto simp: list_all_iff role_name_no_comma)
  ultimately show ?thesis by (simp add: parse_roles_def parse_role_parts_names assms)
qed (simp add: parse_roles_def)

lemma parse_roles_Nil [simp]: "parse_roles [] = Inr []"
  by (simp add: parse_roles_def)

section \<open>What the store promises: a map from user ids to rows\<close>

datatype user_op = UUpsert gotime tx_fault oidc_claims | USetRoles tx_fault int "string list"

fun user_exec :: "user_op \<Rightarrow> db \<Rightarrow> bool \<times> db" where
  "user_exec (UUpsert now f claims) d =
     (let (r, d') = upsert_from_oidc now f claims d in (\<not> isl r, d'))"
| "user_exec (USetRoles f uid roles) d =
     (let (r, d') = set_roles f uid roles d in (\<not> isl r, d'))"

definition refreshed :: "gotime \<Rightarrow> oidc_claims \<Rightarrow> user_row \<Rightarrow> user_row" where
  "refreshed now claims r =
     r\<lparr>ur_slack_team_id := oc_slack_team_id claims, ur_email := oc_email claims,
       ur_name := oc_name claims, ur_avatar_url := oc_avatar_url claims,
       ur_last_login_at := unix now\<rparr>"

definition provisioned :: "gotime \<Rightarrow> oidc_claims \<Rightarrow> int \<Rightarrow> user_row" where
  "provisioned now claims i =
     \<lparr>ur_id = i, ur_slack_user_id = oc_slack_user_id claims,
      ur_slack_team_id = oc_slack_team_id claims, ur_email = oc_email claims,
      ur_name = oc_name claims, ur_avatar_url = oc_avatar_url claims,
      ur_roles = [], ur_created_at = unix now, ur_last_login_at = unix now\<rparr>"

lemma refreshed_simps [simp]:
  "ur_id (refreshed now c r) = ur_id r"
  "ur_slack_user_id (refreshed now c r) = ur_slack_user_id r"
  "ur_roles (refreshed now c r) = ur_roles r"
  "ur_created_at (refreshed now c r) = ur_created_at r"
  by (simp_all add: refreshed_def)

lemma provisioned_simps [simp]:
  "ur_id (provisioned now c i) = i"
  "ur_slack_user_id (provisioned now c i) = oc_slack_user_id c"
  "ur_roles (provisioned now c i) = []"
  by (simp_all add: provisioned_def)

definition user_of_slack :: "db \<Rightarrow> string \<Rightarrow> user_row option" where
  "user_of_slack d slack = find (\<lambda>r. ur_slack_user_id r = slack) (users d)"

text \<open>A user as the next lookup will decode it: the time stamps lose their fraction of a second.\<close>

definition stored_user :: "user \<Rightarrow> user" where
  "stored_user u =
     u\<lparr>us_created_at := from_unix (unix (us_created_at u)),
       us_last_login_at := from_unix (unix (us_last_login_at u))\<rparr>"

lemma upsert_cases:
  assumes "upsert_from_oidc now f claims d = (r, d')"
  shows "(isl r \<and> d' = d) \<or>
         (case user_of_slack d (oc_slack_user_id claims) of
            None \<Rightarrow>
              d' = d\<lparr>users := users d @ [provisioned now claims (users_seq d + 1)],
                     users_seq := users_seq d + 1\<rparr>
              \<and> (\<exists>u. r = Inr u \<and> us_id u = users_seq d + 1
                  \<and> decode_user (provisioned now claims (users_seq d + 1)) = Inr (stored_user u))
          | Some row \<Rightarrow>
              d' = d\<lparr>users := map (\<lambda>x. if ur_id x = ur_id row then refreshed now claims x else x) (users d)\<rparr>
              \<and> (\<exists>u. r = Inr u \<and> us_id u = ur_id row
                  \<and> decode_user (refreshed now claims row) = Inr (stored_user u)))"
proof (cases r)
  case (Inl e)
  with assms show ?thesis by (auto simp: upsert_from_oidc_def dest: write_tx_Inl)
next
  case (Inr u)
  with assms have "upsert_body now f claims d = (Inr u, d')"
    by (auto simp: upsert_from_oidc_def dest: write_tx_Inr)
  with Inr show ?thesis
    by (auto simp: upsert_body_def user_of_slack_def Let_def stmt_def insert_user_def
             provisioned_def refreshed_def decode_user_def stored_user_def
        split: option.splits sum.splits prod.splits if_splits dest!: find_Some_iff_mem)
qed

lemma set_roles_cases:
  assumes "set_roles f uid roles d = (r, d')"
  shows "(isl r \<and> d' = d) \<or>
         (r = Inr () \<and> list_all role_name_re roles \<and> user_exists d uid
          \<and> d' = d\<lparr>users := map (\<lambda>x. if ur_id x = uid then x\<lparr>ur_roles := str_join roles '',''\<rparr> else x)
                             (users d)\<rparr>)"
proof (cases "find (\<lambda>r. \<not> role_name_re r) roles")
  case None
  then have "list_all role_name_re roles"
    by (auto simp: find_None_iff list_all_iff)
  then show ?thesis using assms None
    by (cases r) (auto simp: set_roles_def stmt_def update_roles_def user_exists_def filter_empty_conv
        split: option.splits if_splits dest!: write_tx_Inr write_tx_Inl)
qed (use assms in \<open>auto simp: set_roles_def\<close>)

definition user_abs :: "db \<Rightarrow> int \<Rightarrow> user_row option" where
  "user_abs d = index_by ur_id (users d)"

lemma user_get_abs:
  "user_get None uid d =
     (case user_abs d uid of None \<Rightarrow> Inl (Sentinel UserNotFound) | Some r \<Rightarrow> decode_user r)"
  by (simp add: user_get_def query_one_def user_abs_def find_index_by)

lemma user_roles_abs:
  "user_roles None uid d =
     (case user_abs d uid of
        None \<Rightarrow> Inl (Sentinel UserNotFound) | Some r \<Rightarrow> parse_roles (ur_roles r))"
  by (simp add: user_roles_def user_abs_def find_index_by)

lemma user_abs_fresh: "db_wf d \<Longrightarrow> user_abs d (users_seq d + 1) = None"
  by (force simp: user_abs_def index_by_None db_wf_def)

lemma user_of_slack_row:
  "db_wf d \<Longrightarrow> user_of_slack d slack = Some row \<Longrightarrow>
     row \<in> set (users d) \<and> ur_slack_user_id row = slack \<and> user_abs d (ur_id row) = Some row"
  by (auto simp: user_of_slack_def user_abs_def db_wf_def index_by_mem dest!: find_Some_iff_mem)

lemma user_abs_refresh:
  "user_abs (d\<lparr>users := map (\<lambda>x. if ur_id x = i then refreshed now c x else x) (users d)\<rparr>) =
     (user_abs d)(i := map_option (refreshed now c) (user_abs d i))"
  by (simp add: user_abs_def index_by_update)

lemma user_abs_provision:
  "db_wf d \<Longrightarrow>
   user_abs (d\<lparr>users := users d @ [provisioned now c (users_seq d + 1)], users_seq := n\<rparr>) =
     (user_abs d)(users_seq d + 1 \<mapsto> provisioned now c (users_seq d + 1))"
  using user_abs_fresh [of d] index_by_append [of ur_id "provisioned now c (users_seq d + 1)" "users d"]
  by (simp add: user_abs_def index_by_None)

lemma user_abs_set_roles:
  "user_abs (d\<lparr>users := map (\<lambda>x. if ur_id x = i then x\<lparr>ur_roles := v\<rparr> else x) (users d)\<rparr>) =
     (user_abs d)(i := map_option (\<lambda>x. x\<lparr>ur_roles := v\<rparr>) (user_abs d i))"
  by (simp add: user_abs_def index_by_update)

section \<open>Constraints, frame and invariants\<close>

lemma user_exists_map:
  "(\<And>x. ur_id (g x) = ur_id x) \<Longrightarrow> user_exists (d\<lparr>users := map g (users d)\<rparr>) i = user_exists d i"
  by (simp add: user_exists_def image_image)

lemma db_wf_map_users:
  assumes "db_wf d" and "\<And>x. ur_id (g x) = ur_id x \<and> ur_slack_user_id (g x) = ur_slack_user_id x"
  shows "db_wf (d\<lparr>users := map g (users d)\<rparr>)"
proof -
  have "map ur_id (map g (users d)) = map ur_id (users d)"
    and "map ur_slack_user_id (map g (users d)) = map ur_slack_user_id (users d)"
    using assms(2) by auto
  then show ?thesis using assms
    by (auto simp: db_wf_def user_exists_map simp del: map_map)
qed

lemma db_wf_provision:
  assumes "db_wf d" and "user_of_slack d (oc_slack_user_id c) = None"
  shows "db_wf (d\<lparr>users := users d @ [provisioned now c (users_seq d + 1)],
                  users_seq := users_seq d + 1\<rparr>)"
  using assms by (fastforce simp: db_wf_def user_of_slack_def find_None_iff user_exists_def)

lemma user_exec_wf:
  assumes "db_wf d"
  shows "db_wf (snd (user_exec op d))"
proof (cases op)
  case (UUpsert now f claims)
  then show ?thesis
    using upsert_cases [of now f claims d "fst (upsert_from_oidc now f claims d)"
        "snd (upsert_from_oidc now f claims d)"] assms
    by (auto simp: Let_def split_beta db_wf_provision db_wf_map_users split: option.splits)
next
  case (USetRoles f uid roles)
  then show ?thesis
    using set_roles_cases [of f uid roles d "fst (set_roles f uid roles d)"
        "snd (set_roles f uid roles d)"] assms
    by (auto simp: Let_def split_beta db_wf_map_users)
qed

lemma user_exec_frame [frame]:
  "user_exec op d = (ok, d') \<Longrightarrow>
     sessions d' = sessions d \<and> ssh_keys d' = ssh_keys d \<and> ssh_keys_seq d' = ssh_keys_seq d"
  by (cases op) (auto split: prod.splits option.splits dest!: upsert_cases set_roles_cases)

text \<open>Every stored roles column parses.\<close>

definition roles_ok :: "db \<Rightarrow> bool" where
  "roles_ok d \<longleftrightarrow> (\<forall>r \<in> set (users d). \<not> isl (parse_roles (ur_roles r)))"

lemma user_exec_roles_ok:
  assumes "roles_ok d"
  shows "roles_ok (snd (user_exec op d))"
proof (cases op)
  case (UUpsert now f claims)
  then show ?thesis
    using upsert_cases [of now f claims d "fst (upsert_from_oidc now f claims d)"
        "snd (upsert_from_oidc now f claims d)"] assms
    by (auto simp: Let_def split_beta roles_ok_def split: option.splits if_splits)
next
  case (USetRoles f uid roles)
  then show ?thesis
    using set_roles_cases [of f uid roles d "fst (set_roles f uid roles d)"
        "snd (set_roles f uid roles d)"] assms
    by (auto simp: Let_def split_beta roles_ok_def parse_roles_join)
qed

text \<open>The identities in the table: which user id belongs to which Slack id since when.\<close>

definition identities :: "db \<Rightarrow> (int \<times> string \<times> int) set" where
  "identities d = (\<lambda>r. (ur_id r, ur_slack_user_id r, ur_created_at r)) ` set (users d)"

lemma identities_map:
  "(\<And>x. (ur_id (g x), ur_slack_user_id (g x), ur_created_at (g x)) =
         (ur_id x, ur_slack_user_id x, ur_created_at x)) \<Longrightarrow>
   identities (d\<lparr>users := map g (users d)\<rparr>) = identities d"
  by (simp add: identities_def image_image)

lemma identities_append: "identities d \<subseteq> identities (d\<lparr>users := users d @ rs, users_seq := n\<rparr>)"
  by (auto simp: identities_def)

lemma user_exec_identities: "identities d \<subseteq> identities (snd (user_exec op d))"
proof (cases op)
  case (UUpsert now f claims)
  show ?thesis
    using upsert_cases [of now f claims d "fst (upsert_from_oidc now f claims d)"
        "snd (upsert_from_oidc now f claims d)"]
    by (auto simp: UUpsert Let_def split_beta identities_map split: option.splits
        intro: identities_append [THEN subsetD])
next
  case (USetRoles f uid roles)
  show ?thesis
    using set_roles_cases [of f uid roles d "fst (set_roles f uid roles d)"
        "snd (set_roles f uid roles d)"]
    by (auto simp: USetRoles Let_def split_beta identities_map)
qed

fun user_run :: "user_op list \<Rightarrow> db \<Rightarrow> db" where
  "user_run [] d = d"
| "user_run (op # ops) d = user_run ops (snd (user_exec op d))"

lemma user_run_wf: "db_wf d \<Longrightarrow> db_wf (user_run ops d)"
  by (induction ops arbitrary: d) (simp_all add: user_exec_wf)

lemma user_run_roles_ok: "roles_ok d \<Longrightarrow> roles_ok (user_run ops d)"
  by (induction ops arbitrary: d) (simp_all add: user_exec_roles_ok)

lemma user_run_identities: "identities d \<subseteq> identities (user_run ops d)"
  by (induction ops arbitrary: d) (auto dest: user_exec_identities [THEN subsetD])

section \<open>Search\<close>

lemma scan_users_length: "scan_users sc i rs = Inr us \<Longrightarrow> length us = length rs"
  by (induction rs arbitrary: i us) (auto split: option.splits sum.splits)

lemma scan_users_decode:
  "scan_users sc i rs = Inr us \<Longrightarrow> list_all2 (\<lambda>r u. decode_user r = Inr u) rs us"
  by (induction rs arbitrary: i us) (auto split: option.splits sum.splits)

lemma decode_user_login:
  "decode_user r = Inr u \<Longrightarrow> us_id u = ur_id r \<and> us_last_login_at u = from_unix (ur_last_login_at r)
     \<and> us_email u = ur_email r \<and> us_name u = ur_name r"
  by (auto simp: decode_user_def split: sum.splits)

lemma sorted_search_rows:
  "sorted (map (\<lambda>r. (- ur_last_login_at r, - ur_id r)) (search_rows substring d))"
  unfolding search_rows_def Let_def
  by (simp flip: take_map)

lemma search_rows_mem:
  "r \<in> set (search_rows substring d) \<Longrightarrow>
     r \<in> set (users d) \<and> (sql_like (ur_email r) (''%'' @ trim_space substring @ ''%'')
                        \<or> sql_like (ur_name r) (''%'' @ trim_space substring @ ''%''))"
  by (auto simp: search_rows_def Let_def dest!: in_set_takeD)

lemma search_rows_complete:
  assumes "length (search_rows substring d) < default_search_limit"
  shows "set (search_rows substring d) =
           {r \<in> set (users d). sql_like (ur_email r) (''%'' @ trim_space substring @ ''%'')
                              \<or> sql_like (ur_name r) (''%'' @ trim_space substring @ ''%'')}"
  using assms by (auto simp: search_rows_def Let_def)

text \<open>A substring is found by its pattern, whatever it contains.\<close>

lemma like_runes_any: "like_runes ps s \<Longrightarrow> like_runes (37 # ps) (t @ s)"
proof (induction t)
  case Nil
  then show ?case by (cases s) auto
qed simp

lemma like_runes_self: "like_runes qs t \<Longrightarrow> like_runes (ps @ qs) (ps @ t)"
proof (induction ps)
  case (Cons p ps)
  then show ?case
    using like_runes_any [of "ps @ qs" "ps @ t" "[]"] by auto
qed simp

lemma like_runes_end: "like_runes [37] s"
  using like_runes_any [of "[]" "[]" s] by simp

lemma like_runes_substring: "like_runes (37 # ps @ [37]) (a @ ps @ b)"
  by (intro like_runes_any like_runes_self like_runes_end)

lemma sql_like_substring:
  "runes s = a @ runes p @ b \<Longrightarrow> sql_like s (''%'' @ p @ ''%'')"
  by (simp add: sql_like_def runes_Cons_ascii runes_snoc_ascii like_runes_substring)

lemma list_all2_sorted:
  assumes "list_all2 (\<lambda>r u. h u = g (f r)) rs us" and "sorted (map f rs)" and "\<And>x y. x \<le> y \<Longrightarrow> g x \<le> g y"
  shows "sorted (map h us)"
proof -
  have "map h us = map g (map f rs)"
    using assms(1) by (induction rule: list_all2_induct) auto
  moreover have "sorted (map g (map f rs))"
    using assms(2) by (induction rs) (auto intro: assms(3))
  ultimately show ?thesis by simp
qed

lemma login_key_mono:
  "x \<le> y \<Longrightarrow> (case x of (a, b) \<Rightarrow> (- from_unix (- a), b :: int)) \<le> (case y of (a, b) \<Rightarrow> (- from_unix (- a), b))"
  by (cases x; cases y) (auto simp: less_eq_prod_def less_le from_unix_def)

section \<open>Two remarks on the lookups\<close>

text \<open>
  An underscore in the substring matches any character, so \<open>Search\<close> can return users whose
  address and name do not contain the substring.
\<close>

lemma search_underscore_is_wildcard:
  "map_sum id (map us_id)
     (user_search \<lparr>sf_query = None, sf_scan = (\<lambda>_. None), sf_rows = None\<rparr> ''a_a@'' example_db) = Inr [1]
   \<and> \<not> str_contains ''ada@example.org'' ''a_a@'' \<and> \<not> str_contains ''ada'' ''a_a@''"
  by code_simp

text \<open>
  Two Slack accounts may carry the same address (the column is not unique): the lookup by address
  then answers with the row stored first.
\<close>

lemma get_by_email_first_row:
  "let c = \<lparr>oc_slack_user_id = ''Unew'', oc_slack_team_id = ''T01'', oc_email = ''ADA@example.org'',
            oc_name = ''Ada'', oc_avatar_url = []\<rparr>;
       r = upsert_from_oidc (seconds 900) no_fault c example_db
   in map_sum id us_id (fst r) = Inr 3
      \<and> map_sum id us_id (user_get_by_email None ''ada@example.org'' (snd r)) = Inr 1"
  by code_simp

section \<open>Properties\<close>

definition example_claims :: oidc_claims where
  "example_claims =
     \<lparr>oc_slack_user_id = ''Uada'', oc_slack_team_id = ''T02'', oc_email = ''ada@new.org'',
      oc_name = ''Ada'', oc_avatar_url = ''https://a/b''\<rparr>"

lemma example_roles_ok: "roles_ok example_db"
  unfolding roles_ok_def example_db_def example_user_def by code_simp

text \<open>
  C17. Sign-in upsert: a successful upsert changes one row of the users table.  For a known Slack
  id it is that user's row, whose id, roles and creation time survive while the profile and the
  login time are refreshed; for an unknown one it is a new row without roles under an id that no
  row had.  The user returned is the one the next lookup finds, up to fractions of a second.
\<close>

theorem upsert_refines:
  assumes "db_wf d" and "upsert_from_oidc now f claims d = (Inr u, d')"
  shows "user_abs d' = (user_abs d)(us_id u \<mapsto>
             (case user_of_slack d (oc_slack_user_id claims) of
                Some row \<Rightarrow> refreshed now claims row
              | None \<Rightarrow> provisioned now claims (us_id u)))
         \<and> (case user_of_slack d (oc_slack_user_id claims) of
              Some row \<Rightarrow> us_id u = ur_id row
            | None \<Rightarrow> user_abs d (us_id u) = None \<and> us_id u = users_seq d + 1)
         \<and> user_get None (us_id u) d' = Inr (stored_user u)"
proof (cases "user_of_slack d (oc_slack_user_id claims)")
  case None
  then show ?thesis
    using upsert_cases [OF assms(2)] assms(1)
    by (auto simp: user_get_abs user_abs_provision user_abs_fresh)
next
  case (Some row)
  then show ?thesis
    using upsert_cases [OF assms(2)] user_of_slack_row [OF assms(1) Some]
    by (auto simp: user_get_abs user_abs_refresh)
qed

lemma upsert_refines_witness:
  "\<exists>u d'. upsert_from_oidc (seconds 900) no_fault example_claims example_db = (Inr u, d')
     \<and> us_id u = 1 \<and> user_get None 1 d' = Inr (stored_user u)"
proof -
  let ?c = "upsert_from_oidc (seconds 900) no_fault example_claims example_db"
  have "\<not> isl (fst ?c)" by code_simp
  then obtain u d' where c: "?c = (Inr u, d')" by (cases ?c; cases "fst ?c") auto
  have row: "map_option ur_id (user_of_slack example_db (oc_slack_user_id example_claims)) = Some 1"
    by code_simp
  from upsert_refines [OF example_db_wf c] row c show ?thesis by (auto split: option.splits)
qed

text \<open>
  Roles round trip: after a successful \<open>SetRoles\<close>, the roles of the user are exactly the list
  that was set, in its order, and each is a role name; the other users keep theirs.
\<close>

theorem set_roles_roundtrip:
  assumes "db_wf d" and "set_roles f uid roles d = (Inr (), d')"
  shows "user_roles None uid d' = Inr roles \<and> list_all role_name_re roles
         \<and> (\<forall>i. i \<noteq> uid \<longrightarrow> user_roles None i d' = user_roles None i d)"
proof -
  from set_roles_cases [OF assms(2)]
  have valid: "list_all role_name_re roles" and ex: "user_exists d uid"
    and d': "d' = d\<lparr>users := map (\<lambda>x. if ur_id x = uid then x\<lparr>ur_roles := str_join roles '',''\<rparr> else x)
                        (users d)\<rparr>"
    by auto
  from ex obtain r where "user_abs d uid = Some r"
    by (cases "user_abs d uid") (auto simp: user_abs_def index_by_None user_exists_def)
  then show ?thesis
    by (simp add: user_roles_abs d' user_abs_set_roles parse_roles_join valid)
qed

lemma set_roles_roundtrip_witness:
  "user_roles None 2 (snd (set_roles no_fault 2 [''dev'', ''ops-team''] example_db))
     = Inr [''dev'', ''ops-team'']"
proof -
  have "fst (set_roles no_fault 2 [''dev'', ''ops-team''] example_db) = Inr ()" by code_simp
  then have "set_roles no_fault 2 [''dev'', ''ops-team''] example_db
      = (Inr (), snd (set_roles no_fault 2 [''dev'', ''ops-team''] example_db))"
    by (metis prod.collapse)
  from set_roles_roundtrip [OF example_db_wf this] show ?thesis by blast
qed

text \<open>
  Identity is stable: over any run of sign-ins and role changes, with whatever failures, a
  user id keeps its Slack id and creation time, no user disappears, no id ever passes to another
  Slack account, and a roles column that parses keeps parsing.
\<close>

theorem identity_stable:
  assumes "db_wf d" and "user_abs d i = Some r"
  shows "\<exists>r'. user_abs (user_run ops d) i = Some r'
           \<and> ur_slack_user_id r' = ur_slack_user_id r \<and> ur_created_at r' = ur_created_at r
           \<and> (roles_ok d \<longrightarrow> \<not> isl (parse_roles (ur_roles r')))"
proof -
  let ?d = "user_run ops d"
  from assms have "(i, ur_slack_user_id r, ur_created_at r) \<in> identities d"
    by (force simp: user_abs_def identities_def dest: index_by_Some)
  then have "(i, ur_slack_user_id r, ur_created_at r) \<in> identities ?d"
    using user_run_identities by blast
  then obtain r' where r': "r' \<in> set (users ?d)" "ur_id r' = i"
    "ur_slack_user_id r' = ur_slack_user_id r" "ur_created_at r' = ur_created_at r"
    by (auto simp: identities_def)
  moreover have "user_abs ?d (ur_id r') = Some r'"
    using r'(1) user_run_wf [OF assms(1), of ops]
    by (simp add: user_abs_def db_wf_def index_by_mem)
  moreover have "roles_ok d \<longrightarrow> \<not> isl (parse_roles (ur_roles r'))"
    using r'(1) user_run_roles_ok [of d ops] by (auto simp: roles_ok_def)
  ultimately show ?thesis by auto
qed

lemma identity_stable_witness:
  "\<exists>r'. user_abs (user_run [UUpsert (seconds 900) no_fault example_claims,
                            USetRoles no_fault 1 [''ops'']] example_db) 1 = Some r'
     \<and> ur_slack_user_id r' = ''Uada''"
proof -
  have "user_abs example_db 1 = Some (example_user 1 ''ada'' ''admin,dev'')"
    by (simp add: user_abs_def example_db_def index_by_Cons example_user_def)
  from identity_stable [OF example_db_wf this, of "[UUpsert (seconds 900) no_fault example_claims,
                            USetRoles no_fault 1 [''ops'']]"]
  show ?thesis by (auto simp: example_user_def simp del: user_run.simps)
qed

text \<open>
  C18. Admin search: it returns at most 100 users, most recent login first and larger ids first
  among equals, each matching the pattern by address or name; when fewer than 100 come back,
  every user whose address or name contains the trimmed substring is among them.
\<close>

theorem search_sound_complete:
  assumes "user_search f substring d = Inr us"
  shows "length us \<le> default_search_limit
         \<and> sorted (map (\<lambda>u. (- us_last_login_at u, - us_id u)) us)
         \<and> (\<forall>u \<in> set us. \<exists>r \<in> set (users d). decode_user r = Inr u
              \<and> (sql_like (us_email u) (''%'' @ trim_space substring @ ''%'')
                 \<or> sql_like (us_name u) (''%'' @ trim_space substring @ ''%'')))
         \<and> (length us < default_search_limit \<longrightarrow>
              (\<forall>r \<in> set (users d). \<forall>a b.
                 runes (ur_email r) = a @ runes (trim_space substring) @ b
                   \<or> runes (ur_name r) = a @ runes (trim_space substring) @ b
                 \<longrightarrow> ur_id r \<in> us_id ` set us))"
proof -
  from assms have scan: "scan_users (sf_scan f) 0 (search_rows substring d) = Inr us"
    by (auto simp: user_search_def split: option.splits sum.splits)
  note len = scan_users_length [OF scan] and rel = scan_users_decode [OF scan]
  have 1: "length us \<le> default_search_limit"
    using len by (simp add: search_rows_def Let_def)
  have "list_all2 (\<lambda>r u. (- us_last_login_at u, - us_id u)
          = (case (- ur_last_login_at r, - ur_id r) of (a, b) \<Rightarrow> (- from_unix (- a), b)))
          (search_rows substring d) us"
    using rel by (rule list_all2_mono) (simp add: decode_user_login)
  then have 2: "sorted (map (\<lambda>u. (- us_last_login_at u, - us_id u)) us)"
    using sorted_search_rows login_key_mono by (rule list_all2_sorted)
  have 3: "\<exists>r \<in> set (users d). decode_user r = Inr u
              \<and> (sql_like (us_email u) (''%'' @ trim_space substring @ ''%'')
                 \<or> sql_like (us_name u) (''%'' @ trim_space substring @ ''%''))" if "u \<in> set us" for u
  proof -
    from list_all2_right [OF rel that]
    obtain r where "r \<in> set (search_rows substring d)" "decode_user r = Inr u" by blast
    with search_rows_mem [of r substring d] show ?thesis
      by (auto dest: decode_user_login)
  qed
  have 4: "ur_id r \<in> us_id ` set us"
    if "length us < default_search_limit" "r \<in> set (users d)"
      "runes (ur_email r) = a @ runes (trim_space substring) @ b
         \<or> runes (ur_name r) = a @ runes (trim_space substring) @ b" for r a b
  proof -
    have "r \<in> set (search_rows substring d)"
      using search_rows_complete [of substring d] len that sql_like_substring by auto
    from list_all2_left [OF rel this]
    obtain u where "u \<in> set us" "decode_user r = Inr u" by blast
    then show ?thesis by (force dest: decode_user_login)
  qed
  from 1 2 3 4 show ?thesis by blast
qed

definition no_search_fault :: search_fault where
  "no_search_fault = \<lparr>sf_query = None, sf_scan = (\<lambda>_. None), sf_rows = None\<rparr>"

lemma search_sound_complete_witness:
  "\<exists>us. user_search no_search_fault '' ADA@ex '' example_db = Inr us \<and> length us \<le> 100 \<and> map us_id us = [1]"
proof -
  have "map_sum id (map us_id) (user_search no_search_fault '' ADA@ex '' example_db) = Inr [1]"
    by code_simp
  then obtain us where "user_search no_search_fault '' ADA@ex '' example_db = Inr us" "map us_id us = [1]"
    by (cases "user_search no_search_fault '' ADA@ex '' example_db") auto
  with search_sound_complete [OF this(1)] show ?thesis by (auto simp: default_search_limit_def)
qed

end
