(* ===== verification/SshKeyStore.thy ===== *)
theory SshKeyStore
  imports Database "HOL-Library.Product_Lexorder"
begin

text \<open>
  \<open>internal/sshkey/store.go\<close>: the registered SSH public keys.  The fingerprint is the key of the
  table for every operation; the row id only orders the listing.
\<close>

section \<open>Store\<close>

record key =
  ky_id :: int
  ky_user_id :: int
  ky_fingerprint :: string
  ky_key_type :: string
  ky_public_key :: string
  ky_label :: string
  ky_created_at :: gotime
  ky_last_used_at :: gotime

definition is_unique_violation :: "err \<Rightarrow> bool" where
  "is_unique_violation e \<longleftrightarrow> str_contains (err_text e) ''UNIQUE constraint failed''"

text \<open>\<open>Add\<close>; the second statement fault is a failure to read the row id.\<close>

definition key_add ::
    "gotime \<Rightarrow> tx_fault \<Rightarrow> int \<Rightarrow> string \<Rightarrow> string \<Rightarrow> string \<Rightarrow> string \<Rightarrow> db \<Rightarrow> key result \<times> db" where
  "key_add now f user_id fingerprint key_type public_key label d =
     (case write_tx f (\<lambda>s.
         case stmt (ft_stmt f 0)
                (insert_key (\<lambda>i. \<lparr>kr_id = i, kr_user_id = user_id, kr_fingerprint = fingerprint,
                   kr_key_type = key_type, kr_public_key = public_key, kr_label = Some label,
                   kr_created_at = unix now, kr_last_used_at = None\<rparr>)) s of
           (Inl e, s') \<Rightarrow>
             (Inl (if is_unique_violation e then Sentinel FingerprintTaken
                   else Wrap ''sshkey: insert'' e), s')
         | (Inr new_id, s') \<Rightarrow>
             (case ft_stmt f 1 of
                Some e \<Rightarrow> (Inl (Wrap ''sshkey: last insert id'' e), s')
              | None \<Rightarrow> (Inr new_id, s'))) d of
        (Inl e, d') \<Rightarrow> (Inl e, d')
      | (Inr i, d') \<Rightarrow>
          (Inr \<lparr>ky_id = i, ky_user_id = user_id, ky_fingerprint = fingerprint,
                ky_key_type = key_type, ky_public_key = public_key, ky_label = label,
                ky_created_at = now, ky_last_used_at = zero_time\<rparr>, d'))"

definition decode_key :: "key_row \<Rightarrow> key" where
  "decode_key r =
     \<lparr>ky_id = kr_id r, ky_user_id = kr_user_id r, ky_fingerprint = kr_fingerprint r,
      ky_key_type = kr_key_type r, ky_public_key = kr_public_key r,
      ky_label = (case kr_label r of None \<Rightarrow> [] | Some l \<Rightarrow> l),
      ky_created_at = from_unix (kr_created_at r),
      ky_last_used_at = (case kr_last_used_at r of None \<Rightarrow> zero_time | Some t \<Rightarrow> from_unix t)\<rparr>"

definition key_get :: "err option \<Rightarrow> string \<Rightarrow> db \<Rightarrow> key result" where
  "key_get fault fingerprint d =
     (case fault of
        Some e \<Rightarrow> Inl (Wrap ''sshkey: select'' e)
      | None \<Rightarrow>
     (case find (\<lambda>r. kr_fingerprint r = fingerprint) (ssh_keys d) of
        None \<Rightarrow> Inl (Sentinel KeyNotFound)
      | Some r \<Rightarrow> Inr (decode_key r)))"

definition user_key_rows :: "int \<Rightarrow> db \<Rightarrow> key_row list" where
  "user_key_rows uid d =
     sort_key (\<lambda>r. (kr_created_at r, kr_id r)) (filter (\<lambda>r. kr_user_id r = uid) (ssh_keys d))"

record list_fault =
  lf_query :: "err option"
  lf_scan :: "nat \<Rightarrow> err option"
  lf_rows :: "err option"

fun scan_keys :: "(nat \<Rightarrow> err option) \<Rightarrow> nat \<Rightarrow> key_row list \<Rightarrow> key list result" where
  "scan_keys scan i [] = Inr []"
| "scan_keys scan i (r # rs) =
     (case scan i of
        Some e \<Rightarrow> Inl (Wrap ''sshkey: scan'' e)
      | None \<Rightarrow>
     (case scan_keys scan (Suc i) rs of Inl e \<Rightarrow> Inl e | Inr ks \<Rightarrow> Inr (decode_key r # ks)))"

definition key_list_by_user :: "list_fault \<Rightarrow> int \<Rightarrow> db \<Rightarrow> key list result" where
  "key_list_by_user f uid d =
     (case lf_query f of
        Some e \<Rightarrow> Inl (Wrap ''sshkey: list by user'' e)
      | None \<Rightarrow>
     (case scan_keys (lf_scan f) 0 (user_key_rows uid d) of
        Inl e \<Rightarrow> Inl e
      | Inr ks \<Rightarrow> (case lf_rows f of Some e \<Rightarrow> Inl (Wrap ''sshkey: rows'' e) | None \<Rightarrow> Inr ks)))"

definition delete_key_rows :: "string \<Rightarrow> db \<Rightarrow> unit result \<times> db" where
  "delete_key_rows fingerprint d =
     (Inr (), d\<lparr>ssh_keys := filter (\<lambda>r. kr_fingerprint r \<noteq> fingerprint) (ssh_keys d)\<rparr>)"

definition key_remove :: "tx_fault \<Rightarrow> string \<Rightarrow> db \<Rightarrow> unit result \<times> db" where
  "key_remove f fingerprint d =
     write_tx f (\<lambda>s. case stmt (ft_stmt f 0) (delete_key_rows fingerprint) s of
                       (Inl e, s') \<Rightarrow> (Inl (Wrap ''sshkey: delete'' e), s')
                     | (Inr _, s') \<Rightarrow> (Inr (), s')) d"

definition stamp_key_rows :: "string \<Rightarrow> int \<Rightarrow> db \<Rightarrow> unit result \<times> db" where
  "stamp_key_rows fingerprint t d =
     (Inr (), d\<lparr>ssh_keys := map (\<lambda>r. if kr_fingerprint r = fingerprint
                                      then r\<lparr>kr_last_used_at := Some t\<rparr> else r) (ssh_keys d)\<rparr>)"

definition key_touch_last_used :: "gotime \<Rightarrow> tx_fault \<Rightarrow> string \<Rightarrow> db \<Rightarrow> unit result \<times> db" where
  "key_touch_last_used now f fingerprint d =
     write_tx f (\<lambda>s. case stmt (ft_stmt f 0) (stamp_key_rows fingerprint (unix now)) s of
                       (Inl e, s') \<Rightarrow> (Inl (Wrap ''sshkey: touch last_used_at'' e), s')
                     | (Inr _, s') \<Rightarrow> (Inr (), s')) d"

section \<open>What the store promises: a map from fingerprints to rows\<close>

definition key_abs :: "db \<Rightarrow> string \<Rightarrow> key_row option" where
  "key_abs d = index_by kr_fingerprint (ssh_keys d)"

datatype key_op =
    KAdd gotime tx_fault int string string string string
  | KRemove tx_fault string
  | KTouch gotime tx_fault string

fun key_exec :: "key_op \<Rightarrow> db \<Rightarrow> bool \<times> db" where
  "key_exec (KAdd now f uid fp kt pk label) d =
     (let (r, d') = key_add now f uid fp kt pk label d in (\<not> isl r, d'))"
| "key_exec (KRemove f fp) d = (let (r, d') = key_remove f fp d in (\<not> isl r, d'))"
| "key_exec (KTouch now f fp) d = (let (r, d') = key_touch_last_used now f fp d in (\<not> isl r, d'))"

lemma key_get_abs:
  "key_get None fp d =
     (case key_abs d fp of None \<Rightarrow> Inl (Sentinel KeyNotFound) | Some r \<Rightarrow> Inr (decode_key r))"
  by (simp add: key_get_def key_abs_def find_index_by)

lemma key_add_cases:
  assumes "key_add now f uid fp kt pk label d = (r, d')"
  shows "(isl r \<and> d' = d) \<or>
         (\<exists>row k. r = Inr k \<and> key_abs d fp = None \<and> user_exists d uid
            \<and> row = \<lparr>kr_id = ssh_keys_seq d + 1, kr_user_id = uid, kr_fingerprint = fp,
                     kr_key_type = kt, kr_public_key = pk, kr_label = Some label,
                     kr_created_at = unix now, kr_last_used_at = None\<rparr>
            \<and> d' = d\<lparr>ssh_keys := ssh_keys d @ [row], ssh_keys_seq := ssh_keys_seq d + 1\<rparr>
            \<and> decode_key row = k\<lparr>ky_created_at := from_unix (unix now)\<rparr>)"
  using assms
  by (auto simp: key_add_def stmt_def insert_key_def Let_def key_abs_def index_by_None decode_key_def
      split: option.splits sum.splits prod.splits if_splits dest!: write_tx_Inr write_tx_Inl)

lemma key_remove_cases:
  "key_remove f fp d = (r, d') \<Longrightarrow>
     (isl r \<and> d' = d) \<or>
     (r = Inr () \<and> d' = d\<lparr>ssh_keys := filter (\<lambda>r. kr_fingerprint r \<noteq> fp) (ssh_keys d)\<rparr>)"
  by (cases r) (auto simp: key_remove_def stmt_def delete_key_rows_def
      split: option.splits dest!: write_tx_Inr write_tx_Inl)

lemma key_touch_cases:
  "key_touch_last_used now f fp d = (r, d') \<Longrightarrow>
     (isl r \<and> d' = d) \<or>
     (r = Inr () \<and> d' = d\<lparr>ssh_keys := map (\<lambda>r. if kr_fingerprint r = fp
          then r\<lparr>kr_last_used_at := Some (unix now)\<rparr> else r) (ssh_keys d)\<rparr>)"
  by (cases r) (auto simp: key_touch_last_used_def stmt_def stamp_key_rows_def
      split: option.splits dest!: write_tx_Inr write_tx_Inl)

lemma db_wf_filter_keys: "db_wf d \<Longrightarrow> db_wf (d\<lparr>ssh_keys := filter P (ssh_keys d)\<rparr>)"
  by (auto simp: db_wf_def user_exists_def distinct_map_filter)

lemma db_wf_map_keys:
  assumes "db_wf d" and "\<And>x. kr_id (g x) = kr_id x \<and> kr_fingerprint (g x) = kr_fingerprint x
                            \<and> kr_user_id (g x) = kr_user_id x"
  shows "db_wf (d\<lparr>ssh_keys := map g (ssh_keys d)\<rparr>)"
proof -
  have "map kr_id (map g (ssh_keys d)) = map kr_id (ssh_keys d)"
    and "map kr_fingerprint (map g (ssh_keys d)) = map kr_fingerprint (ssh_keys d)"
    using assms(2) by auto
  then show ?thesis using assms
    by (auto simp: db_wf_def user_exists_def simp del: map_map)
qed

lemma db_wf_append_key:
  "db_wf d \<Longrightarrow> key_abs d (kr_fingerprint r) = None \<Longrightarrow> user_exists d (kr_user_id r) \<Longrightarrow>
     kr_id r = ssh_keys_seq d + 1 \<Longrightarrow>
     db_wf (d\<lparr>ssh_keys := ssh_keys d @ [r], ssh_keys_seq := ssh_keys_seq d + 1\<rparr>)"
  by (fastforce simp: db_wf_def user_exists_def key_abs_def index_by_None)

lemma key_exec_wf:
  assumes "db_wf d" and "key_exec op d = (ok, d')"
  shows "db_wf d'"
proof (cases op)
  case (KAdd now f uid fp kt pk label)
  with assms show ?thesis
    by (auto split: prod.splits dest!: key_add_cases intro!: db_wf_append_key)
next
  case (KRemove f fp)
  with assms show ?thesis
    by (auto simp: db_wf_filter_keys split: prod.splits dest!: key_remove_cases)
next
  case (KTouch now f fp)
  with assms show ?thesis
    by (auto split: prod.splits dest!: key_touch_cases intro!: db_wf_map_keys)
qed

lemma key_exec_frame [frame]:
  "key_exec op d = (ok, d') \<Longrightarrow>
     users d' = users d \<and> users_seq d' = users_seq d \<and> sessions d' = sessions d"
  by (cases op) (auto split: prod.splits dest!: key_add_cases key_remove_cases key_touch_cases)

lemma key_abs_append:
  "key_abs d (kr_fingerprint r) = None \<Longrightarrow>
     key_abs (d\<lparr>ssh_keys := ssh_keys d @ [r], ssh_keys_seq := n\<rparr>) = (key_abs d)(kr_fingerprint r \<mapsto> r)"
  by (simp add: key_abs_def index_by_None index_by_append)

lemma key_abs_remove:
  "key_abs (d\<lparr>ssh_keys := filter (\<lambda>r. kr_fingerprint r \<noteq> fp) (ssh_keys d)\<rparr>) = (key_abs d)(fp := None)"
  by (simp add: key_abs_def index_by_remove)

lemma key_abs_stamp:
  "key_abs (d\<lparr>ssh_keys := map (\<lambda>r. if kr_fingerprint r = fp
        then r\<lparr>kr_last_used_at := t\<rparr> else r) (ssh_keys d)\<rparr>) =
     (key_abs d)(fp := map_option (\<lambda>r. r\<lparr>kr_last_used_at := t\<rparr>) (key_abs d fp))"
  by (simp add: key_abs_def index_by_update)

text \<open>The owner of a fingerprint: the user the SSH side acts for.\<close>

definition key_owner :: "db \<Rightarrow> string \<Rightarrow> int option" where
  "key_owner d fp = map_option kr_user_id (key_abs d fp)"

lemma key_exec_owner:
  assumes "key_exec op d = (ok, d')"
  shows "key_owner d' fp = key_owner d fp \<or> (\<exists>f. op = KRemove f fp \<and> key_owner d' fp = None)
         \<or> (\<exists>now f uid kt pk l. op = KAdd now f uid fp kt pk l \<and> key_owner d fp = None
              \<and> key_owner d' fp = Some uid \<and> user_exists d uid)"
proof (cases op)
  case (KAdd now f uid fp' kt pk label)
  with assms show ?thesis
    by (auto simp: key_owner_def key_abs_append split: prod.splits if_splits dest!: key_add_cases)
next
  case (KRemove f fp')
  with assms show ?thesis
    by (auto simp: key_owner_def key_abs_remove split: prod.splits if_splits dest!: key_remove_cases)
next
  case (KTouch now f fp')
  with assms show ?thesis
    by (auto simp: key_owner_def key_abs_stamp option.map_comp comp_def split: prod.splits if_splits
        dest!: key_touch_cases)
qed

fun key_run :: "key_op list \<Rightarrow> db \<Rightarrow> db" where
  "key_run [] d = d"
| "key_run (op # ops) d = key_run ops (snd (key_exec op d))"

section \<open>Listing\<close>

lemma scan_keys_decode: "scan_keys sc i rs = Inr ks \<Longrightarrow> ks = map decode_key rs"
  by (induction rs arbitrary: i ks) (auto split: option.splits sum.splits)

lemma sorted_user_key_rows: "sorted (map (\<lambda>r. (kr_created_at r, kr_id r)) (user_key_rows uid d))"
  by (simp add: user_key_rows_def)

lemma key_run_owner:
  assumes "key_owner d fp = Some uid" and "\<And>f. KRemove f fp \<notin> set ops"
  shows "key_owner (key_run ops d) fp = Some uid"
  using assms
proof (induction ops arbitrary: d)
  case (Cons op ops)
  obtain ok d' where e: "key_exec op d = (ok, d')" by (cases "key_exec op d")
  from key_exec_owner [OF e, of fp] Cons.prems have "key_owner d' fp = Some uid" by auto
  with Cons e show ?case by simp
qed simp

lemma key_run_wf: "db_wf d \<Longrightarrow> db_wf (key_run ops d)"
proof (induction ops arbitrary: d)
  case (Cons op ops)
  then show ?case using key_exec_wf [OF Cons.prems, of op "fst (key_exec op d)" "snd (key_exec op d)"]
    by simp
qed simp

section \<open>Properties\<close>

text \<open>
  A key never changes hands: once a fingerprint is registered to a user it stays that user's
  over any run of registrations, removals and stamps that does not remove it, and registering it
  again is refused with the fingerprint-taken error.
\<close>

theorem key_owner_stable:
  assumes "db_wf d" and "key_owner d fp = Some uid" and "\<forall>f. KRemove f fp \<notin> set ops"
  shows "key_owner (key_run ops d) fp = Some uid
         \<and> fst (key_add now no_fault uid' fp kt pk label (key_run ops d)) = Inl (Sentinel FingerprintTaken)"
proof -
  have o: "key_owner (key_run ops d) fp = Some uid"
    using assms by (intro key_run_owner) auto
  then have "fp \<in> kr_fingerprint ` set (ssh_keys (key_run ops d))"
    by (auto simp: key_owner_def key_abs_def dest: index_by_Some)
  moreover have "is_unique_violation (unique_error ''ssh_keys.fingerprint'')" by code_simp
  ultimately show ?thesis using o
    by (simp add: key_add_def insert_key_def Let_def stmt_def no_fault_def write_tx_eq)
qed

definition example_key_db :: db where
  "example_key_db = snd (key_add (seconds 700) no_fault 1 ''SHA256:x'' ''ssh-ed25519'' ''blob'' ''laptop'' example_db)"

lemma example_key_db_wf [simp]: "db_wf example_key_db"
  using key_exec_wf [OF example_db_wf, of "KAdd (seconds 700) no_fault 1 ''SHA256:x'' ''ssh-ed25519'' ''blob'' ''laptop''"]
  by (simp add: example_key_db_def Let_def split_beta)

lemma key_owner_stable_witness:
  "key_owner (key_run [KAdd (seconds 800) no_fault 2 ''SHA256:x'' ''ssh-rsa'' ''b'' ''l'',
                       KTouch (seconds 801) no_fault ''SHA256:x''] example_key_db) ''SHA256:x'' = Some 1"
proof -
  have "key_owner example_key_db ''SHA256:x'' = Some 1" by code_simp
  then show ?thesis
    using key_owner_stable [OF example_key_db_wf, of "''SHA256:x''" 1
        "[KAdd (seconds 800) no_fault 2 ''SHA256:x'' ''ssh-rsa'' ''b'' ''l'',
          KTouch (seconds 801) no_fault ''SHA256:x'']"]
    by simp
qed

text \<open>
  Registered keys are found: after a successful registration the lookup of the fingerprint
  returns the stored key and every other lookup is as before, and a listing returns exactly the
  keys of the user, oldest first.
\<close>

theorem key_add_get_list:
  assumes "db_wf d" and "key_add now f uid fp kt pk label d = (Inr k, d')"
    and "key_list_by_user lf v d' = Inr ks"
  shows "key_get None fp d' = Inr (k\<lparr>ky_created_at := from_unix (unix now)\<rparr>)
         \<and> (\<forall>g. g \<noteq> fp \<longrightarrow> key_get None g d' = key_get None g d)
         \<and> set ks = decode_key ` {r \<in> set (ssh_keys d'). kr_user_id r = v}
         \<and> sorted (map (\<lambda>r. (kr_created_at r, kr_id r)) (user_key_rows v d'))
         \<and> ks = map decode_key (user_key_rows v d')"
proof -
  have ks: "ks = map decode_key (user_key_rows v d')"
    using assms(3) by (auto simp: key_list_by_user_def split: option.splits sum.splits
        dest: scan_keys_decode)
  then have "set ks = decode_key ` {r \<in> set (ssh_keys d'). kr_user_id r = v}"
    by (simp add: user_key_rows_def)
  moreover from key_add_cases [OF assms(2)]
  obtain row where "key_abs d fp = None" "kr_fingerprint row = fp"
    "d' = d\<lparr>ssh_keys := ssh_keys d @ [row], ssh_keys_seq := ssh_keys_seq d + 1\<rparr>"
    "decode_key row = k\<lparr>ky_created_at := from_unix (unix now)\<rparr>"
    by (elim disjE exE conjE) (force | simp)+
  ultimately show ?thesis
    using ks sorted_user_key_rows by (simp add: key_get_abs key_abs_append)
qed

lemma key_add_get_list_witness:
  "let d' = example_key_db in
     map_sum id ky_user_id (key_get None ''SHA256:x'' d') = Inr 1"
proof -
  let ?c = "key_add (seconds 700) no_fault 1 ''SHA256:x'' ''ssh-ed25519'' ''blob'' ''laptop'' example_db"
  let ?l = "key_list_by_user \<lparr>lf_query = None, lf_scan = (\<lambda>_. None), lf_rows = None\<rparr> 1 (snd ?c)"
  have "map_sum id ky_user_id (fst ?c) = Inr 1" by code_simp
  then obtain k where k: "fst ?c = Inr k" "ky_user_id k = 1" by (cases "fst ?c") auto
  have "\<not> isl ?l" by code_simp
  then obtain ks where "?l = Inr ks" by (cases ?l) auto
  with key_add_get_list [OF example_db_wf, of "seconds 700" no_fault 1 "''SHA256:x''" "''ssh-ed25519''"
      "''blob''" "''laptop''" k "snd ?c"] k
  show ?thesis by (simp add: example_key_db_def prod_eq_iff)
qed

end
