(* ===== verification/Config.thy ===== *)
theory Config
  imports GoUrl Prelude
begin

text \<open>
  \<open>internal/config/config.go\<close>: the configuration read from the environment, the two upstream
  grammars and the role gate \<open>Upstream.Permits\<close>.

  The environment is a function from names to values (\<open>os.Getenv\<close> answers the empty string for
  an unset variable) and \<open>os.Stat\<close> a function from paths to what it finds; the Go maps are
  association lists in order of insertion.  Parse errors are constructors that carry the values
  the Go messages print.
\<close>

section \<open>Upstreams and roles\<close>

record upstream =
  up_target :: url
  up_required_roles :: "string list"

definition gated :: "upstream \<Rightarrow> bool" where
  "gated u \<longleftrightarrow> 0 < length (up_required_roles u)"

definition permits :: "upstream \<Rightarrow> string list \<Rightarrow> bool" where
  "permits u user_roles =
     (if \<not> gated u then True
      else list_ex (\<lambda>role. role \<in> set (up_required_roles u)) user_roles)"

record ssh_upstream =
  su_port :: int
  su_target :: url
  su_allowed_roles :: "string list"

datatype entry_err =
    MissingEquals string
  | EmptyHostOrUrl string
  | EmptyUpstreamUrl string
  | LegacyFormat string
  | BadUrl string
  | BadScheme string string
  | MissingHost string
  | DuplicateHost string
  | EmptyRoleList string
  | EmptyRoleName string
  | InvalidRoleName string string
  | NoValidEntries
  | EmptyPort string
  | InvalidPort string string
  | PortOutOfRange string int
  | ReversedRange string int int
  | RangeTooWide string int
  | RoleListMissing string
  | EmptyTarget string
  | TargetMissingHost string
  | RangeTargetHasPort string string string
  | TargetMissingPort string
  | DuplicatePort string int
  | PerPortTarget string int

type_synonym 'a parsed = "entry_err + 'a"

text \<open>The loop over a role list, which both grammars share.\<close>

fun parse_role_names :: "string \<Rightarrow> string list \<Rightarrow> string list parsed" where
  "parse_role_names entry [] = Inr []"
| "parse_role_names entry (r0 # rs) =
     (let r = trim_space r0
      in if r = [] then Inl (EmptyRoleName entry)
         else if \<not> role_name_re r then Inl (InvalidRoleName entry r)
         else (case parse_role_names entry rs of Inl e \<Rightarrow> Inl e | Inr out \<Rightarrow> Inr (r # out)))"

definition legacy_entry_err :: "string \<Rightarrow> string \<Rightarrow> entry_err option" where
  "legacy_entry_err entry raw_url =
     (if \<not> str_contains raw_url '','' then None else Some (LegacyFormat entry))"

type_synonym upstream_map = "(string \<times> upstream) list"

text \<open>One turn of the loop of \<open>parseUpstreams\<close>.\<close>

definition parse_upstream_entry :: "string \<Rightarrow> upstream_map \<Rightarrow> upstream_map parsed" where
  "parse_upstream_entry entry0 m =
     (let entry = trim_space entry0
      in if entry = [] then Inr m
      else (case str_cut (CHR ''='') entry of (host0, rest0, ok) \<Rightarrow>
        if \<not> ok then Inl (MissingEquals entry)
        else
          let host = to_lower (trim_space host0); rest = trim_space rest0
          in if host = [] \<or> rest = [] then Inl (EmptyHostOrUrl entry)
          else (case str_cut (CHR ''|'') rest of (raw_url0, roles_raw0, has_roles) \<Rightarrow>
            let raw_url = trim_space raw_url0; roles_raw = trim_space roles_raw0
            in if raw_url = [] then Inl (EmptyUpstreamUrl entry)
            else (case legacy_entry_err entry raw_url of
              Some e \<Rightarrow> Inl e
            | None \<Rightarrow>
            (case url_parse raw_url of
              None \<Rightarrow> Inl (BadUrl entry)
            | Some u \<Rightarrow>
                if u_scheme u \<noteq> ''http'' \<and> u_scheme u \<noteq> ''https''
                then Inl (BadScheme entry (u_scheme u))
                else if u_host u = [] then Inl (MissingHost entry)
                else if host \<in> fst ` set m then Inl (DuplicateHost entry)
                else if \<not> has_roles
                then Inr (m @ [(host, \<lparr>up_target = u, up_required_roles = []\<rparr>)])
                else if roles_raw = [] then Inl (EmptyRoleList entry)
                else (case parse_role_names entry (str_split (CHR '','') roles_raw) of
                        Inl e \<Rightarrow> Inl e
                      | Inr roles \<Rightarrow>
                          Inr (m @ [(host, \<lparr>up_target = u, up_required_roles = roles\<rparr>)])))))))"

fun parse_entries :: "(string \<Rightarrow> 'm \<Rightarrow> 'm parsed) \<Rightarrow> string list \<Rightarrow> 'm \<Rightarrow> 'm parsed" where
  "parse_entries step [] m = Inr m"
| "parse_entries step (e # es) m =
     (case step e m of Inl x \<Rightarrow> Inl x | Inr m' \<Rightarrow> parse_entries step es m')"

definition parse_upstreams :: "string \<Rightarrow> upstream_map parsed" where
  "parse_upstreams raw =
     (case parse_entries parse_upstream_entry (str_split (CHR '';'') raw) [] of
        Inl e \<Rightarrow> Inl e
      | Inr m \<Rightarrow> if m = [] then Inl NoValidEntries else Inr m)"

section \<open>SSH upstreams\<close>

definition max_ssh_port_range :: int where
  "max_ssh_port_range = 256"

definition parse_port :: "string \<Rightarrow> string \<Rightarrow> int parsed" where
  "parse_port entry raw =
     (case atoi (trim_space raw) of
        None \<Rightarrow> Inl (InvalidPort entry raw)
      | Some p \<Rightarrow> if p < 1 \<or> 65535 < p then Inl (PortOutOfRange entry p) else Inr p)"

definition parse_port_spec :: "string \<Rightarrow> string \<Rightarrow> (int \<times> int \<times> bool) parsed" where
  "parse_port_spec entry port_raw =
     (case str_cut (CHR ''-'') port_raw of (lo_raw, hi_raw, is_range) \<Rightarrow>
        if \<not> is_range then
          (case parse_port entry port_raw of Inl e \<Rightarrow> Inl e | Inr p \<Rightarrow> Inr (p, p, False))
        else
          (case parse_port entry lo_raw of
             Inl e \<Rightarrow> Inl e
           | Inr lo \<Rightarrow>
          (case parse_port entry hi_raw of
             Inl e \<Rightarrow> Inl e
           | Inr hi \<Rightarrow>
               if hi < lo then Inl (ReversedRange entry lo hi)
               else if max_ssh_port_range < hi - lo + 1 then Inl (RangeTooWide entry (hi - lo + 1))
               else Inr (lo, hi, True))))"

type_synonym ssh_upstream_map = "(int \<times> ssh_upstream) list"

text \<open>The loop that expands a port range.\<close>

fun expand_ports ::
    "string \<Rightarrow> url \<Rightarrow> bool \<Rightarrow> string list \<Rightarrow> int list \<Rightarrow> ssh_upstream_map \<Rightarrow> ssh_upstream_map parsed" where
  "expand_ports entry u is_range roles [] m = Inr m"
| "expand_ports entry u is_range roles (port # ports) m =
     (if port \<in> fst ` set m then Inl (DuplicatePort entry port)
      else (case (if is_range then url_parse (''ssh://'' @ url_hostname u @ '':'' @ itoa port) else Some u) of
              None \<Rightarrow> Inl (PerPortTarget entry port)
            | Some target \<Rightarrow>
                expand_ports entry u is_range roles ports
                  (m @ [(port, \<lparr>su_port = port, su_target = target, su_allowed_roles = roles\<rparr>)])))"

definition parse_ssh_entry :: "string \<Rightarrow> ssh_upstream_map \<Rightarrow> ssh_upstream_map parsed" where
  "parse_ssh_entry entry0 m =
     (let entry = trim_space entry0
      in if entry = [] then Inr m
      else (case str_cut (CHR ''='') entry of (port_raw0, rest0, ok) \<Rightarrow>
        if \<not> ok then Inl (MissingEquals entry)
        else
          let port_raw = trim_space port_raw0; rest = trim_space rest0
          in if port_raw = [] then Inl (EmptyPort entry)
          else (case parse_port_spec entry port_raw of
            Inl e \<Rightarrow> Inl e
          | Inr (lo, hi, is_range) \<Rightarrow>
          (case str_cut (CHR ''|'') rest of (target_raw0, roles_raw0, ok2) \<Rightarrow>
            if \<not> ok2 then Inl (RoleListMissing entry)
            else
              let target_raw = trim_space target_raw0; roles_raw = trim_space roles_raw0
              in if target_raw = [] then Inl (EmptyTarget entry)
              else if roles_raw = [] then Inl (EmptyRoleList entry)
              else (case url_parse (''ssh://'' @ target_raw) of
                None \<Rightarrow> Inl (BadUrl entry)
              | Some u \<Rightarrow>
                  if u_host u = [] then Inl (TargetMissingHost entry)
                  else if is_range \<and> url_port u \<noteq> []
                  then Inl (RangeTargetHasPort entry (url_hostname u) (u_host u))
                  else if \<not> is_range \<and> url_port u = [] then Inl (TargetMissingPort entry)
                  else (case parse_role_names entry (str_split (CHR '','') roles_raw) of
                    Inl e \<Rightarrow> Inl e
                  | Inr roles \<Rightarrow>
                      if roles = [] then Inl (EmptyRoleList entry)
                      else expand_ports entry u is_range roles [lo..hi] m))))))"

definition parse_ssh_upstreams :: "string \<Rightarrow> ssh_upstream_map parsed" where
  "parse_ssh_upstreams raw =
     (case parse_entries parse_ssh_entry (str_split (CHR '';'') raw) [] of
        Inl e \<Rightarrow> Inl e
      | Inr m \<Rightarrow> if m = [] then Inl NoValidEntries else Inr m)"

section \<open>Durations\<close>

text \<open>
  \<open>time.ParseDuration\<close>.  The library computes the fraction of a unit in floating point; here it
  is the exact quotient rounded down.
\<close>

definition two63 :: int where
  "two63 = 2 ^ 63"

definition digit :: "char \<Rightarrow> int" where
  "digit c = of_char c - 48"

text \<open>\<open>leadingInt\<close>: \<open>None\<close> is an overflow.\<close>

fun leading_int :: "int \<Rightarrow> string \<Rightarrow> (int \<times> string) option" where
  "leading_int x [] = Some (x, [])"
| "leading_int x (c # cs) =
     (if \<not> is_digit c then Some (x, c # cs)
      else if two63 div 10 < x then None
      else (let y = x * 10 + digit c in if two63 < y then None else leading_int y cs))"

text \<open>\<open>leadingFraction\<close>: the digits, the power of ten below them and the rest.\<close>

fun leading_fraction :: "int \<Rightarrow> int \<Rightarrow> bool \<Rightarrow> string \<Rightarrow> int \<times> int \<times> string" where
  "leading_fraction x scale overflow [] = (x, scale, [])"
| "leading_fraction x scale overflow (c # cs) =
     (if \<not> is_digit c then (x, scale, c # cs)
      else if overflow \<or> (two63 - 1) div 10 < x then leading_fraction x scale True cs
      else (let y = x * 10 + digit c
            in if two63 < y then leading_fraction x scale True cs
               else leading_fraction y (scale * 10) False cs))"

definition unit_nanos :: "string \<Rightarrow> int option" where
  "unit_nanos u =
     map_of [(''ns'', 1), (''us'', 1000), ([CHR 0xC2, CHR 0xB5] @ ''s'', 1000),
             ([CHR 0xCE, CHR 0xBC] @ ''s'', 1000), (''ms'', 1000000), (''s'', 1000000000),
             (''m'', 60 * 1000000000), (''h'', 3600 * 1000000000)] u"

definition unit_byte :: "char \<Rightarrow> bool" where
  "unit_byte c \<longleftrightarrow> c \<noteq> CHR ''.'' \<and> \<not> is_digit c"

text \<open>One number with its unit: its value in nanoseconds and the rest of the input.\<close>

definition duration_part :: "string \<Rightarrow> (int \<times> string) option" where
  "duration_part s =
     (case leading_int 0 s of
        None \<Rightarrow> None
      | Some (v, s1) \<Rightarrow>
          (let has_int = length s1 \<noteq> length s;
               dot = s1 \<noteq> [] \<and> hd s1 = CHR ''.'';
               (f, scale, s2) = (if dot then leading_fraction 0 1 False (tl s1) else (0, 1, s1));
               has_fraction = dot \<and> length s2 \<noteq> length (tl s1);
               unit = takeWhile unit_byte s2; rest = dropWhile unit_byte s2
           in if (s = [] \<or> \<not> (hd s = CHR ''.'' \<or> is_digit (hd s))) \<or> \<not> (has_int \<or> has_fraction)
                 \<or> unit = [] then None
              else (case unit_nanos unit of
                      None \<Rightarrow> None
                    | Some n \<Rightarrow>
                        if two63 div n < v then None
                        else (let w = v * n + f * n div scale
                              in if two63 < w then None else Some (w, rest)))))"

lemma leading_int_rest: "leading_int x s = Some (y, t) \<Longrightarrow> length t \<le> length s"
  by (induction s arbitrary: x) (auto simp: Let_def split: if_splits intro: le_SucI)

lemma leading_fraction_rest: "leading_fraction x sc ov s = (y, sc', t) \<Longrightarrow> length t \<le> length s"
  by (induction s arbitrary: x sc ov) (auto simp: Let_def split: if_splits intro: le_SucI)

lemma duration_part_rest: "duration_part s = Some (w, t) \<Longrightarrow> length t < length s"
proof -
  assume part: "duration_part s = Some (w, t)"
  then obtain v s1 where v: "leading_int 0 s = Some (v, s1)"
    by (auto simp: duration_part_def split: option.splits)
  obtain f scale s2 where fr:
    "(if s1 \<noteq> [] \<and> hd s1 = CHR ''.'' then leading_fraction 0 1 False (tl s1) else (0, 1, s1)) = (f, scale, s2)"
    by (metis prod_cases3)
  have "length s2 \<le> length s1"
    using fr by (cases s1) (auto split: if_splits dest: leading_fraction_rest intro: le_SucI)
  moreover have "length s1 \<le> length s" using v by (rule leading_int_rest)
  moreover have "t = dropWhile unit_byte s2" "takeWhile unit_byte s2 \<noteq> []"
    using part v fr by (auto simp: duration_part_def Let_def split: option.splits if_splits)
  moreover have "length (takeWhile unit_byte s2) + length (dropWhile unit_byte s2) = length s2"
    by (metis length_append takeWhile_dropWhile_id)
  ultimately show ?thesis by (metis add_gr_0 length_greater_0_conv less_add_same_cancel2 order_less_le_trans order_trans)
qed

function duration_loop :: "int \<Rightarrow> string \<Rightarrow> int option" where
  "duration_loop d s =
     (if s = [] then Some d
      else (case duration_part s of
              None \<Rightarrow> None
            | Some (w, rest) \<Rightarrow> if two63 < d + w then None else duration_loop (d + w) rest))"
  by pat_completeness auto
termination
  by (relation "measure (\<lambda>(d, s). length s)") (auto dest: duration_part_rest)

definition parse_duration :: "string \<Rightarrow> duration option" where
  "parse_duration s0 =
     (let signed = s0 \<noteq> [] \<and> hd s0 \<in> {CHR ''-'', CHR ''+''};
          neg = s0 \<noteq> [] \<and> hd s0 = CHR ''-'';
          s = (if signed then tl s0 else s0)
      in if s = ''0'' then Some 0
         else if s = [] then None
         else (case duration_loop 0 s of
                 None \<Rightarrow> None
               | Some d \<Rightarrow>
                   if neg then Some (- d)
                   else if two63 - 1 < d then None else Some d))"

section \<open>The environment\<close>

type_synonym env = "string \<Rightarrow> string"

definition getenv_default :: "env \<Rightarrow> string \<Rightarrow> string \<Rightarrow> string" where
  "getenv_default env key fallback =
     (let v = trim_space (env key) in if v \<noteq> [] then v else fallback)"

text \<open>A 64-bit integer after a multiplication that may wrap around.\<close>

definition wrap64 :: "int \<Rightarrow> int" where
  "wrap64 n = (n + 2 ^ 63) mod 2 ^ 64 - 2 ^ 63"

definition getenv_duration :: "env \<Rightarrow> string \<Rightarrow> duration \<Rightarrow> duration" where
  "getenv_duration env key fallback =
     (let v = trim_space (env key)
      in if v = [] then fallback
         else (case parse_duration v of
                 Some d \<Rightarrow> d
               | None \<Rightarrow>
                   (case atoi v of
                      Some n \<Rightarrow> wrap64 (n * nanos_per_sec)
                    | None \<Rightarrow> fallback)))"

text \<open>\<open>filepath.Clean\<close> and \<open>filepath.Dir\<close> on a Unix system.\<close>

fun clean_parts :: "bool \<Rightarrow> string list \<Rightarrow> string list \<Rightarrow> string list" where
  "clean_parts rooted stack [] = rev stack"
| "clean_parts rooted stack (p # ps) =
     (if p = [] \<or> p = ''.'' then clean_parts rooted stack ps
      else if p = ''..'' then
        (case stack of
           [] \<Rightarrow> clean_parts rooted (if rooted then [] else [p]) ps
         | q # qs \<Rightarrow> clean_parts rooted (if q = ''..'' then p # stack else qs) ps)
      else clean_parts rooted (p # stack) ps)"

definition path_clean :: "string \<Rightarrow> string" where
  "path_clean p =
     (let rooted = has_prefix p ''/'';
          body = str_join (clean_parts rooted [] (str_split (CHR ''/'') p)) ''/''
      in if rooted then CHR ''/'' # body else if body = [] then ''.'' else body)"

definition path_dir :: "string \<Rightarrow> string" where
  "path_dir p = (case last_cut (CHR ''/'') p of
                   None \<Rightarrow> path_clean [] | Some (dir, _) \<Rightarrow> path_clean (dir @ ''/''))"

datatype file_stat = IsDirectory | NotDirectory | StatFailed

section \<open>Load\<close>

record config =
  cf_listen_addr :: string
  cf_base_domain :: string
  cf_auth_host :: string
  cf_cookie_domain :: string
  cf_slack_client_id :: string
  cf_slack_client_secret :: string
  cf_slack_team_id :: string
  cf_db_path :: string
  cf_upstream_map :: upstream_map
  cf_session_lifetime :: duration
  cf_session_idle_timeout :: duration
  cf_proxy_secret :: string
  cf_default_landing_url :: string
  cf_ssh_upstreams :: ssh_upstream_map
  cf_ssh_host_key_path :: string
  cf_ssh_ca_key_path :: string
  cf_ssh_known_hosts_path :: string
  cf_ssh_listen_addr :: string
  cf_log_level :: string

datatype load_err =
    Required string
  | AuthHostNotSubdomain string string
  | SlackTeamMismatch string
  | SecretTooShort nat
  | DbDirStatFailed string
  | DbDirNotDirectory string
  | UpstreamsErr entry_err
  | UpstreamsRequired
  | IdleExceedsLifetime duration duration
  | BadLandingUrl string
  | SshUpstreamsErr entry_err
  | SshRequired string

text \<open>\<open>require\<close>: the trimmed value and the error it adds.\<close>

definition require_env :: "env \<Rightarrow> string \<Rightarrow> string \<times> load_err list" where
  "require_env env key =
     (let v = trim_space (env key) in (v, if v = [] then [Required key] else []))"

definition auth_host_errs :: "string \<Rightarrow> string \<Rightarrow> load_err list" where
  "auth_host_errs auth_host base_domain =
     (if auth_host \<noteq> [] \<and> \<not> has_suffix auth_host base_domain
      then [AuthHostNotSubdomain auth_host base_domain] else [])"

definition db_path_errs :: "(string \<Rightarrow> file_stat) \<Rightarrow> string \<Rightarrow> load_err list" where
  "db_path_errs stat db_path =
     (if db_path = [] then []
      else (let dir = path_dir db_path
            in case stat dir of
                 StatFailed \<Rightarrow> [DbDirStatFailed dir]
               | NotDirectory \<Rightarrow> [DbDirNotDirectory dir]
               | IsDirectory \<Rightarrow> []))"

definition load_upstreams :: "env \<Rightarrow> upstream_map \<times> load_err list" where
  "load_upstreams env =
     (let raw = trim_space (env ''UPSTREAMS'')
      in if raw = [] then ([], [UpstreamsRequired])
         else (case parse_upstreams raw of Inl e \<Rightarrow> ([], [UpstreamsErr e]) | Inr m \<Rightarrow> (m, [])))"

definition load_landing :: "env \<Rightarrow> string \<Rightarrow> string \<times> load_err list" where
  "load_landing env auth_host =
     (let dl = trim_space (env ''DEFAULT_LANDING_URL'')
      in if dl \<noteq> [] then
           (case url_parse dl of None \<Rightarrow> ([], [BadLandingUrl dl]) | Some _ \<Rightarrow> (dl, []))
         else if auth_host \<noteq> [] then (''https://'' @ auth_host @ ''/'', [])
         else ([], []))"

record ssh_settings =
  ss_upstreams :: ssh_upstream_map
  ss_host_key_path :: string
  ss_ca_key_path :: string
  ss_known_hosts_path :: string
  ss_listen_addr :: string

definition load_ssh :: "env \<Rightarrow> ssh_settings \<times> load_err list" where
  "load_ssh env =
     (let raw = trim_space (env ''SSH_UPSTREAMS'')
      in if raw = [] then
           (\<lparr>ss_upstreams = [], ss_host_key_path = [], ss_ca_key_path = [], ss_known_hosts_path = [],
             ss_listen_addr = []\<rparr>, [])
         else
           (let (m, e0) = (case parse_ssh_upstreams raw of
                             Inl e \<Rightarrow> ([], [SshUpstreamsErr e]) | Inr m \<Rightarrow> (m, []));
                host_key = trim_space (env ''SSH_HOST_KEY_PATH'');
                ca_key = trim_space (env ''SSH_CA_KEY_PATH'');
                known_hosts = trim_space (env ''SSH_KNOWN_HOSTS_PATH'')
            in (\<lparr>ss_upstreams = m, ss_host_key_path = host_key, ss_ca_key_path = ca_key,
                 ss_known_hosts_path = known_hosts,
                 ss_listen_addr = getenv_default env ''SSH_LISTEN_ADDR'' ''0.0.0.0''\<rparr>,
                e0 @ (if host_key = [] then [SshRequired ''SSH_HOST_KEY_PATH''] else [])
                   @ (if ca_key = [] then [SshRequired ''SSH_CA_KEY_PATH''] else [])
                   @ (if known_hosts = [] then [SshRequired ''SSH_KNOWN_HOSTS_PATH''] else []))))"

text \<open>
  \<open>Load\<close> fills the configuration while it collects its complaints; here the two are separate
  functions of the environment: the complaints in the order the code appends them, and the
  configuration it returns when there are none.
\<close>

abbreviation env_value :: "env \<Rightarrow> string \<Rightarrow> string" where
  "env_value env key \<equiv> fst (require_env env key)"

definition env_lifetime :: "env \<Rightarrow> duration" where
  "env_lifetime env = getenv_duration env ''SESSION_LIFETIME'' (seconds (30 * 24 * 3600))"

definition env_idle_timeout :: "env \<Rightarrow> duration" where
  "env_idle_timeout env = getenv_duration env ''SESSION_IDLE_TIMEOUT'' (seconds (14 * 24 * 3600))"

definition required_keys :: "string list" where
  "required_keys = [''BASE_DOMAIN'', ''AUTH_HOST'', ''SLACK_CLIENT_ID'', ''SLACK_CLIENT_SECRET'',
                    ''SLACK_TEAM_ID'', ''DB_PATH'', ''PROXY_SECRET'']"

definition load_errs :: "env \<Rightarrow> (string \<Rightarrow> file_stat) \<Rightarrow> load_err list" where
  "load_errs env stat =
     concat (map (\<lambda>key. snd (require_env env key)) required_keys)
     @ auth_host_errs (env_value env ''AUTH_HOST'') (env_value env ''BASE_DOMAIN'')
     @ (let team = env_value env ''SLACK_TEAM_ID''
        in if team \<noteq> [] \<and> \<not> slack_team_pattern team then [SlackTeamMismatch team] else [])
     @ (let secret = env_value env ''PROXY_SECRET''
        in if secret \<noteq> [] \<and> length secret < 32 then [SecretTooShort (length secret)] else [])
     @ db_path_errs stat (env_value env ''DB_PATH'')
     @ snd (load_upstreams env)
     @ (if env_lifetime env < env_idle_timeout env
        then [IdleExceedsLifetime (env_idle_timeout env) (env_lifetime env)] else [])
     @ snd (load_landing env (env_value env ''AUTH_HOST''))
     @ snd (load_ssh env)"

definition loaded :: "env \<Rightarrow> config" where
  "loaded env =
     (let base_domain = env_value env ''BASE_DOMAIN'';
          auth_host = env_value env ''AUTH_HOST'';
          ssh = fst (load_ssh env)
      in \<lparr>cf_listen_addr = getenv_default env ''LISTEN_ADDR'' '':8080'',
          cf_base_domain = base_domain, cf_auth_host = auth_host,
          cf_cookie_domain = (if base_domain \<noteq> [] then ''.'' @ trim_prefix base_domain ''.'' else []),
          cf_slack_client_id = env_value env ''SLACK_CLIENT_ID'',
          cf_slack_client_secret = env_value env ''SLACK_CLIENT_SECRET'',
          cf_slack_team_id = env_value env ''SLACK_TEAM_ID'',
          cf_db_path = env_value env ''DB_PATH'',
          cf_upstream_map = fst (load_upstreams env),
          cf_session_lifetime = env_lifetime env,
          cf_session_idle_timeout = env_idle_timeout env,
          cf_proxy_secret = env_value env ''PROXY_SECRET'',
          cf_default_landing_url = fst (load_landing env auth_host),
          cf_ssh_upstreams = ss_upstreams ssh,
          cf_ssh_host_key_path = ss_host_key_path ssh,
          cf_ssh_ca_key_path = ss_ca_key_path ssh,
          cf_ssh_known_hosts_path = ss_known_hosts_path ssh,
          cf_ssh_listen_addr = ss_listen_addr ssh,
          cf_log_level = getenv_default env ''LOG_LEVEL'' ''info''\<rparr>)"

definition load_config :: "env \<Rightarrow> (string \<Rightarrow> file_stat) \<Rightarrow> load_err list + config" where
  "load_config env stat =
     (let errs = load_errs env stat in if errs \<noteq> [] then Inl errs else Inr (loaded env))"

section \<open>Facts about the grammars\<close>

lemma parse_role_names_valid:
  "parse_role_names entry rs = Inr out \<Longrightarrow> list_all role_name_re out \<and> length out = length rs"
  by (induction rs arbitrary: out) (auto simp: Let_def split: if_splits sum.splits)

lemma parse_role_names_id: "list_all role_name_re rs \<Longrightarrow> parse_role_names entry rs = Inr rs"
  by (induction rs) (auto simp: Let_def)

lemma permits_iff:
  "permits u roles \<longleftrightarrow> up_required_roles u = [] \<or> set (up_required_roles u) \<inter> set roles \<noteq> {}"
  by (auto simp: permits_def gated_def list_ex_iff)

text \<open>The parts of an entry: the host before the first equals sign, and what follows it.\<close>

definition entry_host :: "string \<Rightarrow> string" where
  "entry_host entry = to_lower (trim_space (fst (str_cut (CHR ''='') (trim_space entry))))"

definition entry_rest :: "string \<Rightarrow> string" where
  "entry_rest entry = trim_space (fst (snd (str_cut (CHR ''='') (trim_space entry))))"

definition upstream_ok :: "string \<Rightarrow> string \<times> upstream \<Rightarrow> bool" where
  "upstream_ok entry p \<longleftrightarrow>
     fst p = entry_host entry \<and> fst p \<noteq> []
     \<and> u_scheme (up_target (snd p)) \<in> {''http'', ''https''} \<and> u_host (up_target (snd p)) \<noteq> []
     \<and> list_all role_name_re (up_required_roles (snd p))
     \<and> (gated (snd p) \<longleftrightarrow> CHR ''|'' \<in> set (entry_rest entry))"

lemma parse_upstream_entry_cases:
  assumes "parse_upstream_entry e m = Inr m'"
  shows "(trim_space e = [] \<and> m' = m) \<or>
         (trim_space e \<noteq> [] \<and> (\<exists>p. m' = m @ [p] \<and> upstream_ok e p \<and> fst p \<notin> fst ` set m))"
proof -
  obtain host0 rest0 ok where c1: "str_cut (CHR ''='') (trim_space e) = (host0, rest0, ok)"
    by (metis prod_cases3)
  obtain url0 roles0 hr where c2: "str_cut (CHR ''|'') (trim_space rest0) = (url0, roles0, hr)"
    by (metis prod_cases3)
  note flag = str_cut_flag [OF c2]
  show ?thesis
    using assms c1 c2 flag
    by (auto simp: parse_upstream_entry_def Let_def upstream_ok_def entry_host_def entry_rest_def gated_def
        split: if_splits option.splits sum.splits dest!: parse_role_names_valid)
qed

text \<open>
  The loop over entries: an invariant relating the entries consumed and the map built, when each
  step appends at most one element.
\<close>

lemma parse_entries_append:
  assumes step: "\<And>e m m'. step e m = Inr m' \<Longrightarrow>
      (blank e \<and> m' = m) \<or> (\<not> blank e \<and> (\<exists>p. m' = m @ [p] \<and> ok e p \<and> fst p \<notin> fst ` set m))"
    and run: "parse_entries step es m = Inr m'" and "distinct (map fst m)"
  shows "\<exists>new. m' = m @ new \<and> list_all2 ok (filter (\<lambda>e. \<not> blank e) es) new \<and> distinct (map fst m')"
  using run \<open>distinct (map fst m)\<close>
proof (induction es arbitrary: m)
  case (Cons e es)
  then obtain m1 where s: "step e m = Inr m1" and r: "parse_entries step es m1 = Inr m'"
    by (auto split: sum.splits)
  from step [OF s] show ?case
  proof (elim disjE conjE exE)
    assume "blank e" "m1 = m"
    with Cons.IH [OF r] Cons.prems show ?thesis by auto
  next
    fix p
    assume p: "\<not> blank e" "m1 = m @ [p]" "ok e p" "fst p \<notin> fst ` set m"
    with Cons.prems have "distinct (map fst m1)" by auto
    from Cons.IH [OF r this] p show ?thesis by auto
  qed
qed simp

lemma parse_upstreams_entries:
  assumes "parse_upstreams raw = Inr m"
  shows "m \<noteq> [] \<and> distinct (map fst m)
         \<and> list_all2 upstream_ok (filter (\<lambda>e. trim_space e \<noteq> []) (str_split (CHR '';'') raw)) m"
proof -
  from assms have run: "parse_entries parse_upstream_entry (str_split (CHR '';'') raw) [] = Inr m"
    and ne: "m \<noteq> []"
    by (auto simp: parse_upstreams_def split: sum.splits if_splits)
  from parse_entries_append [where blank = "\<lambda>e. trim_space e = []" and ok = upstream_ok,
      OF parse_upstream_entry_cases run] ne
  show ?thesis by auto
qed

section \<open>Facts about SSH upstreams\<close>

lemma parse_port_range: "parse_port entry raw = Inr p \<Longrightarrow> 1 \<le> p \<and> p \<le> 65535"
  by (auto simp: parse_port_def split: option.splits if_splits)

lemma parse_port_spec_range:
  "parse_port_spec entry raw = Inr (lo, hi, is_range) \<Longrightarrow>
     1 \<le> lo \<and> lo \<le> hi \<and> hi \<le> 65535 \<and> hi - lo + 1 \<le> max_ssh_port_range \<and> (\<not> is_range \<longrightarrow> hi = lo)"
  by (auto simp: parse_port_spec_def max_ssh_port_range_def split: prod.splits if_splits sum.splits
      dest!: parse_port_range)

definition ssh_upstream_ok :: "int \<times> ssh_upstream \<Rightarrow> bool" where
  "ssh_upstream_ok p \<longleftrightarrow>
     su_port (snd p) = fst p \<and> 1 \<le> fst p \<and> fst p \<le> 65535
     \<and> su_allowed_roles (snd p) \<noteq> [] \<and> list_all role_name_re (su_allowed_roles (snd p))"

lemma expand_ports_ok:
  assumes "expand_ports entry u is_range roles ports m = Inr m'"
    and "distinct (map fst m)" and "list_all ssh_upstream_ok m"
    and "\<forall>p \<in> set ports. 1 \<le> p \<and> p \<le> 65535" and "roles \<noteq> []" and "list_all role_name_re roles"
  shows "distinct (map fst m') \<and> list_all ssh_upstream_ok m' \<and> map fst m' = map fst m @ ports"
  using assms
proof (induction entry u is_range roles ports m rule: expand_ports.induct)
  case (2 entry u is_range roles port ports m)
  from 2(2) obtain target where t: "port \<notin> fst ` set m"
    "(if is_range then url_parse (''ssh://'' @ url_hostname u @ '':'' @ itoa port) else Some u) = Some target"
    "expand_ports entry u is_range roles ports
       (m @ [(port, \<lparr>su_port = port, su_target = target, su_allowed_roles = roles\<rparr>)]) = Inr m'"
    by (auto split: if_splits option.splits)
  let ?m = "m @ [(port, \<lparr>su_port = port, su_target = target, su_allowed_roles = roles\<rparr>)]"
  have "distinct (map fst ?m)" using 2(3) t(1) by simp
  moreover have "list_all ssh_upstream_ok ?m" using 2(4-) by (simp add: ssh_upstream_ok_def [of "(_, _)"])
  ultimately have "distinct (map fst m') \<and> list_all ssh_upstream_ok m' \<and> map fst m' = map fst ?m @ ports"
    using 2(5-) by (intro 2(1) [OF t(1) t(2) t(3)]) simp_all
  then show ?case by (elim conjE, intro conjI) (assumption, assumption, simp)
qed simp

lemma parse_ssh_entry_ok:
  assumes "parse_ssh_entry e m = Inr m'" and "distinct (map fst m)" and "list_all ssh_upstream_ok m"
  shows "distinct (map fst m') \<and> list_all ssh_upstream_ok m'"
  using assms
  by (auto simp: parse_ssh_entry_def Let_def split: if_splits prod.splits sum.splits option.splits
      dest!: expand_ports_ok parse_port_spec_range parse_role_names_valid)

lemma parse_ssh_entries_ok:
  "parse_entries parse_ssh_entry es m = Inr m' \<Longrightarrow> distinct (map fst m) \<Longrightarrow>
     list_all ssh_upstream_ok m \<Longrightarrow> distinct (map fst m') \<and> list_all ssh_upstream_ok m'"
  by (induction es arbitrary: m) (auto split: sum.splits dest: parse_ssh_entry_ok)

lemma parse_ssh_upstreams_ok:
  "parse_ssh_upstreams raw = Inr m \<Longrightarrow> m \<noteq> [] \<and> distinct (map fst m) \<and> list_all ssh_upstream_ok m"
  by (auto simp: parse_ssh_upstreams_def split: sum.splits if_splits dest: parse_ssh_entries_ok)

section \<open>Properties\<close>

text \<open>
  C19. \<open>UPSTREAMS\<close> is read soundly: when it parses, every non-blank entry between semicolons gave
  one upstream, in order and under distinct lower-case hosts, with an http or https target that
  has a host and valid role names; and the upstream is gated by roles exactly when the entry
  carries a \<open>|\<close>, so an entry with a role list never ends up open to everyone.
\<close>

theorem parse_upstreams_sound:
  assumes "parse_upstreams raw = Inr m"
  shows "m \<noteq> [] \<and> distinct (map fst m)
         \<and> list_all2 upstream_ok (filter (\<lambda>e. trim_space e \<noteq> []) (str_split (CHR '';'') raw)) m
         \<and> (\<forall>(h, u) \<in> set m. \<forall>roles. permits u roles \<longleftrightarrow>
               up_required_roles u = [] \<or> set (up_required_roles u) \<inter> set roles \<noteq> {})"
  using parse_upstreams_entries [OF assms] by (auto simp: permits_iff)

definition example_upstreams :: string where
  "example_upstreams = ''app.forgeutah.tech=http://app:8080; Wiki.forgeutah.tech = https://wiki | dev, ops''"

lemma example_upstreams_parse:
  "map_sum id (map (\<lambda>(h, u). (h, url_string (up_target u), up_required_roles u)))
     (parse_upstreams example_upstreams) =
   Inr [(''app.forgeutah.tech'', ''http://app:8080'', []),
        (''wiki.forgeutah.tech'', ''https://wiki'', [''dev'', ''ops''])]"
  by code_simp

lemma parse_upstreams_sound_witness:
  "\<exists>m. parse_upstreams example_upstreams = Inr m \<and> length m = 2 \<and> distinct (map fst m)"
proof -
  from example_upstreams_parse obtain m where m: "parse_upstreams example_upstreams = Inr m" "length m = 2"
    by (cases "parse_upstreams example_upstreams") auto
  with parse_upstreams_sound [OF m(1)] show ?thesis by blast
qed

text \<open>
  \<open>SSH_UPSTREAMS\<close> is read soundly: when it parses, the ports are distinct and valid, each
  entry is stored under its own port, and each has a non-empty list of valid role names, so no
  SSH listener is open to every member.
\<close>

theorem parse_ssh_upstreams_sound:
  assumes "parse_ssh_upstreams raw = Inr m"
  shows "m \<noteq> [] \<and> distinct (map fst m)
         \<and> (\<forall>(port, su) \<in> set m. su_port su = port \<and> 1 \<le> port \<and> port \<le> 65535
              \<and> su_allowed_roles su \<noteq> [] \<and> list_all role_name_re (su_allowed_roles su))"
  using parse_ssh_upstreams_ok [OF assms] by (auto simp: list_all_iff ssh_upstream_ok_def)

definition example_ssh_upstreams :: string where
  "example_ssh_upstreams = ''2222=deuce:22|dev; 2300-2302 = trey | dev,ops''"

lemma example_ssh_parse:
  "map_sum id (map (\<lambda>(p, s). (p, u_host (su_target s), su_allowed_roles s)))
     (parse_ssh_upstreams example_ssh_upstreams) =
   Inr [(2222, ''deuce:22'', [''dev'']), (2300, ''trey:2300'', [''dev'', ''ops'']),
        (2301, ''trey:2301'', [''dev'', ''ops'']), (2302, ''trey:2302'', [''dev'', ''ops''])]"
  by code_simp

lemma parse_ssh_upstreams_sound_witness:
  "\<exists>m. parse_ssh_upstreams example_ssh_upstreams = Inr m \<and> length m = 4 \<and> distinct (map fst m)"
proof -
  from example_ssh_parse obtain m where m: "parse_ssh_upstreams example_ssh_upstreams = Inr m" "length m = 4"
    by (cases "parse_ssh_upstreams example_ssh_upstreams") auto
  with parse_ssh_upstreams_sound [OF m(1)] show ?thesis by blast
qed

text \<open>
  A port range whose target is an IPv6 address in brackets parses, but the per-port targets lose
  the brackets: the host of port 2300 becomes \<open>::1:2300\<close>, which no dialer accepts.
\<close>

lemma ssh_range_drops_ipv6_brackets:
  "map_sum id (map (\<lambda>(p, s). (p, u_host (su_target s))))
     (parse_ssh_upstreams ''2300-2301=[::1]|dev'') = Inr [(2300, ''::1:2300''), (2301, ''::1:2301'')]"
  by code_simp

lemma load_config_Inr: "load_config env stat = Inr c \<longleftrightarrow> load_errs env stat = [] \<and> c = loaded env"
  by (auto simp: load_config_def Let_def)

lemma require_env_ok: "snd (require_env env key) = [] \<longleftrightarrow> fst (require_env env key) \<noteq> []"
  by (simp add: require_env_def Let_def)

lemma load_upstreams_ok:
  "snd (load_upstreams env) = [] \<longleftrightarrow>
     trim_space (env ''UPSTREAMS'') \<noteq> []
     \<and> parse_upstreams (trim_space (env ''UPSTREAMS'')) = Inr (fst (load_upstreams env))"
  by (auto simp: load_upstreams_def Let_def split: sum.splits)

lemma load_ssh_ok:
  "snd (load_ssh env) = [] \<Longrightarrow>
     ss_upstreams (fst (load_ssh env)) = [] \<or>
     (parse_ssh_upstreams (trim_space (env ''SSH_UPSTREAMS'')) = Inr (ss_upstreams (fst (load_ssh env)))
      \<and> ss_host_key_path (fst (load_ssh env)) \<noteq> [] \<and> ss_ca_key_path (fst (load_ssh env)) \<noteq> []
      \<and> ss_known_hosts_path (fst (load_ssh env)) \<noteq> [])"
  by (auto simp: load_ssh_def Let_def split: sum.splits if_splits)

lemma load_errs_Nil:
  "load_errs env stat = [] \<longleftrightarrow>
     list_all (\<lambda>key. env_value env key \<noteq> []) required_keys
     \<and> has_suffix (env_value env ''AUTH_HOST'') (env_value env ''BASE_DOMAIN'')
     \<and> slack_team_pattern (env_value env ''SLACK_TEAM_ID'')
     \<and> 32 \<le> length (env_value env ''PROXY_SECRET'')
     \<and> stat (path_dir (env_value env ''DB_PATH'')) = IsDirectory
     \<and> snd (load_upstreams env) = []
     \<and> env_idle_timeout env \<le> env_lifetime env
     \<and> snd (load_landing env (env_value env ''AUTH_HOST'')) = []
     \<and> snd (load_ssh env) = []"
  by (auto simp: load_errs_def required_keys_def require_env_ok auth_host_errs_def db_path_errs_def Let_def
      split: if_splits file_stat.splits)

lemma load_landing_iff:
  assumes "host \<noteq> []"
  shows "snd (load_landing env host) = [] \<longleftrightarrow>
     (let dl = trim_space (env ''DEFAULT_LANDING_URL''); url = fst (load_landing env host)
      in if dl = [] then url = ''https://'' @ host @ ''/'' else url_parse dl \<noteq> None \<and> url = dl)"
  using assms by (auto simp: load_landing_def Let_def split: option.splits)

lemma load_ssh_iff:
  "snd (load_ssh env) = [] \<longleftrightarrow>
     (let raw = trim_space (env ''SSH_UPSTREAMS''); ssh = fst (load_ssh env)
      in if raw = [] then ss_upstreams ssh = []
         else parse_ssh_upstreams raw = Inr (ss_upstreams ssh) \<and> ss_host_key_path ssh \<noteq> []
              \<and> ss_ca_key_path ssh \<noteq> [] \<and> ss_known_hosts_path ssh \<noteq> [])"
  by (auto simp: load_ssh_def Let_def split: sum.splits)

text \<open>
  C20. \<open>Load\<close> accepts exactly the valid settings.  It returns a configuration if and only if every
  required value is there, the auth host ends in the base domain, the team id has Slack's form, the
  shared secret has at least 32 characters, the database lies in a directory, \<open>UPSTREAMS\<close> parses, the
  idle timeout does not exceed the session lifetime, a given landing URL parses, and \<open>SSH_UPSTREAMS\<close>, if
  given, parses and comes with the three key paths; and the configuration holds just these values.
\<close>

theorem load_config_sound:
  "load_config env stat = Inr c \<longleftrightarrow>
     c = loaded env
     \<and> cf_base_domain c \<noteq> [] \<and> cf_cookie_domain c = ''.'' @ trim_prefix (cf_base_domain c) ''.''
     \<and> cf_auth_host c \<noteq> [] \<and> has_suffix (cf_auth_host c) (cf_base_domain c)
     \<and> cf_slack_client_id c \<noteq> [] \<and> cf_slack_client_secret c \<noteq> [] \<and> slack_team_pattern (cf_slack_team_id c)
     \<and> 32 \<le> length (cf_proxy_secret c)
     \<and> cf_db_path c \<noteq> [] \<and> stat (path_dir (cf_db_path c)) = IsDirectory
     \<and> trim_space (env ''UPSTREAMS'') \<noteq> []
     \<and> parse_upstreams (trim_space (env ''UPSTREAMS'')) = Inr (cf_upstream_map c)
     \<and> cf_session_idle_timeout c \<le> cf_session_lifetime c
     \<and> (let dl = trim_space (env ''DEFAULT_LANDING_URL'')
        in if dl = [] then cf_default_landing_url c = ''https://'' @ cf_auth_host c @ ''/''
           else url_parse dl \<noteq> None \<and> cf_default_landing_url c = dl)
     \<and> (let raw = trim_space (env ''SSH_UPSTREAMS'')
        in if raw = [] then cf_ssh_upstreams c = []
           else parse_ssh_upstreams raw = Inr (cf_ssh_upstreams c) \<and> cf_ssh_host_key_path c \<noteq> []
                \<and> cf_ssh_ca_key_path c \<noteq> [] \<and> cf_ssh_known_hosts_path c \<noteq> [])"
  (is "_ \<longleftrightarrow> _ \<and> ?checks c")
proof -
  have team: "slack_team_pattern t \<Longrightarrow> t \<noteq> []" and secret: "32 \<le> length t \<Longrightarrow> t \<noteq> []" for t
    by (auto simp: slack_team_pattern_def)
  have "load_errs env stat = [] \<longleftrightarrow> ?checks (loaded env)"
  proof (cases "env_value env ''AUTH_HOST'' = []")
    case True
    then show ?thesis by (simp add: load_errs_Nil required_keys_def loaded_def Let_def)
  next
    case False
    then show ?thesis
      unfolding load_errs_Nil load_landing_iff [OF False] load_ssh_iff load_upstreams_ok
      using team [of "env_value env ''SLACK_TEAM_ID''"] secret [of "env_value env ''PROXY_SECRET''"]
      by (simp only: required_keys_def list.pred_inject loaded_def Let_def config.select_convs if_True if_False
          simp_thms cong: conj_cong) argo
  qed
  then show ?thesis unfolding load_config_Inr by metis
qed

definition example_env :: "string \<Rightarrow> env" where
  "example_env auth_host key =
     (case map_of [(''BASE_DOMAIN'', ''forgeutah.tech''), (''AUTH_HOST'', auth_host),
        (''SLACK_CLIENT_ID'', ''id''), (''SLACK_CLIENT_SECRET'', ''secret''), (''SLACK_TEAM_ID'', ''T0R7GR''),
        (''DB_PATH'', ''/data/forge.db''), (''PROXY_SECRET'', ''0123456789abcdef0123456789abcdef''),
        (''UPSTREAMS'', example_upstreams), (''SSH_UPSTREAMS'', example_ssh_upstreams),
        (''SSH_HOST_KEY_PATH'', ''/data/host''), (''SSH_CA_KEY_PATH'', ''/data/ca''),
        (''SSH_KNOWN_HOSTS_PATH'', ''/data/known_hosts''), (''SESSION_LIFETIME'', ''1h30m''),
        (''SESSION_IDLE_TIMEOUT'', ''600'')] key of None \<Rightarrow> [] | Some v \<Rightarrow> v)"

definition example_stat :: "string \<Rightarrow> file_stat" where
  "example_stat p = (if p = ''/data'' then IsDirectory else StatFailed)"

lemma example_env_errs: "load_errs (example_env ''auth.forgeutah.tech'') example_stat = []"
  unfolding load_errs_Nil required_keys_def list.pred_inject by (intro conjI TrueI) code_simp+

lemma example_env_loads:
  "load_config (example_env ''auth.forgeutah.tech'') example_stat = Inr (loaded (example_env ''auth.forgeutah.tech''))"
  by (simp add: load_config_def example_env_errs)

lemma load_config_sound_witness:
  "cf_session_idle_timeout (loaded (example_env ''auth.forgeutah.tech''))
     \<le> cf_session_lifetime (loaded (example_env ''auth.forgeutah.tech''))
   \<and> cf_session_lifetime (loaded (example_env ''auth.forgeutah.tech'')) = seconds 5400"
proof -
  have "env_lifetime (example_env ''auth.forgeutah.tech'') = seconds 5400" by code_simp
  with example_env_loads [unfolded load_config_sound] show ?thesis by (simp add: loaded_def Let_def)
qed

text \<open>
  The subdomain check of \<open>AUTH_HOST\<close> compares suffixes without a label boundary: a host of another
  registered domain passes.
\<close>

lemma auth_host_of_other_domain_accepted:
  "auth_host_errs ''evilforgeutah.tech'' ''forgeutah.tech'' = []
   \<and> \<not> has_suffix ''evilforgeutah.tech'' ''.forgeutah.tech'' \<and> ''evilforgeutah.tech'' \<noteq> ''forgeutah.tech''"
  by code_simp

end
