(* ===== verification/ProxyHeaders.thy ===== *)
theory ProxyHeaders
  imports SessionStore UserStore Config
begin

text \<open>
  \<open>internal/proxy/hostmap.go\<close> and \<open>internal/proxy/headers.go\<close>: the host map, the strip of client
  supplied \<open>X-Forge-*\<close> headers, trailers and the session cookie, and the injection of the trusted
  headers.

  The header maps a Go server hands to a handler have canonical keys that are tokens and occur
  once; \<open>canonical_header\<close> says so where a lemma needs it.
\<close>

section \<open>Host map\<close>

type_synonym host_map = "(string \<times> upstream) list"

text \<open>Go ranges over the configured map in any order; this is the order of insertion.\<close>

definition new_host_map :: "upstream_map \<Rightarrow> host_map" where
  "new_host_map m = foldl (\<lambda>acc (h, u). AList.update (to_lower h) u acc) [] m"

definition normalize_host :: "string \<Rightarrow> string" where
  "normalize_host host = takeWhile (\<lambda>c. c \<noteq> CHR '':'') (to_lower host)"

definition resolve_host :: "host_map \<Rightarrow> string \<Rightarrow> upstream option" where
  "resolve_host m host = map_of m (normalize_host host)"

definition host_list :: "host_map \<Rightarrow> string list" where
  "host_list m = map fst m"

section \<open>Strip\<close>

definition forge_prefix :: string where
  "forge_prefix = ''X-Forge-''"

definition forge_key :: "string \<Rightarrow> bool" where
  "forge_key k \<longleftrightarrow> has_prefix (canonical_key k) forge_prefix"

text \<open>The loops that delete while they range over the map.\<close>

definition strip_forge_keys :: "header \<Rightarrow> header" where
  "strip_forge_keys h = foldl (\<lambda>acc k. if forge_key k then header_del k acc else acc) h (map fst h)"

text \<open>The loops over a list header: split, filter, join again, drop a line with nothing left.\<close>

definition clean_lines :: "(string \<Rightarrow> string list) \<Rightarrow> string \<Rightarrow> string list \<Rightarrow> string list" where
  "clean_lines kept sep lines =
     map (\<lambda>l. str_join (kept l) sep) (filter (\<lambda>l. kept l \<noteq> []) lines)"

definition kept_trailer_names :: "string \<Rightarrow> string list" where
  "kept_trailer_names t =
     filter (\<lambda>name. name \<noteq> [] \<and> \<not> forge_key name) (map trim_space (str_split (CHR '','') t))"

definition kept_cookies :: "string \<Rightarrow> string list" where
  "kept_cookies line =
     map trim_space
       (filter (\<lambda>entry. fst (str_cut (CHR ''='') (trim_space entry)) \<noteq> cookie_name)
          (str_split (CHR '';'') line))"

definition rewrite_lines :: "string \<Rightarrow> (string list \<Rightarrow> string list) \<Rightarrow> header \<Rightarrow> header" where
  "rewrite_lines key clean h =
     (case map_of h (canonical_key key) of
        None \<Rightarrow> h
      | Some lines \<Rightarrow>
          (let cleaned = clean lines
           in if cleaned = [] then header_del key h else AList.update key cleaned h))"

definition strip_trailer_names :: "header \<Rightarrow> header" where
  "strip_trailer_names h = rewrite_lines ''Trailer'' (clean_lines kept_trailer_names '', '') h"

definition strip_session_cookie :: "header \<Rightarrow> header" where
  "strip_session_cookie h = rewrite_lines ''Cookie'' (clean_lines kept_cookies ''; '') h"

definition strip_forge_headers :: "request \<Rightarrow> request" where
  "strip_forge_headers out =
     (let h1 = strip_forge_keys (rq_header out);
          h2 = strip_trailer_names h1;
          t = strip_forge_keys (rq_trailer out);
          h3 = strip_session_cookie h2
      in out\<lparr>rq_header := h3, rq_trailer := t\<rparr>)"

section \<open>Inject\<close>

text \<open>\<open>percentEncodeUTF8\<close> and the encoding of the display name.\<close>

definition unreserved :: "char \<Rightarrow> bool" where
  "unreserved c \<longleftrightarrow> is_alnum c \<or> c \<in> set ''-._~''"

definition percent_encode_utf8 :: "string \<Rightarrow> string" where
  "percent_encode_utf8 s = concat (map (\<lambda>c. if unreserved c then [c] else percent c) s)"

definition encode_display_name :: "string \<Rightarrow> string" where
  "encode_display_name name =
     (if list_ex (\<lambda>c. 0x80 \<le> (of_char c :: nat)) name
      then ''UTF-8'' @ [CHR 0x27, CHR 0x27] @ percent_encode_utf8 name
      else name)"

definition contract_version :: string where
  "contract_version = ''1''"

definition forge_pairs :: "string \<Rightarrow> user \<Rightarrow> (string \<times> string) list" where
  "forge_pairs proxy_secret u =
     [(''X-Forge-Proxy-Secret'', proxy_secret),
      (''X-Forge-Contract-Version'', contract_version),
      (''X-Forge-User-Id'', itoa (us_id u)),
      (''X-Forge-Email'', us_email u),
      (''X-Forge-Name'', encode_display_name (us_name u)),
      (''X-Forge-Avatar'', us_avatar_url u),
      (''X-Forge-Roles'', str_join (us_roles u) '',''),
      (''X-Forge-Slack-User-Id'', us_slack_user_id u),
      (''X-Forge-Slack-Team-Id'', us_slack_team_id u)]"

definition inject_forge_headers :: "string \<Rightarrow> user \<Rightarrow> request \<Rightarrow> request" where
  "inject_forge_headers proxy_secret u out =
     out\<lparr>rq_header := foldl (\<lambda>h (name, value). header_set name value (header_del name h))
                        (rq_header out) (forge_pairs proxy_secret u)\<rparr>"

section \<open>Facts about the host map\<close>

lemma normalize_host_no_colon: "CHR '':'' \<notin> set (normalize_host host)"
  by (auto simp: normalize_host_def dest: set_takeWhileD)

lemma new_host_map_id:
  assumes "distinct (map fst m)" and "\<And>h u. (h, u) \<in> set m \<Longrightarrow> to_lower h = h"
  shows "map_of (new_host_map m) = map_of m"
proof -
  have fold: "map_of (foldl (\<lambda>acc (h, u). AList.update (to_lower h) u acc) acc m) = map_of acc ++ map_of m"
    if "distinct (map fst m)" "\<And>h u. (h, u) \<in> set m \<Longrightarrow> to_lower h = h" for acc and m :: upstream_map
    using that
  proof (induction m arbitrary: acc)
    case (Cons p m)
    obtain h u where p: "p = (h, u)" by (cases p)
    with Cons.prems have "to_lower h = h" "h \<notin> fst ` set m" by auto
    moreover from this have "map_of m h = None" by (simp add: map_of_eq_None_iff)
    ultimately have "(map_of acc)(h \<mapsto> u) ++ map_of m = map_of acc ++ map_of (p # m)"
      by (auto simp: p map_add_def fun_eq_iff split: option.splits)
    moreover have "map_of (foldl (\<lambda>acc (h, u). AList.update (to_lower h) u acc) (AList.update h u acc) m) =
        map_of (AList.update h u acc) ++ map_of m"
      using Cons.prems by (intro Cons.IH) auto
    ultimately show ?case using \<open>to_lower h = h\<close> by (simp add: p update_conv' del: map_of.simps)
  qed simp
  show ?thesis using fold [of m "[]"] assms by (simp add: new_host_map_def)
qed

section \<open>Facts about the strip and the injection\<close>

definition canonical_header :: "header \<Rightarrow> bool" where
  "canonical_header h \<longleftrightarrow> distinct (map fst h) \<and> (\<forall>k \<in> fst ` set h. canonical_key k = k)"

lemma header_values_strip:
  assumes "canonical_header h"
  shows "header_values (strip_forge_keys h) k = (if forge_key k then [] else header_values h k)"
proof -
  have "header_values (foldl (\<lambda>acc k. if forge_key k then header_del k acc else acc) acc ks) k =
          (if forge_key k \<and> canonical_key k \<in> canonical_key ` set ks then [] else header_values acc k)"
    for acc ks
    by (induction ks arbitrary: acc) (auto simp: header_values_del forge_key_def)
  then have *: "header_values (strip_forge_keys h) k =
      (if forge_key k \<and> canonical_key k \<in> canonical_key ` fst ` set h then [] else header_values h k)"
    by (simp add: strip_forge_keys_def image_image)
  moreover have "header_values h k = []" if "canonical_key k \<notin> canonical_key ` fst ` set h"
  proof -
    have "canonical_key k \<notin> fst ` set h" using that by (metis canonical_key_idem image_eqI)
    then have "map_of h (canonical_key k) = None" by (simp add: map_of_eq_None_iff)
    then show ?thesis by (simp add: header_values_def)
  qed
  ultimately show ?thesis by auto
qed

lemma header_values_rewrite:
  assumes "canonical_key key = key"
  shows "header_values (rewrite_lines key clean h) k =
           (if canonical_key k = key
            then (case map_of h key of None \<Rightarrow> [] | Some lines \<Rightarrow> clean lines)
            else header_values h k)"
  using assms
  by (auto simp: rewrite_lines_def Let_def header_values_def header_del_def AList.delete_conv
      update_conv' split: option.splits)

lemma canonical_trailer [simp]: "canonical_key ''Trailer'' = ''Trailer''"
  by code_simp

lemma canonical_cookie [simp]: "canonical_key ''Cookie'' = ''Cookie''"
  by code_simp

lemma not_forge_trailer [simp]: "\<not> forge_key ''Trailer''"
  by code_simp

lemma not_forge_cookie [simp]: "\<not> forge_key ''Cookie''"
  by code_simp

lemma forge_key_canonical [simp]: "forge_key (canonical_key k) = forge_key k"
  by (simp add: forge_key_def)

lemma forge_key_not_line:
  "forge_key k \<Longrightarrow> canonical_key k \<noteq> ''Trailer''"
  "forge_key k \<Longrightarrow> canonical_key k \<noteq> ''Cookie''"
  by (metis forge_key_canonical not_forge_trailer, metis forge_key_canonical not_forge_cookie)

lemma strip_lines_other:
  "canonical_key k \<noteq> ''Trailer'' \<Longrightarrow> header_values (strip_trailer_names h) k = header_values h k"
  "canonical_key k \<noteq> ''Cookie'' \<Longrightarrow> header_values (strip_session_cookie h) k = header_values h k"
  by (simp_all add: strip_trailer_names_def strip_session_cookie_def header_values_rewrite)

lemma strip_headers_forge:
  assumes "canonical_header (rq_header out)" and "forge_key k"
  shows "header_values (rq_header (strip_forge_headers out)) k = []"
  using assms by (simp add: strip_forge_headers_def Let_def strip_lines_other forge_key_not_line
      header_values_strip)

lemma strip_headers_other:
  assumes "canonical_header (rq_header out)" and "\<not> forge_key k"
    and "canonical_key k \<noteq> ''Trailer''" and "canonical_key k \<noteq> ''Cookie''"
  shows "header_values (rq_header (strip_forge_headers out)) k = header_values (rq_header out) k"
  using assms by (simp add: strip_forge_headers_def Let_def strip_lines_other header_values_strip)

lemma strip_headers_cookie:
  assumes "canonical_header (rq_header out)"
  shows "header_values (rq_header (strip_forge_headers out)) ''Cookie'' =
           clean_lines kept_cookies ''; '' (header_values (rq_header out) ''Cookie'')"
proof -
  have "header_values (strip_session_cookie h) ''Cookie'' =
          clean_lines kept_cookies ''; '' (header_values h ''Cookie'')" for h
    by (simp add: strip_session_cookie_def header_values_rewrite)
      (simp add: header_values_def clean_lines_def split: option.splits)
  then show ?thesis using assms
    by (simp add: strip_forge_headers_def Let_def strip_lines_other header_values_strip)
qed

lemma strip_headers_trailer:
  assumes "canonical_header (rq_header out)"
  shows "header_values (rq_header (strip_forge_headers out)) ''Trailer'' =
           clean_lines kept_trailer_names '', '' (header_values (rq_header out) ''Trailer'')"
proof -
  have "header_values (strip_trailer_names h) ''Trailer'' =
          clean_lines kept_trailer_names '', '' (header_values h ''Trailer'')" for h
    by (simp add: strip_trailer_names_def header_values_rewrite)
      (simp add: header_values_def clean_lines_def split: option.splits)
  then show ?thesis using assms
    by (simp add: strip_forge_headers_def Let_def strip_lines_other header_values_strip)
qed

lemma header_values_set_all:
  "header_values (foldl (\<lambda>h (name, value). header_set name value (header_del name h)) h ps) k =
     (case map_of (rev (map (\<lambda>(n, v). (canonical_key n, v)) ps)) (canonical_key k) of
        Some v \<Rightarrow> [v] | None \<Rightarrow> header_values h k)"
proof (induction ps arbitrary: h)
  case (Cons p ps)
  obtain n v where p: "p = (n, v)" by (cases p)
  show ?case
    by (auto simp: p Cons.IH header_values_set header_values_del map_add_def split: option.splits)
qed simp

definition forge_names :: "string list" where
  "forge_names =
     [''X-Forge-Proxy-Secret'', ''X-Forge-Contract-Version'', ''X-Forge-User-Id'', ''X-Forge-Email'',
      ''X-Forge-Name'', ''X-Forge-Avatar'', ''X-Forge-Roles'', ''X-Forge-Slack-User-Id'',
      ''X-Forge-Slack-Team-Id'']"

lemma forge_names_canonical:
  "map canonical_key forge_names = forge_names \<and> distinct forge_names \<and> list_all forge_key forge_names"
  by code_simp

lemma forge_pairs_names: "map fst (forge_pairs secret u) = forge_names"
  by (simp add: forge_pairs_def forge_names_def)

lemma forge_pairs_canonical: "map (\<lambda>(n, v). (canonical_key n, v)) (forge_pairs secret u) = forge_pairs secret u"
proof -
  have "canonical_key n = n" if "(n, v) \<in> set (forge_pairs secret u)" for n v
  proof -
    from that have "n \<in> set forge_names" by (metis forge_pairs_names image_eqI list.set_map fst_conv)
    with forge_names_canonical show ?thesis by (metis map_idI map_eq_conv list.map_id0 id_apply)
  qed
  then show ?thesis by (intro map_idI) auto
qed

lemma inject_values:
  "header_values (rq_header (inject_forge_headers secret u out)) k =
     (case map_of (forge_pairs secret u) (canonical_key k) of
        Some v \<Rightarrow> [v] | None \<Rightarrow> header_values (rq_header out) k)"
proof -
  have "distinct (map fst (forge_pairs secret u))"
    by (simp add: forge_pairs_names forge_names_canonical)
  then have "map_of (rev (forge_pairs secret u)) = map_of (forge_pairs secret u)"
    by (intro map_of_inject_set [THEN iffD2]) (simp_all add: rev_map [symmetric])
  then show ?thesis
    by (simp add: inject_forge_headers_def header_values_set_all forge_pairs_canonical)
qed

lemma forge_pairs_forge: "map_of (forge_pairs secret u) k = Some v \<Longrightarrow> forge_key k"
proof -
  assume "map_of (forge_pairs secret u) k = Some v"
  then have "k \<in> fst ` set (forge_pairs secret u)" by (metis map_of_SomeD image_eqI fst_conv)
  then have "k \<in> set forge_names" using forge_pairs_names [of secret u] by (metis list.set_map)
  then show ?thesis using forge_names_canonical by (auto simp: list_all_iff)
qed

section \<open>Facts about the display name\<close>

lemma hex_digit_ascii: "n < 16 \<Longrightarrow> (of_char (hex_digit n) :: nat) < 128"
  by (auto simp: hex_digit_def)

lemma percent_encode_ascii: "is_ascii (percent_encode_utf8 s)"
proof -
  have "is_ascii (if unreserved c then [c] else percent c)" for c
    by (auto simp: is_ascii_def unreserved_def is_alnum_def percent_def Let_def
        intro!: hex_digit_ascii of_char_div16)
  then show ?thesis by (induction s) (auto simp: percent_encode_utf8_def is_ascii_def)
qed

lemma percent_decode: "url_unescape EncodePathSegment (percent_encode_utf8 s) = Some s"
proof (induction s)
  case (Cons c s)
  show ?case
  proof (cases "unreserved c")
    case True
    then have "c \<noteq> CHR ''%''" "c \<noteq> CHR ''+''" by (auto simp: unreserved_def is_alnum_def)
    with True Cons show ?thesis by (simp add: percent_encode_utf8_def plain_ok_def)
  next
    case False
    with Cons show ?thesis
      using unescape_percent [of EncodePathSegment c "percent_encode_utf8 s"]
      by (simp add: percent_encode_utf8_def)
  qed
qed (simp add: percent_encode_utf8_def)

definition name_prefix :: string where
  "name_prefix = ''UTF-8'' @ [CHR 0x27, CHR 0x27]"

lemma encode_display_name_cases:
  "(is_ascii name \<and> encode_display_name name = name) \<or>
   (\<not> is_ascii name \<and> encode_display_name name = name_prefix @ percent_encode_utf8 name)"
  by (auto simp: encode_display_name_def name_prefix_def is_ascii_def list_all_iff list_ex_iff not_less)

section \<open>Facts about cookies\<close>

definition printable :: "string \<Rightarrow> bool" where
  "printable s \<longleftrightarrow> list_all (\<lambda>c. 0x20 \<le> (of_char c :: nat) \<and> (of_char c :: nat) < 0x7F) s"

lemma printable_Cons: "printable (c # s) \<longleftrightarrow> (c = CHR '' '' \<or> edge_char c) \<and> (of_char c :: nat) \<noteq> 0x7F \<and> printable s"
proof -
  have "(of_char c :: nat) = 0x20 \<longleftrightarrow> c = CHR '' ''" by (simp add: char_eq_nat)
  then show ?thesis by (auto simp: printable_def edge_char_def)
qed

lemma printable_set: "printable s \<longleftrightarrow> (\<forall>c \<in> set s. printable [c])"
  by (auto simp: printable_def list_all_iff)

lemma ascii_ws_space [simp]: "ascii_ws (CHR '' '')"
  by (simp add: ascii_ws_def)

lemma strip_space:
  assumes "printable s"
    and "\<And>c t. edge_char c \<Longrightarrow> stripped ws (c # t)"
    and "\<And>t. find (\<lambda>w. w \<noteq> [] \<and> has_prefix (CHR '' '' # t) w) ws = Some '' ''"
  shows "strip_left ws s = dropWhile ascii_ws s"
  using assms(1)
proof (induction s)
  case (Cons c s)
  show ?case
  proof (cases "c = CHR '' ''")
    case True
    with Cons assms(3) [of s] show ?thesis
      by (subst strip_left.simps) (simp add: printable_Cons)
  next
    case False
    with Cons.prems have "edge_char c" by (simp add: printable_Cons)
    then have "\<not> ascii_ws c" by (auto simp: edge_char_def ascii_ws_def)
    with assms(2) [OF \<open>edge_char c\<close>, of s] show ?thesis by (simp add: strip_left_id)
  qed
qed simp

lemma find_space: "find (\<lambda>w. w \<noteq> [] \<and> has_prefix (CHR '' '' # t) w) white_space = Some '' ''"
  by (simp add: white_space_def)

lemma find_space_rev:
  "find (\<lambda>w. w \<noteq> [] \<and> has_prefix (CHR '' '' # t) w) (map rev white_space) = Some '' ''"
  by (simp add: white_space_def)

lemma trim_space_printable:
  assumes "printable s" shows "trim_space s = trim_ascii s"
proof -
  have 1: "trim_left s = dropWhile ascii_ws s"
    unfolding trim_left_def using assms by (rule strip_space) (simp_all add: stripped_edge find_space)
  have "printable (rev (dropWhile ascii_ws s))"
    using assms by (auto simp: printable_set [of "rev _"] printable_set [of s] dest: set_dropWhileD)
  then have "trim_right (dropWhile ascii_ws s) = rev (dropWhile ascii_ws (rev (dropWhile ascii_ws s)))"
    unfolding trim_right_def by (subst strip_space) (simp_all add: stripped_rev_edge find_space_rev)
  with 1 show ?thesis by (simp add: trim_space_def trim_ascii_def)
qed

lemma dropWhile_idem [simp]: "dropWhile P (dropWhile P s) = dropWhile P s"
  by (induction s) auto

lemma trim_ascii_idem [simp]: "trim_ascii (trim_ascii s) = trim_ascii s"
proof -
  define x where "x = dropWhile ascii_ws s"
  define y where "y = rev (dropWhile ascii_ws (rev x))"
  obtain t where t: "x = y @ t"
    by (metis rev_append rev_rev_ident takeWhile_dropWhile_id y_def)
  have "dropWhile ascii_ws y = y"
  proof (cases y)
    case (Cons c ys)
    with t have "hd x = c" "x \<noteq> []" by auto
    then have "\<not> ascii_ws c" using hd_dropWhile [of ascii_ws s] by (simp add: x_def)
    with Cons show ?thesis by simp
  qed simp
  moreover have "dropWhile ascii_ws (rev y) = rev y" by (simp add: y_def)
  ultimately have "trim_ascii y = y" by (simp add: trim_ascii_def)
  then show ?thesis by (simp add: trim_ascii_def x_def y_def)
qed

lemma trim_ascii_space [simp]: "trim_ascii (CHR '' '' # s) = trim_ascii s"
  by (simp add: trim_ascii_def ascii_ws_def)

lemma parse_cookie_part_trim [simp]: "parse_cookie_part (trim_ascii e) = parse_cookie_part e"
  by (simp add: parse_cookie_part_def)

lemma split_dropWhile:
  "\<not> P c \<Longrightarrow> str_split c (dropWhile P s) = dropWhile P (hd (str_split c s)) # tl (str_split c s)"
proof (induction s)
  case (Cons x s)
  then show ?case by (cases "str_split c s") auto
qed simp

lemma str_join_snoc:
  "str_join (xs @ [y]) sep = (if xs = [] then y else str_join xs sep @ sep @ y)"
  by (induction xs sep rule: str_join.induct) auto

lemma rev_str_join: "rev (str_join xs [c]) = str_join (rev (map rev xs)) [c]"
proof (induction xs "[c]" rule: str_join.induct)
  case (3 s t ss)
  then show ?case using str_join_snoc [of "rev (map rev (t # ss))" "rev s" "[c]"] by simp
qed simp_all

lemma str_split_rev: "str_split c (rev s) = rev (map rev (str_split c s))"
proof -
  have "rev s = str_join (rev (map rev (str_split c s))) [c]"
    by (metis rev_str_join str_join_split)
  moreover have "str_split c (str_join (rev (map rev (str_split c s))) [c]) = rev (map rev (str_split c s))"
    by (rule str_split_join) (auto dest: str_split_pieces)
  ultimately show ?thesis by simp
qed

text \<open>Trimming a line changes its first and its last piece at most, and only by white space.\<close>

lemma split_trim_left:
  "map trim_ascii (str_split (CHR '';'') (dropWhile ascii_ws s)) = map trim_ascii (str_split (CHR '';'') s)"
proof -
  have "\<not> ascii_ws (CHR '';'')" by (simp add: ascii_ws_def)
  from split_dropWhile [of ascii_ws, OF this] show ?thesis
    by (cases "str_split (CHR '';'') s") (simp_all add: trim_ascii_def)
qed

lemma dropWhile_commute:
  "dropWhile P (rev (dropWhile P (rev s))) = rev (dropWhile P (rev (dropWhile P s)))"
proof (induction s)
  case (Cons c s)
  show ?case
  proof (cases "\<forall>x \<in> set s. P x")
    case True
    then have d: "dropWhile P s = []" "dropWhile P (rev s) = []" by simp_all
    with True show ?thesis by (simp add: dropWhile_append d del: dropWhile_eq_Nil_conv)
  next
    case False
    with Cons show ?thesis by (auto simp: dropWhile_append)
  qed
qed simp

lemma trim_ascii_right: "trim_ascii (rev (dropWhile ascii_ws (rev s))) = trim_ascii s"
  by (simp add: trim_ascii_def dropWhile_commute)

lemma trim_ascii_left: "trim_ascii (dropWhile ascii_ws s) = trim_ascii s"
  by (simp add: trim_ascii_def)

lemma parse_trimmed:
  "List.map_filter parse_cookie_part (map trim_ascii es) = List.map_filter parse_cookie_part es"
  by (induction es) (simp_all add: List.map_filter_def)

lemma split_trim_right:
  "map trim_ascii (str_split (CHR '';'') (rev (dropWhile ascii_ws (rev s))))
     = map trim_ascii (str_split (CHR '';'') s)"
proof -
  have ws: "\<not> ascii_ws (CHR '';'')" by (simp add: ascii_ws_def)
  obtain p ps where sp: "rev (str_split (CHR '';'') s) = p # ps"
    by (cases "rev (str_split (CHR '';'') s)") simp_all
  then have s: "str_split (CHR '';'') s = rev ps @ [p]"
    by (metis rev_rev_ident rev.simps(2))
  have "str_split (CHR '';'') (rev (dropWhile ascii_ws (rev s)))
          = rev ps @ [rev (dropWhile ascii_ws (rev p))]"
    using split_dropWhile [of ascii_ws, OF ws, of "rev s"]
    by (simp add: str_split_rev sp rev_map o_def)
  then show ?thesis by (simp add: s trim_ascii_right)
qed

lemma parse_cookie_line_split:
  "parse_cookie_line line = List.map_filter parse_cookie_part (str_split (CHR '';'') line)"
proof -
  have "map trim_ascii (str_split (CHR '';'') (trim_ascii line)) = map trim_ascii (str_split (CHR '';'') line)"
    by (simp only: trim_ascii_def split_trim_right split_trim_left)
  then show ?thesis unfolding parse_cookie_line_def by (metis parse_trimmed)
qed

lemma str_join_space:
  "str_join (k # ks) ''; '' = str_join (k # map (Cons (CHR '' '')) ks) '';''"
proof (induction ks arbitrary: k)
  case (Cons a ks)
  have "CHR '' '' # str_join (a # map (Cons (CHR '' '')) ks) '';''
          = str_join ((CHR '' '' # a) # map (Cons (CHR '' '')) ks) '';''"
    by (cases ks) simp_all
  with Cons show ?case by simp
qed simp

lemma parse_joined:
  assumes "\<And>k. k \<in> set ks \<Longrightarrow> CHR '';'' \<notin> set k" and "ks \<noteq> []"
  shows "parse_cookie_line (str_join ks ''; '') = List.map_filter parse_cookie_part ks"
proof -
  obtain k ks' where ks: "ks = k # ks'" using assms(2) by (cases ks) auto
  have "str_split (CHR '';'') (str_join ks ''; '') = k # map (Cons (CHR '' '')) ks'"
    unfolding ks str_join_space using assms(1) by (intro str_split_join) (auto simp: ks)
  moreover have "parse_cookie_part (CHR '' '' # e) = parse_cookie_part e" for e
    by (metis parse_cookie_part_trim trim_ascii_space)
  then have "List.map_filter parse_cookie_part (map (Cons (CHR '' '')) es)
               = List.map_filter parse_cookie_part es" for es
    by (induction es) (simp_all add: map_filter_simps split: option.split)
  ultimately show ?thesis
    by (simp add: parse_cookie_line_split ks map_filter_simps split: option.split)
qed

text \<open>
  A cookie line as a browser writes it: printable, and no white space right before the first
  equals sign of an entry.
\<close>

definition plain_cookie_line :: "string \<Rightarrow> bool" where
  "plain_cookie_line line \<longleftrightarrow> printable line \<and>
     (\<forall>e \<in> set (str_split (CHR '';'') line).
        trim_ascii (fst (str_cut (CHR ''='') (trim_ascii e))) = fst (str_cut (CHR ''='') (trim_ascii e)))"

lemma split_set: "p \<in> set (str_split c s) \<Longrightarrow> set p \<subseteq> set s"
proof (induction s arbitrary: p)
  case (Cons x s)
  then show ?case by (cases "str_split c s") (fastforce split: if_splits)+
qed simp

lemma kept_cookies_plain:
  assumes "plain_cookie_line line"
  shows "List.map_filter parse_cookie_part (kept_cookies line)
           = filter (\<lambda>(n, v). n \<noteq> cookie_name) (parse_cookie_line line)"
proof -
  have e: "trim_space e = trim_ascii e"
    "trim_ascii (fst (str_cut (CHR ''='') (trim_ascii e))) = fst (str_cut (CHR ''='') (trim_ascii e))"
    if "e \<in> set (str_split (CHR '';'') line)" for e
  proof -
    have "printable e"
      using assms split_set [OF that] printable_set unfolding plain_cookie_line_def by blast
    then show "trim_space e = trim_ascii e" by (rule trim_space_printable)
    show "trim_ascii (fst (str_cut (CHR ''='') (trim_ascii e))) = fst (str_cut (CHR ''='') (trim_ascii e))"
      using assms that by (simp add: plain_cookie_line_def)
  qed
  have "List.map_filter parse_cookie_part
          (map trim_space (filter (\<lambda>e. fst (str_cut (CHR ''='') (trim_space e)) \<noteq> cookie_name) es))
        = filter (\<lambda>(n, v). n \<noteq> cookie_name) (List.map_filter parse_cookie_part es)"
    if "set es \<subseteq> set (str_split (CHR '';'') line)" for es
    using that
  proof (induction es)
    case (Cons x es)
    then have x: "trim_space x = trim_ascii x"
      "trim_ascii (fst (str_cut (CHR ''='') (trim_ascii x))) = fst (str_cut (CHR ''='') (trim_ascii x))"
      using e [of x] by auto
    have "case parse_cookie_part x of
            None \<Rightarrow> True | Some (n, v) \<Rightarrow> n = fst (str_cut (CHR ''='') (trim_ascii x))"
      using x(2) by (auto simp: parse_cookie_part_def Let_def split: option.splits)
    with Cons show ?case by (auto simp: List.map_filter_def x(1) split: option.splits)
  qed (simp add: List.map_filter_def)
  then show ?thesis by (simp add: kept_cookies_def parse_cookie_line_split)
qed

lemma kept_cookies_no_sep: "k \<in> set (kept_cookies line) \<Longrightarrow> CHR '';'' \<notin> set k"
  using set_trim_space by (fastforce simp: kept_cookies_def dest: str_split_pieces)

lemma clean_cookie_lines:
  assumes "list_all plain_cookie_line lines"
  shows "concat (map parse_cookie_line (clean_lines kept_cookies ''; '' lines))
           = filter (\<lambda>(n, v). n \<noteq> cookie_name) (concat (map parse_cookie_line lines))"
  using assms
proof (induction lines)
  case (Cons line lines)
  show ?case
  proof (cases "kept_cookies line = []")
    case True
    with kept_cookies_plain [of line] Cons show ?thesis
      by (simp add: clean_lines_def List.map_filter_def)
  next
    case False
    with Cons show ?thesis
      by (simp add: clean_lines_def parse_joined kept_cookies_no_sep kept_cookies_plain)
  qed
qed (simp add: clean_lines_def)

lemma trim_space_space [simp]: "trim_space (CHR '' '' # s) = trim_space s"
proof -
  have "trim_left (CHR '' '' # s) = trim_left s"
    unfolding trim_left_def by (subst strip_left.simps) (simp add: find_space)
  then show ?thesis by (simp add: trim_space_def)
qed

lemma str_join_comma_space:
  "str_join (k # ks) '', '' = str_join (k # map (Cons (CHR '' '')) ks) '',''"
proof (induction ks arbitrary: k)
  case (Cons a ks)
  have "CHR '' '' # str_join (a # map (Cons (CHR '' '')) ks) '',''
          = str_join ((CHR '' '' # a) # map (Cons (CHR '' '')) ks) '',''"
    by (cases ks) simp_all
  with Cons show ?case by simp
qed simp

lemma clean_trailer_line:
  assumes "t \<in> set (clean_lines kept_trailer_names '', '' lines)" and "e \<in> set (str_split (CHR '','') t)"
  shows "\<not> forge_key (trim_space e)"
proof -
  from assms(1) obtain l where t: "t = str_join (kept_trailer_names l) '', ''" "kept_trailer_names l \<noteq> []"
    by (auto simp: clean_lines_def)
  then obtain k ks where ks: "kept_trailer_names l = k # ks" by (cases "kept_trailer_names l") auto
  have names: "\<not> forge_key n \<and> trim_space n = n \<and> CHR '','' \<notin> set n" if "n \<in> set (k # ks)" for n
    using that [folded ks] set_trim_space
    by (fastforce simp: kept_trailer_names_def dest: str_split_pieces)
  then have "CHR '','' \<notin> set n" if "n \<in> set (k # map (Cons (CHR '' '')) ks)" for n
    using that by fastforce
  then have "str_split (CHR '','') t = k # map (Cons (CHR '' '')) ks"
    unfolding t(1) ks str_join_comma_space by (intro str_split_join) simp_all
  with assms(2) have "e = k \<or> (\<exists>n \<in> set ks. e = CHR '' '' # n)" by (simp only: list.set set_map) blast
  then have "\<exists>n \<in> set (k # ks). trim_space e = trim_space n" by (metis list.set_intros trim_space_space)
  with names show ?thesis by metis
qed

section \<open>Properties\<close>

text \<open>
  C3. Only the proxy speaks \<open>X-Forge-*\<close>: whatever headers and trailers the client sent, after
  strip and injection every header whose canonical name begins with \<open>X-Forge-\<close> has exactly the
  trusted value of the signed-in user (or is absent, if it is not one of the nine), no such
  trailer is left or announced, and the other headers are as received.
\<close>

theorem forge_headers_trusted:
  assumes "canonical_header (rq_header out)" and "canonical_header (rq_trailer out)"
    and "r = inject_forge_headers secret u (strip_forge_headers out)"
  shows "(\<forall>k. forge_key k \<longrightarrow>
            header_values (rq_trailer r) k = []
            \<and> header_values (rq_header r) k =
                (case map_of (forge_pairs secret u) (canonical_key k) of Some v \<Rightarrow> [v] | None \<Rightarrow> []))
         \<and> (\<forall>t \<in> set (header_values (rq_header r) ''Trailer''). \<forall>e \<in> set (str_split (CHR '','') t).
              \<not> forge_key (trim_space e))
         \<and> (\<forall>k. \<not> forge_key k \<and> canonical_key k \<notin> {''Trailer'', ''Cookie''} \<longrightarrow>
              header_values (rq_header r) k = header_values (rq_header out) k)"
proof -
  have other: "map_of (forge_pairs secret u) (canonical_key k) = None" if "\<not> forge_key k" for k
    using that forge_pairs_forge [of secret u "canonical_key k"] by (cases "map_of (forge_pairs secret u) (canonical_key k)") auto
  have "header_values (rq_trailer r) k = []" if "forge_key k" for k
    using that assms(2) by (simp add: assms(3) inject_forge_headers_def strip_forge_headers_def Let_def header_values_strip)
  moreover have "header_values (rq_header r) k =
      (case map_of (forge_pairs secret u) (canonical_key k) of Some v \<Rightarrow> [v] | None \<Rightarrow> [])"
    if "forge_key k" for k
    using strip_headers_forge [OF assms(1) that] by (simp add: assms(3) inject_values split: option.split)
  moreover have "header_values (rq_header r) ''Trailer'' =
      clean_lines kept_trailer_names '', '' (header_values (rq_header out) ''Trailer'')"
    using strip_headers_trailer [OF assms(1)] other [of "''Trailer''"] by (simp add: assms(3) inject_values)
  moreover have "header_values (rq_header r) k = header_values (rq_header out) k"
    if "\<not> forge_key k" "canonical_key k \<notin> {''Trailer'', ''Cookie''}" for k
    using strip_headers_other [OF assms(1) that(1)] that(2) other [OF that(1)]
    by (simp add: assms(3) inject_values)
  ultimately show ?thesis using clean_trailer_line by auto
qed

definition example_user_rec :: user where
  "example_user_rec =
     \<lparr>us_id = 7, us_slack_user_id = ''U7'', us_slack_team_id = ''T01'', us_email = ''ada@example.org'',
      us_name = ''Ada'', us_avatar_url = [], us_roles = [''dev''], us_created_at = 0, us_last_login_at = 0\<rparr>"

definition example_request :: "header \<Rightarrow> header \<Rightarrow> request" where
  "example_request h t =
     \<lparr>rq_method = ''GET'', rq_host = ''wiki.forgeutah.tech'', rq_url = empty_url\<lparr>u_path := ''/p''\<rparr>,
      rq_header = h, rq_trailer = t, rq_remote_addr = ''10.0.0.9:4711'', rq_body = []\<rparr>"

lemma forge_headers_trusted_witness:
  "header_values (rq_header (inject_forge_headers ''s3cret'' example_user_rec (strip_forge_headers
      (example_request [(''X-Forge-Roles'', [''admin'']), (''X-Forge-Extra'', [''1'']),
          (''Trailer'', [''Expires, x-forge-roles''])] [(''X-Forge-Roles'', [''admin''])]))))
     ''x-forge-roles'' = [''dev'']"
proof -
  let ?h = "[(''X-Forge-Roles'', [''admin'']), (''X-Forge-Extra'', [''1'']), (''Trailer'', [''Expires, x-forge-roles''])]"
  let ?t = "[(''X-Forge-Roles'', [''admin''])]"
  have "canonical_header ?h" "canonical_header ?t" unfolding canonical_header_def by code_simp+
  then have c: "canonical_header (rq_header (example_request ?h ?t))"
    "canonical_header (rq_trailer (example_request ?h ?t))"
    by (simp_all add: example_request_def)
  have k: "forge_key ''x-forge-roles''" "canonical_key ''x-forge-roles'' = ''X-Forge-Roles''" by code_simp+
  from forge_headers_trusted [OF c refl, of "''s3cret''" example_user_rec] k show ?thesis
    by (simp add: forge_pairs_def example_user_rec_def)
qed

text \<open>
  The session cookie stays with the proxy: for cookie lines as browsers write them, the
  cookies an upstream can read are those of the client, in order, without any named
  \<open>forge_session\<close>; in particular the upstream cannot read the session id.
\<close>

theorem session_cookie_stripped:
  assumes "canonical_header (rq_header out)"
    and "list_all plain_cookie_line (header_values (rq_header out) ''Cookie'')"
  shows "read_cookies (rq_header (strip_forge_headers out)) =
           filter (\<lambda>(n, v). n \<noteq> cookie_name) (read_cookies (rq_header out))
         \<and> session_read (strip_forge_headers out) = None"
proof -
  have rc: "read_cookies (rq_header (strip_forge_headers out)) =
          filter (\<lambda>(n, v). n \<noteq> cookie_name) (read_cookies (rq_header out))"
    using assms by (simp add: read_cookies_def strip_headers_cookie clean_cookie_lines)
  then have "map_of (read_cookies (rq_header (strip_forge_headers out))) cookie_name = None"
    by (auto simp: map_of_eq_None_iff)
  then have "session_read (strip_forge_headers out) = None"
    by (simp add: session_read_def request_cookie_def cookie_name_def)
  with rc show ?thesis by blast
qed

lemma session_cookie_stripped_witness:
  "read_cookies (rq_header (strip_forge_headers
     (example_request [(''Cookie'', [''a=1; forge_session=YWJj; b=2'', ''forge_session=x''])] [])))
   = [(''a'', ''1''), (''b'', ''2'')]"
proof -
  let ?h = "[(''Cookie'', [''a=1; forge_session=YWJj; b=2'', ''forge_session=x''])]"
  have "canonical_header ?h" "list_all plain_cookie_line (header_values ?h ''Cookie'')"
    unfolding canonical_header_def plain_cookie_line_def by code_simp+
  moreover have "filter (\<lambda>(n, v). n \<noteq> cookie_name) (read_cookies ?h) = [(''a'', ''1''), (''b'', ''2'')]"
    by code_simp
  ultimately show ?thesis
    using session_cookie_stripped [of "example_request ?h []"] by (simp add: example_request_def)
qed

text \<open>
  The restriction to such lines is needed.  With a space before the equals sign the strip keeps
  the entry, while the cookie parser of the library, which the proxy itself uses, accepts it: the
  session id reaches the upstream.
\<close>

lemma session_cookie_leaks:
  "let r = example_request [(''Cookie'', [''forge_session =YWJj''])] []
   in session_read r = Some ''YWJj'' \<and> session_read (strip_forge_headers r) = Some ''YWJj''"
  by code_simp

text \<open>
  The display name travels as ASCII: the encoded name has no byte above 127, an ASCII name
  is passed as it is, and any other name is recovered by percent-decoding what follows the
  \<open>UTF-8''\<close> prefix.
\<close>

theorem display_name_roundtrip:
  "is_ascii (encode_display_name name)
   \<and> encode_display_name name =
       (if is_ascii name then name else name_prefix @ percent_encode_utf8 name)
   \<and> url_unescape EncodePathSegment (percent_encode_utf8 name) = Some name"
  using encode_display_name_cases [of name] percent_encode_ascii [of name] percent_decode [of name]
  by (auto simp: is_ascii_def name_prefix_def)

text \<open>
  The encoding is not unambiguous: an ASCII name that looks encoded is passed as it is, so it
  collides with the encoding of another name.
\<close>

lemma display_name_collision:
  "encode_display_name (name_prefix @ ''%C3%A9'') = encode_display_name [CHR 0xC3, CHR 0xA9]
   \<and> name_prefix @ ''%C3%A9'' \<noteq> [CHR 0xC3, CHR 0xA9]"
  by code_simp

end
