(* ===== verification/ProxyHandler.thy ===== *)
theory ProxyHandler
  imports ProxyHeaders
begin

text \<open>
  \<open>internal/proxy/proxy.go\<close>: the request handler of the reverse proxy and its rewrite hook.

  \<open>serve_proxy\<close> is \<open>Proxy.ServeHTTP\<close> over the two interfaces \<open>SessionStore\<close> and \<open>UserStore\<close>: the
  functions it is given.  Its outcome is an answer of its own or the request that leaves for the
  upstream.  What \<open>httputil.ReverseProxy\<close> does to the request before and after the hook is
  modelled (hop-by-hop headers, forwarding headers, the query, the user agent); the transport and
  the copy of the upstream's answer are not.  The server speaks plain HTTP, so the forwarded
  protocol is \<open>http\<close>.  The list of hosts on the not-found page is in the order of the host map.
\<close>

section \<open>The reverse proxy of the library\<close>

definition trim_ows :: "string \<Rightarrow> string" where
  "trim_ows s =
     (let ws = (\<lambda>c. c = CHR '' '' \<or> c = CHR 0x09)
      in rev (dropWhile ws (rev (dropWhile ws s))))"

definition values_contain_token :: "string list \<Rightarrow> string \<Rightarrow> bool" where
  "values_contain_token vs tok =
     list_ex (\<lambda>v. list_ex (\<lambda>t. map lower_byte (trim_ows t) = map lower_byte tok) (str_split (CHR '','') v)) vs"

definition upgrade_type :: "header \<Rightarrow> string" where
  "upgrade_type h =
     (if values_contain_token (header_values h ''Connection'') ''Upgrade'' then header_get h ''Upgrade''
      else [])"

definition is_print_ascii :: "string \<Rightarrow> bool" where
  "is_print_ascii s \<longleftrightarrow> list_all (\<lambda>c. 0x20 \<le> (of_char c :: nat) \<and> (of_char c :: nat) \<le> 0x7E) s"

definition hop_headers :: "string list" where
  "hop_headers =
     [''Connection'', ''Proxy-Connection'', ''Keep-Alive'', ''Proxy-Authenticate'',
      ''Proxy-Authorization'', ''Te'', ''Trailer'', ''Transfer-Encoding'', ''Upgrade'']"

definition connection_names :: "header \<Rightarrow> string list" where
  "connection_names h =
     filter (\<lambda>n. n \<noteq> [])
       (map trim_ascii (concat (map (str_split (CHR '','')) (header_values h ''Connection''))))"

definition remove_hop_by_hop :: "header \<Rightarrow> header" where
  "remove_hop_by_hop h =
     foldl (\<lambda>acc k. header_del k acc) (foldl (\<lambda>acc k. header_del k acc) h (connection_names h)) hop_headers"

fun insert_str :: "string \<Rightarrow> string list \<Rightarrow> string list" where
  "insert_str x [] = [x]"
| "insert_str x (y # ys) = (if str_less y x then y # insert_str x ys else x # y # ys)"

text \<open>\<open>ParseQuery\<close> followed by \<open>Values.Encode\<close>, which sorts the keys.\<close>

definition reencode_query :: "string \<Rightarrow> string" where
  "reencode_query s =
     (let pairs = List.map_filter parse_pair (str_split (CHR ''&'') s);
          keys = foldr insert_str (remdups (map fst pairs)) []
      in str_join (concat (map (\<lambda>k. map (\<lambda>(_, v). query_escape k @ ''='' @ query_escape v)
                                     (filter (\<lambda>(k', _). k' = k) pairs)) keys)) ''&'')"

fun query_clean :: "string \<Rightarrow> bool" where
  "query_clean [] = True"
| "query_clean (c # cs) =
     (if c = CHR '';'' then False
      else if c = CHR ''%'' then
        (case cs of a # b # rest \<Rightarrow> is_hex a \<and> is_hex b \<and> query_clean rest | _ \<Rightarrow> False)
      else query_clean cs)"

definition clean_query_params :: "string \<Rightarrow> string" where
  "clean_query_params s = (if query_clean s then s else reencode_query s)"

definition single_joining_slash :: "string \<Rightarrow> string \<Rightarrow> string" where
  "single_joining_slash a b =
     (let aslash = has_suffix a ''/''; bslash = has_prefix b ''/''
      in if aslash \<and> bslash then a @ tl b
         else if \<not> aslash \<and> \<not> bslash then a @ ''/'' @ b
         else a @ b)"

definition join_url_path :: "url \<Rightarrow> url \<Rightarrow> string \<times> string" where
  "join_url_path a b =
     (if u_raw_path a = [] \<and> u_raw_path b = [] then (single_joining_slash (u_path a) (u_path b), [])
      else
        (let apath = escaped_path a; bpath = escaped_path b;
             aslash = has_suffix apath ''/''; bslash = has_prefix bpath ''/''
         in if aslash \<and> bslash then (u_path a @ tl (u_path b), apath @ tl bpath)
            else if \<not> aslash \<and> \<not> bslash then (u_path a @ ''/'' @ u_path b, apath @ ''/'' @ bpath)
            else (u_path a @ u_path b, apath @ bpath)))"

definition set_url :: "url \<Rightarrow> request \<Rightarrow> request" where
  "set_url target out =
     (let u = rq_url out;
          (path, raw_path) = join_url_path target u;
          q = (if u_raw_query target = [] \<or> u_raw_query u = [] then u_raw_query target @ u_raw_query u
               else u_raw_query target @ ''&'' @ u_raw_query u)
      in out\<lparr>rq_url := u\<lparr>u_scheme := u_scheme target, u_host := u_host target, u_path := path,
                         u_raw_path := raw_path, u_raw_query := q\<rparr>, rq_host := []\<rparr>)"

definition set_x_forwarded :: "request \<Rightarrow> request \<Rightarrow> request" where
  "set_x_forwarded inr out =
     (let h = rq_header out;
          h1 = (case net_split_host_port (rq_remote_addr inr) of
                  None \<Rightarrow> header_del ''X-Forwarded-For'' h
                | Some (client_ip, _) \<Rightarrow>
                    (let prior = header_values h ''X-Forwarded-For'';
                         ip = (if prior \<noteq> [] then str_join prior '', '' @ '', '' @ client_ip else client_ip)
                     in header_set ''X-Forwarded-For'' ip h));
          h2 = header_set ''X-Forwarded-Host'' (rq_host inr) h1
      in out\<lparr>rq_header := header_set ''X-Forwarded-Proto'' ''http'' h2\<rparr>)"

text \<open>The outgoing request as the rewrite hook finds it; \<open>None\<close> is a bad protocol switch.\<close>

definition prepare_outgoing :: "request \<Rightarrow> request option" where
  "prepare_outgoing inr =
     (let h0 = rq_header inr; up = upgrade_type h0
      in if \<not> is_print_ascii up then None
         else
           (let h1 = remove_hop_by_hop h0;
                h2 = (if values_contain_token (header_values h0 ''Te'') ''trailers''
                      then header_set ''Te'' ''trailers'' h1 else h1);
                h3 = (if up \<noteq> [] then header_set ''Upgrade'' up (header_set ''Connection'' ''Upgrade'' h2)
                      else h2);
                h4 = foldl (\<lambda>acc k. header_del k acc) h3
                       [''Forwarded'', ''X-Forwarded-For'', ''X-Forwarded-Host'', ''X-Forwarded-Proto'']
            in Some (inr\<lparr>rq_header := h4,
                         rq_url := (rq_url inr)\<lparr>u_raw_query := clean_query_params (u_raw_query (rq_url inr))\<rparr>\<rparr>)))"

definition default_user_agent :: "request \<Rightarrow> request" where
  "default_user_agent out =
     (if ''User-Agent'' \<in> fst ` set (rq_header out) then out
      else out\<lparr>rq_header := header_set ''User-Agent'' [] (rq_header out)\<rparr>)"

section \<open>The proxy\<close>

definition proxy_rewrite :: "config \<Rightarrow> url \<Rightarrow> user \<Rightarrow> request \<Rightarrow> request \<Rightarrow> request" where
  "proxy_rewrite cfg upstream u inr out =
     (let o1 = set_url upstream out;
          o2 = set_x_forwarded inr o1;
          o3 = o2\<lparr>rq_host := u_host upstream\<rparr>;
          o4 = strip_forge_headers o3
      in inject_forge_headers (cf_proxy_secret cfg) u o4)"

definition proxy_error :: "response \<Rightarrow> response" where
  "proxy_error w = http_error ''Bad Gateway'' 502 w"

datatype proxy_out = Answer response | Forward request

definition reverse_proxy :: "config \<Rightarrow> url \<Rightarrow> user \<Rightarrow> request \<Rightarrow> response \<Rightarrow> proxy_out" where
  "reverse_proxy cfg upstream u r w =
     (case prepare_outgoing r of
        None \<Rightarrow> Answer (proxy_error w)
      | Some out \<Rightarrow> Forward (default_user_agent (proxy_rewrite cfg upstream u r out)))"

definition login_url_prefix :: "config \<Rightarrow> string" where
  "login_url_prefix cfg = ''https://'' @ cf_auth_host cfg @ ''/?return_to=''"

definition redirect_to_login :: "config \<Rightarrow> request \<Rightarrow> response \<Rightarrow> response" where
  "redirect_to_login cfg r w =
     (let inbound = ''https://'' @ rq_host r @ request_uri (rq_url r)
      in redirect (login_url_prefix cfg @ query_escape inbound) 302 w)"

definition code_item :: "string \<Rightarrow> string" where
  "code_item s = ''<li><code>'' @ html_escape s @ ''</code></li>''"

definition lines :: "string list \<Rightarrow> string" where
  "lines ls = str_join ls [CHR 0x0A]"

definition unknown_host_page :: "string \<Rightarrow> string \<Rightarrow> string" where
  \<open>unknown_host_page host items = lines
     [''<!doctype html>'', ''<html lang="en">'', ''<head>'', ''<meta charset="utf-8">'',
      ''<title>Unknown Forge app</title>'', ''<style>'',
      ''body { font-family: system-ui, sans-serif; max-width: 36rem; margin: 4rem auto; padding: 0 1rem; color: #1a1a1a; }'',
      ''code { background: #f3f3f3; padding: 0.1em 0.3em; border-radius: 3px; }'',
      ''ul { line-height: 1.6; }'', ''</style>'', ''</head>'', ''<body>'',
      ''<h1>Unknown Forge app</h1>'',
      ''<p>No upstream is configured for <code>'' @ host @ ''</code>.</p>'',
      ''<p>Available apps:</p>'', ''<ul>'' @ items @ ''</ul>'', ''</body>'', ''</html>'', []]\<close>

definition write_unknown_host :: "config \<Rightarrow> request \<Rightarrow> response \<Rightarrow> response" where
  "write_unknown_host cfg r w =
     (let w1 = set_header ''X-Content-Type-Options'' ''nosniff''
                 (set_header ''Content-Type'' ''text/html; charset=utf-8'' w);
          w2 = write_status 404 w1;
          hosts = host_list (new_host_map (cf_upstream_map cfg));
          items = (if hosts = [] then ''<li>(none configured)</li>'' else concat (map code_item hosts))
      in write_body (unknown_host_page (html_escape (rq_host r)) items) w2)"

definition role_denied_page :: "string \<Rightarrow> string \<Rightarrow> string \<Rightarrow> string \<Rightarrow> string" where
  \<open>role_denied_page host items email held = lines
     [''<!doctype html>'', ''<html lang="en">'', ''<head>'', ''<meta charset="utf-8">'',
      ''<title>Access required</title>'', ''<style>'',
      ''body { font-family: system-ui, sans-serif; max-width: 36rem; margin: 4rem auto; padding: 0 1rem; color: #1a1a1a; }'',
      ''code { background: #f3f3f3; padding: 0.1em 0.3em; border-radius: 3px; }'',
      ''ul { line-height: 1.6; }'', ''.meta { color: #555; font-size: 0.9rem; margin-top: 2rem; }'',
      ''</style>'', ''</head>'', ''<body>'',
      ''<h1>You don'' @ [CHR 0x27] @ ''t have access to this app</h1>'',
      ''<p><code>'' @ host @ ''</code> requires one of these roles:</p>'',
      ''<ul>'' @ items @ ''</ul>'',
      ''<p>Ask a Forge organizer to grant you access.</p>'',
      ''<p class="meta">Signed in as '' @ email @ '' &middot; your roles: '' @ held @ ''</p>'',
      ''</body>'', ''</html>'', []]\<close>

definition write_role_denied :: "request \<Rightarrow> user \<Rightarrow> string list \<Rightarrow> response \<Rightarrow> response" where
  "write_role_denied r u required w =
     (let w1 = set_header ''Cache-Control'' ''no-store''
                 (set_header ''X-Content-Type-Options'' ''nosniff''
                   (set_header ''Content-Type'' ''text/html; charset=utf-8'' w));
          w2 = write_status 403 w1;
          held = (if us_roles u \<noteq> [] then str_join (us_roles u) '', '' else ''none'')
      in write_body (role_denied_page (html_escape (normalize_host (rq_host r)))
                       (concat (map code_item required)) (html_escape (us_email u)) (html_escape held)) w2)"

definition serve_proxy ::
    "(string \<Rightarrow> 's \<Rightarrow> session result) \<Rightarrow> (string \<Rightarrow> 's \<Rightarrow> unit result \<times> 's) \<Rightarrow> (int \<Rightarrow> 's \<Rightarrow> user result)
       \<Rightarrow> config \<Rightarrow> request \<Rightarrow> response \<Rightarrow> 's \<Rightarrow> proxy_out \<times> 's" where
  "serve_proxy get_session touch get_user cfg r w s =
     (case resolve_host (new_host_map (cf_upstream_map cfg)) (rq_host r) of
        None \<Rightarrow> (Answer (write_unknown_host cfg r w), s)
      | Some entry \<Rightarrow>
     (case session_read r of
        None \<Rightarrow> (Answer (redirect_to_login cfg r w), s)
      | Some sid \<Rightarrow>
     (case get_session sid s of
        Inl e \<Rightarrow> (Answer (redirect_to_login cfg r w), s)
      | Inr sess \<Rightarrow>
     (case get_user (se_user_id sess) s of
        Inl e \<Rightarrow>
          (if err_is e UserNotFound
           then (Answer (redirect_to_login cfg r (session_clear_cookie (cf_cookie_domain cfg) w)), s)
           else (Answer (http_error ''Internal Server Error'' 500 w), s))
      | Inr u \<Rightarrow>
          if \<not> permits entry (us_roles u)
          then (Answer (write_role_denied r u (up_required_roles entry) w), s)
          else
            (let s' = snd (touch sid s)
             in (reverse_proxy cfg (up_target entry) u r w, s'))))))"

section \<open>Canonical header maps\<close>

lemma canonical_header_set: "canonical_header h \<Longrightarrow> canonical_header (header_set k v h)"
  by (auto simp: canonical_header_def header_set_def distinct_update dom_update)

lemma canonical_header_del: "canonical_header h \<Longrightarrow> canonical_header (header_del k h)"
  by (auto simp: canonical_header_def header_del_def AList.delete_eq distinct_map_filter)

lemma canonical_header_del_all: "canonical_header h \<Longrightarrow> canonical_header (foldl (\<lambda>acc k. header_del k acc) h ks)"
  by (induction ks arbitrary: h) (auto simp: canonical_header_del)

lemmas canonical_intros = canonical_header_set canonical_header_del canonical_header_del_all

lemma canonical_prepare:
  assumes "prepare_outgoing r = Some out" and "canonical_header (rq_header r)"
  shows "canonical_header (rq_header out) \<and> rq_trailer out = rq_trailer r"
proof -
  have "canonical_header (remove_hop_by_hop (rq_header r))"
    unfolding remove_hop_by_hop_def by (intro canonical_intros assms)
  then show ?thesis
    using assms(1)
    by (auto simp: prepare_outgoing_def Let_def intro!: canonical_intros split: if_splits)
qed

lemma canonical_set_url: "rq_header (set_url t out) = rq_header out \<and> rq_trailer (set_url t out) = rq_trailer out"
  by (simp add: set_url_def Let_def split_beta)

lemma canonical_set_x_forwarded:
  "canonical_header (rq_header out) \<Longrightarrow>
     canonical_header (rq_header (set_x_forwarded r out)) \<and> rq_trailer (set_x_forwarded r out) = rq_trailer out"
  by (auto simp: set_x_forwarded_def Let_def intro!: canonical_intros split: option.splits)

text \<open>The request the strip works on, and the one that leaves.\<close>

definition stripped_input :: "url \<Rightarrow> request \<Rightarrow> request \<Rightarrow> request" where
  "stripped_input upstream r out =
     (set_x_forwarded r (set_url upstream out))\<lparr>rq_host := u_host upstream\<rparr>"

lemma proxy_rewrite_eq:
  "proxy_rewrite cfg upstream u r out =
     inject_forge_headers (cf_proxy_secret cfg) u (strip_forge_headers (stripped_input upstream r out))"
  by (simp add: proxy_rewrite_def stripped_input_def Let_def)

lemma canonical_stripped_input:
  "canonical_header (rq_header out) \<Longrightarrow>
     canonical_header (rq_header (stripped_input upstream r out))
     \<and> rq_trailer (stripped_input upstream r out) = rq_trailer out"
  using canonical_set_x_forwarded [of "set_url upstream out" r] canonical_set_url [of upstream out]
  by (simp add: stripped_input_def)

lemma user_agent_values:
  "canonical_key k \<noteq> ''User-Agent'' \<Longrightarrow>
     header_values (rq_header (default_user_agent out)) k = header_values (rq_header out) k"
proof -
  have "canonical_key ''User-Agent'' = ''User-Agent''" by code_simp
  then show "canonical_key k \<noteq> ''User-Agent'' \<Longrightarrow> ?thesis"
    by (simp add: default_user_agent_def header_values_set)
qed

lemma forge_not_user_agent: "forge_key k \<Longrightarrow> canonical_key k \<noteq> ''User-Agent''"
proof -
  have "\<not> forge_key ''User-Agent''" by code_simp
  then show "forge_key k \<Longrightarrow> ?thesis" by (metis forge_key_canonical)
qed

lemma inject_frame [simp]:
  "rq_host (inject_forge_headers secret u out) = rq_host out"
  "rq_trailer (inject_forge_headers secret u out) = rq_trailer out"
  "rq_host (strip_forge_headers out) = rq_host out"
  "rq_host (default_user_agent out) = rq_host out"
  "rq_trailer (default_user_agent out) = rq_trailer out"
  by (simp_all add: inject_forge_headers_def strip_forge_headers_def default_user_agent_def Let_def)

lemma header_values_del_all:
  "header_values (foldl (\<lambda>acc k. header_del k acc) h ks) k =
     (if canonical_key k \<in> canonical_key ` set ks then [] else header_values h k)"
  by (induction ks arbitrary: h) (auto simp: header_values_del)

lemma prepare_cookies:
  assumes "prepare_outgoing r = Some out"
  shows "header_values (rq_header out) ''Cookie'' \<in> {[], header_values (rq_header r) ''Cookie''}"
proof -
  have ks: "canonical_key ''Te'' = ''Te''" "canonical_key ''Upgrade'' = ''Upgrade''"
    "canonical_key ''Connection'' = ''Connection''" "canonical_key ''Forwarded'' = ''Forwarded''"
    "canonical_key ''X-Forwarded-For'' = ''X-Forwarded-For''"
    "canonical_key ''X-Forwarded-Host'' = ''X-Forwarded-Host''"
    "canonical_key ''X-Forwarded-Proto'' = ''X-Forwarded-Proto''" by code_simp+
  from assms show ?thesis
    by (auto simp: prepare_outgoing_def Let_def remove_hop_by_hop_def header_values_del_all
        header_values_del header_values_set ks split: if_splits)
qed

lemma stripped_input_cookies:
  "header_values (rq_header (stripped_input upstream r out)) ''Cookie'' = header_values (rq_header out) ''Cookie''"
proof -
  have ks: "canonical_key ''X-Forwarded-For'' = ''X-Forwarded-For''"
    "canonical_key ''X-Forwarded-Host'' = ''X-Forwarded-Host''"
    "canonical_key ''X-Forwarded-Proto'' = ''X-Forwarded-Proto''" by code_simp+
  show ?thesis
    using canonical_set_url [of upstream out]
    by (simp add: stripped_input_def set_x_forwarded_def Let_def header_values_set header_values_del ks
        split: option.split)
qed

section \<open>What leaves for the upstream\<close>

lemma reverse_proxy_headers:
  assumes "reverse_proxy cfg upstream u r w = Forward out"
    and "canonical_header (rq_header r)" and "canonical_header (rq_trailer r)"
  shows "rq_host out = u_host upstream"
    and "forge_key k \<Longrightarrow> header_values (rq_trailer out) k = []
           \<and> header_values (rq_header out) k =
               (case map_of (forge_pairs (cf_proxy_secret cfg) u) (canonical_key k) of
                  Some v \<Rightarrow> [v] | None \<Rightarrow> [])"
    and "list_all plain_cookie_line (header_values (rq_header r) ''Cookie'') \<Longrightarrow> session_read out = None"
proof -
  from assms(1) obtain o1 where o1: "prepare_outgoing r = Some o1"
    and out: "out = default_user_agent (proxy_rewrite cfg upstream u r o1)"
    by (auto simp: reverse_proxy_def split: option.splits)
  let ?si = "stripped_input upstream r o1"
  have can: "canonical_header (rq_header ?si)" "canonical_header (rq_trailer ?si)"
    using canonical_prepare [OF o1 assms(2)] canonical_stripped_input [of o1 upstream r] assms(3) by simp_all
  show "rq_host out = u_host upstream"
    by (simp add: out proxy_rewrite_eq stripped_input_def)
  show "header_values (rq_trailer out) k = []
           \<and> header_values (rq_header out) k =
               (case map_of (forge_pairs (cf_proxy_secret cfg) u) (canonical_key k) of
                  Some v \<Rightarrow> [v] | None \<Rightarrow> [])" if "forge_key k"
    using strip_headers_forge [OF can(1) that] that can(2)
    by (simp add: out user_agent_values forge_not_user_agent proxy_rewrite_eq inject_values
        strip_forge_headers_def Let_def header_values_strip split: option.split)
  show "session_read out = None" if plain: "list_all plain_cookie_line (header_values (rq_header r) ''Cookie'')"
  proof -
    have "list_all plain_cookie_line (header_values (rq_header ?si) ''Cookie'')"
      using prepare_cookies [OF o1] plain by (auto simp: stripped_input_cookies)
    from session_cookie_stripped [OF can(1) this]
    have "session_read (strip_forge_headers ?si) = None" by blast
    moreover have "map_of (forge_pairs (cf_proxy_secret cfg) u) ''Cookie'' = None"
      using forge_pairs_forge [of "cf_proxy_secret cfg" u "''Cookie''"]
      by (cases "map_of (forge_pairs (cf_proxy_secret cfg) u) ''Cookie''") auto
    then have "read_cookies (rq_header out) = read_cookies (rq_header (strip_forge_headers ?si))"
      by (simp add: read_cookies_def out user_agent_values proxy_rewrite_eq inject_values)
    ultimately show ?thesis by (simp add: session_read_def request_cookie_def cookie_name_def)
  qed
qed

section \<open>The interfaces of the proxy\<close>

text \<open>
  What the handler relies on: a session it is given belongs to the owner the store records for
  the id, and a touch changes neither an owner nor a user.
\<close>

locale proxy_stores =
  fixes get_session :: "string \<Rightarrow> 's \<Rightarrow> session result"
    and touch :: "string \<Rightarrow> 's \<Rightarrow> unit result \<times> 's"
    and get_user :: "int \<Rightarrow> 's \<Rightarrow> user result"
    and owner :: "'s \<Rightarrow> string \<Rightarrow> int option"
  assumes get_owner: "get_session sid s = Inr x \<Longrightarrow> owner s sid = Some (se_user_id x)"
    and touch_owner: "owner (snd (touch sid s)) = owner s"
    and touch_user: "get_user uid (snd (touch sid s)) = get_user uid s"
begin

definition authorised :: "config \<Rightarrow> request \<Rightarrow> 's \<Rightarrow> string \<Rightarrow> upstream \<Rightarrow> user \<Rightarrow> bool" where
  "authorised cfg r s sid entry u \<longleftrightarrow>
     resolve_host (new_host_map (cf_upstream_map cfg)) (rq_host r) = Some entry
     \<and> session_read r = Some sid \<and> \<not> isl (get_session sid s)
     \<and> (\<exists>uid. owner s sid = Some uid \<and> get_user uid s = Inr u) \<and> permits entry (us_roles u)"

lemma forwarded_authorised:
  assumes "serve_proxy get_session touch get_user cfg r w s = (Forward out, s')"
  shows "\<exists>sid entry u. authorised cfg r s sid entry u \<and> s' = snd (touch sid s)
           \<and> reverse_proxy cfg (up_target entry) u r w = Forward out"
  using assms
  by (auto simp: serve_proxy_def authorised_def Let_def dest!: get_owner
      split: option.splits sum.splits if_splits)

lemma authorised_forwarded:
  assumes "authorised cfg r s sid entry u" and "prepare_outgoing r \<noteq> None"
  shows "\<exists>out. serve_proxy get_session touch get_user cfg r w s = (Forward out, snd (touch sid s))"
  using assms get_owner
  by (fastforce simp: serve_proxy_def authorised_def Let_def reverse_proxy_def
      split: option.splits sum.splits)

lemma serve_state:
  "snd (serve_proxy get_session touch get_user cfg r w s) \<in> insert s (range (\<lambda>sid. snd (touch sid s)))"
  by (auto simp: serve_proxy_def Let_def split: option.splits sum.splits)

lemma serve_keeps_owner: "owner (snd (serve_proxy get_session touch get_user cfg r w s)) = owner s"
  using serve_state [of cfg r w s] touch_owner by auto

lemma serve_keeps_user: "get_user uid (snd (serve_proxy get_session touch get_user cfg r w s)) = get_user uid s"
  using serve_state [of cfg r w s] touch_user by auto

end

section \<open>The stores as the proxy sees them\<close>

record proxy_faults =
  pf_get :: "err option"
  pf_touch_read :: "err option"
  pf_touch :: tx_fault
  pf_user :: "err option"

definition no_proxy_fault :: proxy_faults where
  "no_proxy_fault = \<lparr>pf_get = None, pf_touch_read = None, pf_touch = no_fault, pf_user = None\<rparr>"

definition store_get :: "session_opts \<Rightarrow> gotime \<Rightarrow> proxy_faults \<Rightarrow> string \<Rightarrow> db \<Rightarrow> session result" where
  "store_get opts now f = session_get opts now (pf_get f)"

definition store_touch :: "session_opts \<Rightarrow> gotime \<Rightarrow> proxy_faults \<Rightarrow> string \<Rightarrow> db \<Rightarrow> unit result \<times> db" where
  "store_touch opts now f = session_touch opts now (pf_touch_read f) (pf_touch f)"

definition store_user :: "proxy_faults \<Rightarrow> int \<Rightarrow> db \<Rightarrow> user result" where
  "store_user f = user_get (pf_user f)"

definition session_owner :: "db \<Rightarrow> string \<Rightarrow> int option" where
  "session_owner d sid = map_option sr_user_id (session_abs d sid)"

definition serve_on_db ::
    "session_opts \<Rightarrow> gotime \<Rightarrow> proxy_faults \<Rightarrow> config \<Rightarrow> request \<Rightarrow> response \<Rightarrow> db \<Rightarrow> proxy_out \<times> db" where
  "serve_on_db opts now f =
     serve_proxy (store_get opts now f) (store_touch opts now f) (store_user f)"

lemma touch_state_cases:
  "snd (session_touch opts now pre f sid d) \<in> {d, snd (session_exec (STouch now f sid) opts d)}"
  by (auto simp: session_touch_def Let_def split_beta split: sum.splits bool.splits)

lemma touch_exec_owner: "session_owner (snd (session_exec (STouch now f sid) opts d)) = session_owner d"
proof -
  obtain ok d' where e: "session_exec (STouch now f sid) opts d = (ok, d')"
    by (cases "session_exec (STouch now f sid) opts d")
  from session_touch_abs [OF e] e show ?thesis
    by (auto simp: session_owner_def fun_eq_iff renewed_def split: option.splits)
qed

interpretation ps: proxy_stores "store_get opts now f" "store_touch opts now f" "store_user f" session_owner
  for opts now f
proof
  show "session_owner s sid = Some (se_user_id x)" if "store_get opts now f sid s = Inr x" for s sid x
    using session_get_Inr [OF that [unfolded store_get_def]] by (auto simp: session_owner_def)
  show "session_owner (snd (store_touch opts now f sid s)) = session_owner s" for s sid
    using touch_state_cases [of opts now "pf_touch_read f" "pf_touch f" sid s] touch_exec_owner
    by (auto simp: store_touch_def)
  show "store_user f uid (snd (store_touch opts now f sid s)) = store_user f uid s" for s sid uid
  proof -
    have "users (snd (session_exec (STouch now (pf_touch f) sid) opts s)) = users s"
      using session_exec_frame by (metis prod.collapse)
    then have "users (snd (store_touch opts now f sid s)) = users s"
      using touch_state_cases [of opts now "pf_touch_read f" "pf_touch f" sid s]
      by (auto simp: store_touch_def)
    then show ?thesis by (simp add: store_user_def user_get_def query_one_def split: option.split)
  qed
qed

section \<open>Properties\<close>

text \<open>
  C1. Nothing reaches an upstream without authorisation.  If a request leaves for an upstream,
  then its host is configured, its cookie names a session row that has not expired, the row's
  user exists with a parsing roles column, and the user holds one of the roles the upstream
  requires, if it requires any.  What leaves goes to that upstream with exactly the trusted
  identity of that user in its \<open>X-Forge-*\<close> headers and trailers.
\<close>

theorem proxy_forward_authorised:
  assumes "serve_on_db opts now f cfg r w d = (Forward out, d')"
    and "canonical_header (rq_header r)" and "canonical_header (rq_trailer r)"
  shows "\<exists>sid row entry u.
           resolve_host (new_host_map (cf_upstream_map cfg)) (rq_host r) = Some entry
           \<and> session_read r = Some sid
           \<and> session_abs d sid = Some row \<and> now < from_unix (sr_expires_at row)
           \<and> user_get None (sr_user_id row) d = Inr u
           \<and> (up_required_roles entry = [] \<or> set (up_required_roles entry) \<inter> set (us_roles u) \<noteq> {})
           \<and> rq_host out = u_host (up_target entry)
           \<and> (\<forall>k. forge_key k \<longrightarrow> header_values (rq_trailer out) k = []
                \<and> header_values (rq_header out) k =
                    (case map_of (forge_pairs (cf_proxy_secret cfg) u) (canonical_key k) of
                       Some v \<Rightarrow> [v] | None \<Rightarrow> []))
           \<and> (list_all plain_cookie_line (header_values (rq_header r) ''Cookie'') \<longrightarrow> session_read out = None)"
proof -
  from ps.forwarded_authorised [OF assms(1) [unfolded serve_on_db_def]]
  obtain sid entry u where a: "ps.authorised opts now f cfg r d sid entry u"
    and rp: "reverse_proxy cfg (up_target entry) u r w = Forward out" by blast
  note auth = a [unfolded ps.authorised_def]
  then obtain x uid where x: "store_get opts now f sid d = Inr x"
    and uid: "session_owner d sid = Some uid" and user: "store_user f uid d = Inr u"
    by (cases "store_get opts now f sid d") auto
  from session_get_Inr [OF x [unfolded store_get_def]] obtain row where row: "session_abs d sid = Some row"
    "now < from_unix (sr_expires_at row)" by blast
  from user have "user_get None uid d = Inr u"
    by (auto simp: store_user_def user_get_def query_one_def split: option.splits)
  with row uid auth reverse_proxy_headers [OF rp assms(2,3)] show ?thesis
    by (auto simp: session_owner_def permits_iff)
qed

definition example_config :: config where
  "example_config =
     \<lparr>cf_listen_addr = '':8080'', cf_base_domain = ''forgeutah.tech'', cf_auth_host = ''auth.forgeutah.tech'',
      cf_cookie_domain = ''.forgeutah.tech'', cf_slack_client_id = ''id'', cf_slack_client_secret = ''sec'',
      cf_slack_team_id = ''T01'', cf_db_path = ''/data/forge.db'',
      cf_upstream_map = [(''wiki.forgeutah.tech'',
         \<lparr>up_target = empty_url\<lparr>u_scheme := ''http'', u_host := ''wiki:3000''\<rparr>,
          up_required_roles = [''dev'', ''ops'']\<rparr>)],
      cf_session_lifetime = seconds 3600, cf_session_idle_timeout = seconds 900,
      cf_proxy_secret = ''0123456789abcdef0123456789abcdef'',
      cf_default_landing_url = ''https://auth.forgeutah.tech/'', cf_ssh_upstreams = [],
      cf_ssh_host_key_path = [], cf_ssh_ca_key_path = [], cf_ssh_known_hosts_path = [],
      cf_ssh_listen_addr = [], cf_log_level = ''info''\<rparr>"

definition is_forward :: "proxy_out \<Rightarrow> bool" where
  "is_forward p = (case p of Forward _ \<Rightarrow> True | Answer _ \<Rightarrow> False)"

lemma proxy_forward_authorised_witness:
  "let d = session_run example_opts example_ops example_db;
       r = example_request [(''Cookie'', [''forge_session=YWJj'']), (''X-Forge-Roles'', [''admin''])] []
   in \<exists>out d'. serve_on_db example_opts (seconds 1200) no_proxy_fault example_config r new_response d
                  = (Forward out, d')
        \<and> rq_host out = ''wiki:3000''
        \<and> header_values (rq_trailer out) ''X-Forge-Roles'' = []"
proof -
  let ?r = "example_request [(''Cookie'', [''forge_session=YWJj'']), (''X-Forge-Roles'', [''admin''])] []"
  let ?d = "session_run example_opts example_ops example_db"
  let ?s = "serve_on_db example_opts (seconds 1200) no_proxy_fault example_config ?r new_response ?d"
  have "is_forward (fst ?s)" by code_simp
  then obtain out d' where s: "?s = (Forward out, d')"
    by (cases ?s; cases "fst ?s") (auto simp: is_forward_def)
  have can: "canonical_header (rq_header ?r)" "canonical_header (rq_trailer ?r)"
    unfolding canonical_header_def by code_simp+
  have host: "map_option (\<lambda>e. u_host (up_target e))
      (resolve_host (new_host_map (cf_upstream_map example_config)) (rq_host ?r)) = Some ''wiki:3000''"
    by code_simp
  have "forge_key ''X-Forge-Roles''" by code_simp
  with proxy_forward_authorised [OF s can] host s show ?thesis by auto
qed

text \<open>A sequence of requests, each with its clock reading and the failures it meets.\<close>

fun serve_many ::
    "session_opts \<Rightarrow> config \<Rightarrow> (gotime \<times> proxy_faults \<times> request) list \<Rightarrow> db \<Rightarrow> proxy_out list \<times> db" where
  "serve_many opts cfg [] d = ([], d)"
| "serve_many opts cfg ((now, f, r) # rs) d =
     (let (out, d1) = serve_on_db opts now f cfg r new_response d;
          (outs, d2) = serve_many opts cfg rs d1
      in (out # outs, d2))"

lemma serve_on_db_state:
  "snd (serve_on_db opts now f cfg r w d) = d \<or>
   (\<exists>sid. snd (serve_on_db opts now f cfg r w d) = snd (session_exec (STouch now (pf_touch f) sid) opts d))"
  using ps.serve_state [of opts now f cfg r w d] touch_state_cases [of opts now "pf_touch_read f" "pf_touch f" _ d]
  by (fastforce simp: serve_on_db_def store_touch_def)

lemma serve_on_db_frame:
  "users (snd (serve_on_db opts now f cfg r w d)) = users d
   \<and> ssh_keys (snd (serve_on_db opts now f cfg r w d)) = ssh_keys d
   \<and> session_owner (snd (serve_on_db opts now f cfg r w d)) = session_owner d
   \<and> (db_wf d \<longrightarrow> db_wf (snd (serve_on_db opts now f cfg r w d)))"
  using serve_on_db_state [of opts now f cfg r w d] touch_exec_owner session_exec_wf
    session_exec_frame [OF surjective_pairing [of "session_exec _ opts d"]]
  by (metis (no_types, lifting) prod.collapse session_exec_frame)

text \<open>
  Proxied traffic cannot change who is who: whatever requests the proxy serves, with whatever
  clock readings and failures, the users and the SSH keys stay as they are, every session id
  keeps its owner (none appears, none disappears), and the database stays well-formed.
\<close>

theorem proxy_traffic_frame:
  "users (snd (serve_many opts cfg rs d)) = users d
   \<and> ssh_keys (snd (serve_many opts cfg rs d)) = ssh_keys d
   \<and> session_owner (snd (serve_many opts cfg rs d)) = session_owner d
   \<and> (db_wf d \<longrightarrow> db_wf (snd (serve_many opts cfg rs d)))"
proof (induction rs arbitrary: d)
  case (Cons x rs)
  obtain now f r where x: "x = (now, f, r)" by (cases x)
  show ?case
    using Cons.IH [of "snd (serve_on_db opts now f cfg r new_response d)"]
      serve_on_db_frame [of opts now f cfg r new_response d]
    by (simp add: x Let_def split_beta)
qed simp

lemma proxy_traffic_frame_witness:
  "session_owner (snd (serve_many example_opts example_config
       [(seconds 1200, no_proxy_fault, example_request [(''Cookie'', [''forge_session=YWJj''])] [])]
       (session_run example_opts example_ops example_db))) ''YWJj'' = Some 1"
proof -
  have "session_owner (session_run example_opts example_ops example_db) ''YWJj'' = Some 1" by code_simp
  then show ?thesis using proxy_traffic_frame [of example_opts example_config _ "session_run example_opts example_ops example_db"]
    by metis
qed

text \<open>
  C2. Who is served.  When no store fails, a request is forwarded exactly if it can be prepared for the
  upstream, its host is that of an upstream, its cookie names a session of the table that has not
  expired, the user of the session exists and has a readable roles column, and the upstream asks
  for no role or for one the user has: nobody else is let through, and nobody of these is turned away.
\<close>

theorem proxy_forwards_iff:
  "(\<exists>out d'. serve_on_db opts now no_proxy_fault cfg r w d = (Forward out, d')) \<longleftrightarrow>
     prepare_outgoing r \<noteq> None
     \<and> (\<exists>entry sid row u. resolve_host (new_host_map (cf_upstream_map cfg)) (rq_host r) = Some entry
          \<and> session_read r = Some sid \<and> session_abs d sid = Some row \<and> now < from_unix (sr_expires_at row)
          \<and> user_get None (sr_user_id row) d = Inr u
          \<and> (up_required_roles entry = [] \<or> set (up_required_roles entry) \<inter> set (us_roles u) \<noteq> {}))"
    (is "?served \<longleftrightarrow> ?may")
proof
  assume ?served
  then obtain out d' where fwd: "serve_on_db opts now no_proxy_fault cfg r w d = (Forward out, d')" by blast
  from ps.forwarded_authorised [OF fwd [unfolded serve_on_db_def]] obtain sid entry u
    where a: "ps.authorised opts now no_proxy_fault cfg r d sid entry u"
      and p: "reverse_proxy cfg (up_target entry) u r w = Forward out" by blast
  from p have "prepare_outgoing r \<noteq> None" by (auto simp: reverse_proxy_def split: option.splits)
  with a [unfolded ps.authorised_def] show ?may
    by (auto simp: store_get_def store_user_def no_proxy_fault_def session_owner_def permits_iff
        session_get_abs split: option.splits if_splits)
next
  assume ?may
  then obtain entry sid row u where o: "prepare_outgoing r \<noteq> None"
    "resolve_host (new_host_map (cf_upstream_map cfg)) (rq_host r) = Some entry" "session_read r = Some sid"
    "session_abs d sid = Some row" "now < from_unix (sr_expires_at row)" "user_get None (sr_user_id row) d = Inr u"
    "permits entry (us_roles u)" unfolding permits_iff by blast
  then have "ps.authorised opts now no_proxy_fault cfg r d sid entry u"
    unfolding ps.authorised_def
    by (simp add: store_get_def store_user_def no_proxy_fault_def session_owner_def session_get_abs)
  from ps.authorised_forwarded [OF this o(1), of w] show ?served unfolding serve_on_db_def by blast
qed

lemma proxy_forwards_iff_witness:
  "let d = session_run example_opts example_ops example_db; served = (\<lambda>now h. \<exists>out d'.
         serve_on_db example_opts now no_proxy_fault example_config (example_request h []) new_response d = (Forward out, d'))
   in served (seconds 1200) [(''Cookie'', [''forge_session=YWJj''])] \<and> \<not> served (seconds 1200) []
      \<and> \<not> served (seconds 100000) [(''Cookie'', [''forge_session=YWJj''])]"
proof -
  let ?d = "session_run example_opts example_ops example_db"
  let ?r = "\<lambda>h. example_request h []"
  let ?h = "[(''Cookie'', [''forge_session=YWJj''])]"
  have host: "map_option up_required_roles (resolve_host (new_host_map (cf_upstream_map example_config)) (rq_host (?r ?h)))
      = Some [''dev'', ''ops'']" and cookie: "session_read (?r ?h) = Some ''YWJj''" "session_read (?r []) = None"
    and prepared: "prepare_outgoing (?r ?h) \<noteq> None"
    and row: "map_option sr_user_id (session_abs ?d ''YWJj'') = Some 1"
      "map_option (\<lambda>r. seconds 1200 < from_unix (sr_expires_at r)) (session_abs ?d ''YWJj'') = Some True"
      "map_option (\<lambda>r. seconds 100000 < from_unix (sr_expires_at r)) (session_abs ?d ''YWJj'') = Some False"
    and usr: "map_sum id us_roles (user_get None 1 ?d) = Inr [''admin'', ''dev'']"
    by code_simp+
  from usr obtain u where u: "user_get None 1 ?d = Inr u" "us_roles u = [''admin'', ''dev'']"
    by (auto simp: map_sum_def split: sum.splits)
  from row host obtain x entry where x: "session_abs ?d ''YWJj'' = Some x" "sr_user_id x = 1"
    "seconds 1200 < from_unix (sr_expires_at x)" "\<not> seconds 100000 < from_unix (sr_expires_at x)"
    "resolve_host (new_host_map (cf_upstream_map example_config)) (rq_host (?r ?h)) = Some entry"
    "up_required_roles entry = [''dev'', ''ops'']" by auto
  show ?thesis
    unfolding Let_def proxy_forwards_iff using x u cookie prepared by auto
qed

end
