(* ===== verification/HttpLog.thy ===== *)
theory HttpLog
  imports GoHttp GoCodec Complex_Main
begin

text \<open>
  \<open>internal/httplog\<close>: the middleware every request passes and the rate limiter of the auth
  endpoints.

  A handler gets the request id its context carries, the request, the answer under construction
  and a state, and gives an outcome and a state.  The limiter's tokens are rational numbers: the
  rounding of \<open>float64\<close> is not modelled.  The clock reading of a call is an argument.  Log lines are
  values; the loggers that print them are not modelled.
\<close>

section \<open>Middleware\<close>

type_synonym ('s, 'o) handler = "string option \<Rightarrow> request \<Rightarrow> response \<Rightarrow> 's \<Rightarrow> 'o \<times> 's"

definition request_id_header :: string where
  "request_id_header = ''X-Request-Id''"

definition request_id :: "string option \<Rightarrow> string" where
  "request_id ctx = (case ctx of Some v \<Rightarrow> v | None \<Rightarrow> [])"

text \<open>\<open>stamp\<close> is the clock reading in the layout of the fallback.\<close>

definition new_request_id :: "string result \<Rightarrow> string \<Rightarrow> string" where
  "new_request_id rnd stamp =
     (case rnd of Inl e \<Rightarrow> ''rng-fallback-'' @ stamp | Inr b \<Rightarrow> b64_encode b)"

definition request_id_middleware :: "string result \<Rightarrow> string \<Rightarrow> ('s, 'o) handler \<Rightarrow> ('s, 'o) handler" where
  "request_id_middleware rnd stamp next ctx r w s =
     (let id0 = header_get (rq_header r) request_id_header;
          id = (if id0 = [] then new_request_id rnd stamp else id0)
      in next (Some id) r (set_header request_id_header id w) s)"

definition hsts_middleware :: "('s, 'o) handler \<Rightarrow> ('s, 'o) handler" where
  "hsts_middleware next ctx r w s =
     next ctx r (set_header ''Strict-Transport-Security'' ''max-age=63072000; includeSubDomains'' w) s"

definition client_ip :: "request \<Rightarrow> string" where
  "client_ip r =
     (case net_split_host_port (rq_remote_addr r) of None \<Rightarrow> rq_remote_addr r | Some (host, _) \<Rightarrow> host)"

section \<open>The status recorder\<close>

text \<open>
  A call a handler makes on the recorder: \<open>Write\<close> with the number of bytes the underlying writer
  accepted, \<open>Hijack\<close> and \<open>Flush\<close> with whether the underlying writer supports it.
\<close>

datatype writer_call = CallWriteHeader nat | CallWrite nat | CallHijack bool | CallFlush bool

record status_recorder =
  sr_status :: nat
  sr_bytes :: nat

fun recorder_step :: "status_recorder \<Rightarrow> writer_call \<Rightarrow> status_recorder \<times> writer_call list" where
  "recorder_step s (CallWriteHeader code) = (s\<lparr>sr_status := code\<rparr>, [CallWriteHeader code])"
| "recorder_step s (CallWrite n) = (s\<lparr>sr_bytes := sr_bytes s + n\<rparr>, [CallWrite n])"
| "recorder_step s (CallHijack ok) =
     (if \<not> ok then (s, []) else (s\<lparr>sr_status := 101\<rparr>, [CallHijack ok]))"
| "recorder_step s (CallFlush ok) = (s, if ok then [CallFlush ok] else [])"

fun recorder_run :: "status_recorder \<Rightarrow> writer_call list \<Rightarrow> status_recorder \<times> writer_call list" where
  "recorder_run s [] = (s, [])"
| "recorder_run s (c # cs) =
     (let (s1, out) = recorder_step s c; (s2, outs) = recorder_run s1 cs in (s2, out @ outs))"

record log_entry =
  le_method :: string
  le_path :: string
  le_status :: nat
  le_duration_ms :: int
  le_bytes_out :: nat
  le_remote_addr :: string

text \<open>The types of values that must not reach a log, and what \<open>slog\<close> prints of them.\<close>

datatype sensitive = SessionID string | ProxySecret string | SSHEnrollmentToken string

definition log_value :: "sensitive \<Rightarrow> string" where
  "log_value v = ''[REDACTED]''"

text \<open>
  The access log of a request served from \<open>start\<close> to \<open>finish\<close> by a handler that made \<open>calls\<close>; the
  second component is what the connection's own writer sees.
\<close>

definition access_log :: "gotime \<Rightarrow> gotime \<Rightarrow> request \<Rightarrow> writer_call list \<Rightarrow> log_entry \<times> writer_call list" where
  "access_log start finish r calls =
     (let (rec, passed) = recorder_run \<lparr>sr_status = 200, sr_bytes = 0\<rparr> calls
      in (\<lparr>le_method = rq_method r, le_path = u_path (rq_url r), le_status = sr_status rec,
           le_duration_ms = time_sub finish start div 1000000, le_bytes_out = sr_bytes rec,
           le_remote_addr = client_ip r\<rparr>, passed))"

text \<open>
  The status on the wire: the first final \<open>WriteHeader\<close>, 200 if a body or nothing comes first, 101
  for a taken over connection.  A 1xx status other than 101 is an interim answer.
\<close>

definition interim :: "nat \<Rightarrow> bool" where
  "interim code \<longleftrightarrow> 100 \<le> code \<and> code \<le> 199 \<and> code \<noteq> 101"

fun wire_status :: "writer_call list \<Rightarrow> nat" where
  "wire_status [] = 200"
| "wire_status (CallWriteHeader code # cs) = (if interim code then wire_status cs else code)"
| "wire_status (CallWrite n # cs) = 200"
| "wire_status (CallHijack ok # cs) = (if ok then 101 else wire_status cs)"
| "wire_status (CallFlush ok # cs) = (if ok then 200 else wire_status cs)"

text \<open>
  Calls as net/http wants them: one final \<open>WriteHeader\<close> at most, before the body, and one after an
  interim answer; nothing after a takeover.
\<close>

datatype answer_phase = Fresh | Informed | Committed

fun proper_calls :: "answer_phase \<Rightarrow> writer_call list \<Rightarrow> bool" where
  "proper_calls p [] = (p \<noteq> Informed)"
| "proper_calls p (CallWriteHeader code # cs) =
     (p \<noteq> Committed \<and> proper_calls (if interim code then Informed else Committed) cs)"
| "proper_calls p (CallWrite n # cs) = (p \<noteq> Informed \<and> proper_calls Committed cs)"
| "proper_calls p (CallHijack ok # cs) = (if ok then p = Fresh \<and> cs = [] else proper_calls p cs)"
| "proper_calls p (CallFlush ok # cs) =
     (if ok then p \<noteq> Informed \<and> proper_calls Committed cs else proper_calls p cs)"

fun bytes_written :: "writer_call list \<Rightarrow> nat" where
  "bytes_written [] = 0"
| "bytes_written (CallWrite n # cs) = n + bytes_written cs"
| "bytes_written (c # cs) = bytes_written cs"

definition supported :: "writer_call \<Rightarrow> bool" where
  "supported c \<longleftrightarrow> c \<noteq> CallHijack False \<and> c \<noteq> CallFlush False"

lemma recorder_passes: "snd (recorder_run s cs) = filter supported cs"
proof (induction cs arbitrary: s)
  case (Cons c cs)
  then show ?case by (cases c) (auto simp: supported_def Let_def split_beta)
qed simp

lemma recorder_bytes: "sr_bytes (fst (recorder_run s cs)) = sr_bytes s + bytes_written cs"
proof (induction cs arbitrary: s)
  case (Cons c cs)
  then show ?case by (cases c) (auto simp: Let_def split_beta)
qed simp

lemma recorder_committed:
  "proper_calls Committed cs \<Longrightarrow> sr_status (fst (recorder_run s cs)) = sr_status s"
proof (induction cs arbitrary: s)
  case (Cons c cs)
  then show ?case by (cases c) (auto simp: Let_def split_beta split: if_splits)
qed simp

lemma recorder_status:
  "proper_calls p cs \<Longrightarrow> p \<noteq> Committed \<Longrightarrow> (p = Fresh \<longrightarrow> sr_status s = 200) \<Longrightarrow>
     sr_status (fst (recorder_run s cs)) = wire_status cs"
proof (induction cs arbitrary: s p)
  case Nil
  then show ?case by (cases p) auto
next
  case (Cons c cs)
  show ?case
  proof (cases c)
    case (CallWriteHeader code)
    with Cons show ?thesis
      by (cases "interim code") (auto simp: Let_def split_beta recorder_committed)
  next
    case (CallWrite n)
    with Cons.prems show ?thesis by (cases p) (auto simp: Let_def split_beta recorder_committed)
  next
    case (CallHijack ok)
    with Cons show ?thesis by (auto simp: Let_def split_beta)
  next
    case (CallFlush ok)
    with Cons show ?thesis by (cases p) (auto simp: Let_def split_beta recorder_committed)
  qed
qed

section \<open>The rate limiter\<close>

record bucket =
  bk_tokens :: rat
  bk_last_seen :: gotime

record rate_limiter =
  rl_buckets :: "string \<Rightarrow> bucket option"
  rl_capacity :: rat
  rl_refill_per_second :: rat

definition new_rate_limiter :: "int \<Rightarrow> rate_limiter" where
  "new_rate_limiter per_minute =
     \<lparr>rl_buckets = (\<lambda>_. None), rl_capacity = of_int per_minute,
      rl_refill_per_second = of_int per_minute / 60\<rparr>"

definition duration_seconds :: "duration \<Rightarrow> rat" where
  "duration_seconds d = of_int d / of_int nanos_per_sec"

definition rl_allow :: "gotime \<Rightarrow> string \<Rightarrow> rate_limiter \<Rightarrow> bool \<times> rate_limiter" where
  "rl_allow now ip rl =
     (case rl_buckets rl ip of
        None \<Rightarrow>
          (True, rl\<lparr>rl_buckets := (rl_buckets rl)(ip \<mapsto> \<lparr>bk_tokens = rl_capacity rl - 1, bk_last_seen = now\<rparr>)\<rparr>)
      | Some b \<Rightarrow>
          (let elapsed = duration_seconds (time_sub now (bk_last_seen b));
               tokens = min (rl_capacity rl) (bk_tokens b + elapsed * rl_refill_per_second rl)
           in if tokens < 1
              then (False, rl\<lparr>rl_buckets := (rl_buckets rl)(ip \<mapsto> \<lparr>bk_tokens = tokens, bk_last_seen = now\<rparr>)\<rparr>)
              else (True, rl\<lparr>rl_buckets := (rl_buckets rl)(ip \<mapsto> \<lparr>bk_tokens = tokens - 1, bk_last_seen = now\<rparr>)\<rparr>)))"

definition rate_limit_middleware ::
    "gotime \<Rightarrow> ('s \<times> rate_limiter, response) handler \<Rightarrow> ('s \<times> rate_limiter, response) handler" where
  "rate_limit_middleware now next ctx r w st =
     (let (s, rl) = st; (ok, rl') = rl_allow now (client_ip r) rl
      in if \<not> ok then
           (let w1 = set_header ''Content-Type'' ''text/plain; charset=utf-8'' (set_header ''Retry-After'' ''60'' w)
            in (write_body (''rate limited; try again in a minute'' @ [CHR 0x0A]) (write_status 429 w1), (s, rl')))
         else next ctx r w (s, rl'))"

text \<open>A sequence of calls, each a clock reading and a client address.\<close>

fun rl_run :: "rate_limiter \<Rightarrow> (gotime \<times> string) list \<Rightarrow> bool list \<times> rate_limiter" where
  "rl_run rl [] = ([], rl)"
| "rl_run rl ((now, ip) # evs) =
     (let (ok, rl1) = rl_allow now ip rl; (oks, rl2) = rl_run rl1 evs in (ok # oks, rl2))"

definition granted :: "string \<Rightarrow> (gotime \<times> string) list \<Rightarrow> bool list \<Rightarrow> nat" where
  "granted ip evs oks = length (filter (\<lambda>((_, i), ok). i = ip \<and> ok) (zip evs oks))"

text \<open>
  What a client can still spend at time \<open>t\<close>: the tokens of its bucket after the refill.
\<close>

definition spendable :: "rate_limiter \<Rightarrow> string \<Rightarrow> gotime \<Rightarrow> rat" where
  "spendable rl ip t =
     (case rl_buckets rl ip of
        None \<Rightarrow> rl_capacity rl
      | Some b \<Rightarrow> min (rl_capacity rl)
                   (bk_tokens b + duration_seconds (t - bk_last_seen b) * rl_refill_per_second rl))"

definition rl_wf :: "gotime \<Rightarrow> rate_limiter \<Rightarrow> bool" where
  "rl_wf t rl \<longleftrightarrow> 1 \<le> rl_capacity rl \<and> 0 \<le> rl_refill_per_second rl
     \<and> (\<forall>ip b. rl_buckets rl ip = Some b \<longrightarrow>
           0 \<le> bk_tokens b \<and> bk_tokens b \<le> rl_capacity rl \<and> bk_last_seen b \<le> t)"

lemma duration_seconds_mono: "d \<le> e \<Longrightarrow> duration_seconds d \<le> duration_seconds e"
  by (simp add: duration_seconds_def divide_right_mono)

lemma duration_seconds_nonneg: "0 \<le> d \<Longrightarrow> 0 \<le> duration_seconds d"
  using duration_seconds_mono [of 0 d] by (simp add: duration_seconds_def)

lemma duration_seconds_diff:
  "duration_seconds (t - u) = duration_seconds (t - v) + duration_seconds (v - u)"
  by (simp add: duration_seconds_def field_simps)

lemma time_sub_le: "u \<le> t \<Longrightarrow> time_sub t u \<le> t - u \<and> 0 \<le> time_sub t u"
  by (auto simp: time_sub_def)

lemma rl_allow_other: "ip' \<noteq> ip \<Longrightarrow> rl_buckets (snd (rl_allow now ip' rl)) ip = rl_buckets rl ip"
  by (simp add: rl_allow_def Let_def split: option.split)

lemma rl_allow_frame [simp]:
  "rl_capacity (snd (rl_allow now ip rl)) = rl_capacity rl"
  "rl_refill_per_second (snd (rl_allow now ip rl)) = rl_refill_per_second rl"
  by (simp_all add: rl_allow_def Let_def split: option.split)

lemma rl_run_frame [simp]:
  "rl_capacity (snd (rl_run rl evs)) = rl_capacity rl"
  "rl_refill_per_second (snd (rl_run rl evs)) = rl_refill_per_second rl"
  by (induction evs arbitrary: rl) (auto simp: Let_def split_beta)

text \<open>
  One call: the client pays a token out of what it can spend, or has less than one.
\<close>

lemma rl_allow_pays:
  assumes "rl_wf t rl" and "t \<le> now"
  obtains tok where "rl_buckets (snd (rl_allow now ip rl)) ip = Some \<lparr>bk_tokens = tok, bk_last_seen = now\<rparr>"
    and "0 \<le> tok" and "tok + (if fst (rl_allow now ip rl) then 1 else 0) \<le> spendable rl ip now"
proof (cases "rl_buckets rl ip")
  case None
  then show ?thesis using assms that by (auto simp: rl_allow_def spendable_def rl_wf_def)
next
  case (Some b)
  let ?d = "duration_seconds (time_sub now (bk_last_seen b))"
  let ?tok = "min (rl_capacity rl) (bk_tokens b + ?d * rl_refill_per_second rl)"
  from Some assms have b: "0 \<le> bk_tokens b" "bk_last_seen b \<le> now" "1 \<le> rl_capacity rl"
    "0 \<le> rl_refill_per_second rl" by (auto simp: rl_wf_def intro: order_trans)
  from time_sub_le [OF b(2)] have "0 \<le> ?d" "?d \<le> duration_seconds (now - bk_last_seen b)"
    by (auto intro: duration_seconds_nonneg duration_seconds_mono)
  then have "0 \<le> ?d * rl_refill_per_second rl"
    "?d * rl_refill_per_second rl \<le> duration_seconds (now - bk_last_seen b) * rl_refill_per_second rl"
    using b(4) by (auto intro: mult_nonneg_nonneg mult_right_mono)
  then have tok: "0 \<le> ?tok" "?tok \<le> spendable rl ip now" using b Some by (auto simp: spendable_def)
  have step: "rl_allow now ip rl =
      (\<not> ?tok < 1, rl\<lparr>rl_buckets := (rl_buckets rl)(ip \<mapsto>
         \<lparr>bk_tokens = (if ?tok < 1 then ?tok else ?tok - 1), bk_last_seen = now\<rparr>)\<rparr>)"
    by (simp only: rl_allow_def Some Let_def option.case if_True if_False split: if_split) blast
  show ?thesis
    by (rule that [of "if ?tok < 1 then ?tok else ?tok - 1"])
      (use tok in \<open>simp_all only: step fst_conv snd_conv split: if_split\<close>, auto)
qed

lemma spendable_le: "spendable rl ip t \<le> rl_capacity rl"
  by (simp add: spendable_def split: option.split)

lemma rl_wf_mono: "rl_wf t rl \<Longrightarrow> t \<le> u \<Longrightarrow> rl_wf u rl"
  by (force simp: rl_wf_def)

lemma rl_allow_wf:
  assumes "rl_wf t rl" and "t \<le> now"
  shows "rl_wf now (snd (rl_allow now ip rl))"
proof -
  obtain tok where tok: "rl_buckets (snd (rl_allow now ip rl)) ip = Some \<lparr>bk_tokens = tok, bk_last_seen = now\<rparr>"
    "0 \<le> tok" "tok + (if fst (rl_allow now ip rl) then 1 else 0) \<le> spendable rl ip now"
    using rl_allow_pays [OF assms] by blast
  then have "tok \<le> rl_capacity rl" using spendable_le [of rl ip now] by (auto split: if_splits)
  moreover have "rl_buckets (snd (rl_allow now ip rl)) i = rl_buckets rl i" if "i \<noteq> ip" for i
    using that rl_allow_other by metis
  ultimately show ?thesis
    using tok(1,2) rl_wf_mono [OF assms]
    by (auto simp: rl_wf_def) (metis bucket.select_convs option.inject order_refl)+
qed

lemma spendable_later:
  assumes "rl_wf t rl" and "t \<le> u"
  shows "spendable rl ip u \<le> spendable rl ip t + duration_seconds (u - t) * rl_refill_per_second rl"
proof (cases "rl_buckets rl ip")
  case None
  with assms show ?thesis
    by (simp add: spendable_def rl_wf_def duration_seconds_nonneg mult_nonneg_nonneg)
next
  case (Some b)
  have "0 \<le> duration_seconds (u - t) * rl_refill_per_second rl"
    using assms by (simp add: rl_wf_def duration_seconds_nonneg mult_nonneg_nonneg)
  then show ?thesis
    using duration_seconds_diff [of u "bk_last_seen b" t]
    by (simp add: spendable_def Some algebra_simps min_def)
qed

lemma rl_run_granted:
  assumes "rl_wf t0 rl" and "sorted (map fst evs)" and "\<forall>e \<in> set evs. t0 \<le> fst e"
    and "\<forall>e \<in> set evs. fst e \<le> t1" and "t0 \<le> t1"
  shows "of_nat (granted ip evs (fst (rl_run rl evs)))
           \<le> spendable rl ip t0 + duration_seconds (t1 - t0) * rl_refill_per_second rl"
  using assms
proof (induction evs arbitrary: rl t0)
  case Nil
  then have "0 \<le> spendable rl ip t0" "0 \<le> duration_seconds (t1 - t0) * rl_refill_per_second rl"
    by (auto simp: spendable_def rl_wf_def duration_seconds_nonneg mult_nonneg_nonneg split: option.split)
  then show ?case by (simp add: granted_def)
next
  case (Cons e evs)
  obtain now i where e: "e = (now, i)" by (cases e)
  let ?rl1 = "snd (rl_allow now i rl)"
  let ?ok = "fst (rl_allow now i rl)"
  from Cons.prems e have now: "t0 \<le> now" "now \<le> t1" "sorted (map fst evs)" "\<forall>e \<in> set evs. now \<le> fst e"
    by auto
  note wf1 = rl_allow_wf [OF Cons.prems(1) now(1)]
  have IH: "of_nat (granted ip evs (fst (rl_run ?rl1 evs)))
       \<le> spendable ?rl1 ip now + duration_seconds (t1 - now) * rl_refill_per_second rl"
    using Cons.IH [OF wf1 now(3,4)] Cons.prems(4) now(2) by simp
  have step: "spendable ?rl1 ip now + (if i = ip \<and> ?ok then 1 else 0) \<le> spendable rl ip now"
  proof (cases "i = ip")
    case True
    from rl_allow_pays [OF Cons.prems(1) now(1), of ip] obtain tok where
      "rl_buckets (snd (rl_allow now ip rl)) ip = Some \<lparr>bk_tokens = tok, bk_last_seen = now\<rparr>"
      "tok + (if fst (rl_allow now ip rl) then 1 else 0) \<le> spendable rl ip now" by blast
    then show ?thesis unfolding True
      by (auto simp: spendable_def [of "snd _"] duration_seconds_def min_def split: if_splits)
  next
    case False
    then show ?thesis by (simp add: spendable_def rl_allow_other split: option.split)
  qed
  have count: "granted ip (e # evs) (fst (rl_run rl (e # evs))) =
       (if i = ip \<and> ?ok then 1 else 0) + granted ip evs (fst (rl_run ?rl1 evs))"
    by (auto simp: e granted_def Let_def split_beta)
  have split: "duration_seconds (t1 - t0) = duration_seconds (t1 - now) + duration_seconds (now - t0)"
    by (rule duration_seconds_diff)
  show ?case
    using IH step spendable_later [OF Cons.prems(1) now(1), of ip]
    unfolding count split by (auto simp: algebra_simps split: if_splits)
qed

lemma rl_run_wf:
  "rl_wf t0 rl \<Longrightarrow> sorted (map fst evs) \<Longrightarrow> \<forall>e \<in> set evs. t0 \<le> fst e \<and> fst e \<le> t1 \<Longrightarrow> t0 \<le> t1
     \<Longrightarrow> rl_wf t1 (snd (rl_run rl evs))"
proof (induction evs arbitrary: rl t0)
  case Nil
  then show ?case by (auto intro: rl_wf_mono)
next
  case (Cons e evs)
  obtain now i where e: "e = (now, i)" by (cases e)
  with Cons show ?case by (auto simp: Let_def split_beta intro!: Cons.IH [OF rl_allow_wf])
qed

lemma new_rate_limiter_wf: "1 \<le> n \<Longrightarrow> rl_wf t (new_rate_limiter n)"
  by (simp add: rl_wf_def new_rate_limiter_def)

text \<open>A bucket remembers the last call of its address; a minute refills it.\<close>

lemma rl_allow_last_seen: "rl_buckets (snd (rl_allow now ip rl)) ip = Some b \<Longrightarrow> bk_last_seen b = now"
  by (auto simp: rl_allow_def Let_def split: option.splits if_splits)

lemma rl_run_last_seen:
  "rl_buckets (snd (rl_run rl evs)) ip = Some b \<Longrightarrow>
     rl_buckets rl ip = Some b \<or> (bk_last_seen b, ip) \<in> set evs"
proof (induction evs arbitrary: rl)
  case (Cons e evs)
  obtain now i where e: "e = (now, i)" by (cases e)
  with Cons.prems have "rl_buckets (snd (rl_run (snd (rl_allow now i rl)) evs)) ip = Some b"
    by (simp add: Let_def split_beta)
  from Cons.IH [OF this] show ?case
    using rl_allow_last_seen [of now ip rl b] rl_allow_other [of i ip now rl] by (cases "i = ip") (auto simp: e)
qed simp

lemma rl_allow_refilled:
  assumes "1 \<le> rl_capacity rl" and "rl_refill_per_second rl = rl_capacity rl / 60"
    and "\<And>b. rl_buckets rl ip = Some b \<Longrightarrow> 0 \<le> bk_tokens b \<and> bk_last_seen b + seconds 60 \<le> now"
  shows "fst (rl_allow now ip rl)"
proof (cases "rl_buckets rl ip")
  case None
  then show ?thesis by (simp add: rl_allow_def)
next
  case (Some b)
  let ?d = "duration_seconds (time_sub now (bk_last_seen b))"
  from assms(3) [OF Some] have "seconds 60 \<le> time_sub now (bk_last_seen b)" by (simp add: time_sub_def seconds_def)
  then have "60 \<le> ?d" by (simp add: duration_seconds_def seconds_def field_simps)
  then have "60 * (rl_capacity rl / 60) \<le> ?d * (rl_capacity rl / 60)"
    using assms(1) by (intro mult_right_mono) auto
  then have "1 \<le> ?d * rl_refill_per_second rl" using assms(1) unfolding assms(2) by linarith
  then have "1 \<le> bk_tokens b + ?d * rl_refill_per_second rl" using assms(3) [OF Some] by linarith
  with Some assms(1) show ?thesis by (simp add: rl_allow_def Let_def not_less)
qed

text \<open>The buckets of different addresses do not interfere.\<close>

lemma rl_allow_cong:
  assumes "rl_buckets rl ip = rl_buckets rl' ip" and "rl_capacity rl = rl_capacity rl'"
    and "rl_refill_per_second rl = rl_refill_per_second rl'"
  shows "fst (rl_allow now ip rl) = fst (rl_allow now ip rl')
       \<and> rl_buckets (snd (rl_allow now ip rl)) ip = rl_buckets (snd (rl_allow now ip rl')) ip"
  using assms by (auto simp: rl_allow_def Let_def split: option.split)

lemma rl_run_isolated:
  assumes "rl_buckets rl ip = rl_buckets rl' ip" and "rl_capacity rl = rl_capacity rl'"
    and "rl_refill_per_second rl = rl_refill_per_second rl'"
  shows "map snd (filter (\<lambda>((_, i), ok). i = ip) (zip evs (fst (rl_run rl evs))))
           = fst (rl_run rl' (filter (\<lambda>(_, i). i = ip) evs))"
  using assms
proof (induction evs arbitrary: rl rl')
  case (Cons e evs)
  obtain now i where e: "e = (now, i)" by (cases e)
  show ?case
  proof (cases "i = ip")
    case True
    from rl_allow_cong [OF Cons.prems, of now] have
      c: "fst (rl_allow now ip rl) = fst (rl_allow now ip rl')"
         "rl_buckets (snd (rl_allow now ip rl)) ip = rl_buckets (snd (rl_allow now ip rl')) ip" by simp_all
    from Cons.IH [OF c(2)] Cons.prems have
      "map snd (filter (\<lambda>((_, i), ok). i = ip) (zip evs (fst (rl_run (snd (rl_allow now ip rl)) evs))))
         = fst (rl_run (snd (rl_allow now ip rl')) (filter (\<lambda>(_, i). i = ip) evs))" by simp
    with True c show ?thesis by (simp add: e Let_def case_prod_unfold)
  next
    case False
    have "rl_buckets (snd (rl_allow now i rl)) ip = rl_buckets rl' ip"
      using rl_allow_other [OF False] Cons.prems by simp
    from Cons.IH [OF this] Cons.prems have
      "map snd (filter (\<lambda>((_, i), ok). i = ip) (zip evs (fst (rl_run (snd (rl_allow now i rl)) evs))))
         = fst (rl_run rl' (filter (\<lambda>(_, i). i = ip) evs))" by simp
    with False show ?thesis by (simp add: e Let_def case_prod_unfold)
  qed
qed simp

section \<open>Properties\<close>

text \<open>
  C26. The rate limit holds over every window.  Whatever calls came before and whatever other
  addresses do, among the calls of a window that spans at most \<open>d\<close> nanoseconds one address is
  granted at most \<open>n + n * d / 60s\<close> calls, where \<open>n\<close> is the limit per minute.
\<close>

theorem rate_limit_bound:
  assumes "1 \<le> n" and "sorted (map fst (pre @ win))"
    and "\<forall>e \<in> set win. t \<le> fst e \<and> fst e \<le> t + d" and "\<forall>e \<in> set pre. fst e \<le> t" and "0 \<le> d"
  shows "60 * nanos_per_sec * int (granted ip win (fst (rl_run (snd (rl_run (new_rate_limiter n) pre)) win)))
           \<le> n * (60 * nanos_per_sec + d)"
proof -
  let ?rl = "snd (rl_run (new_rate_limiter n) pre)"
  have first: "\<forall>e \<in> set pre. Min (insert t (fst ` set pre)) \<le> fst e \<and> fst e \<le> t"
    using assms(4) by simp
  have "rl_wf t ?rl"
    by (rule rl_run_wf [OF new_rate_limiter_wf [OF assms(1)] _ first]) (use assms(2) in \<open>auto simp: sorted_append\<close>)
  from rl_run_granted [OF this, of win "t + d" ip] assms(2,3,5)
  have "of_nat (granted ip win (fst (rl_run ?rl win)))
      \<le> spendable ?rl ip t + duration_seconds d * rl_refill_per_second ?rl"
    by (auto simp: sorted_append)
  also have "\<dots> \<le> of_int n + duration_seconds d * (of_int n / 60)"
    using spendable_le [of ?rl ip t] by (simp add: new_rate_limiter_def)
  finally have "of_int (60 * nanos_per_sec * int (granted ip win (fst (rl_run ?rl win))))
      \<le> (of_int (n * (60 * nanos_per_sec + d)) :: rat)"
    by (simp add: duration_seconds_def field_simps)
  then show ?thesis by (simp only: of_int_le_iff)
qed

definition example_burst :: "(gotime \<times> string) list" where
  "example_burst = map (\<lambda>k. (seconds k, if k mod 4 = 3 then ''10.0.0.2'' else ''10.0.0.1'')) [1..12]"

lemma rate_limit_bound_witness:
  "granted ''10.0.0.1'' example_burst (fst (rl_run (snd (rl_run (new_rate_limiter 5) [(0, ''10.0.0.1'')])) example_burst))
     \<le> 6"
proof -
  have "sorted (map fst ([(0, ''10.0.0.1'')] @ example_burst))" by code_simp
  moreover have "list_all (\<lambda>e. 0 \<le> fst e \<and> fst e \<le> 0 + seconds 12) example_burst" by code_simp
  then have "\<forall>e \<in> set example_burst. 0 \<le> fst e \<and> fst e \<le> 0 + seconds 12" by (simp only: list_all_iff)
  ultimately have "60 * nanos_per_sec * int (granted ''10.0.0.1'' example_burst
      (fst (rl_run (snd (rl_run (new_rate_limiter 5) [(0, ''10.0.0.1'')])) example_burst)))
      \<le> 5 * (60 * nanos_per_sec + seconds 12)"
    by (intro rate_limit_bound) (auto simp: seconds_def)
  then show ?thesis by (simp add: seconds_def)
qed

text \<open>
  A refusal is temporary: an address that makes no call for the 60 seconds the answer asks it
  to wait is granted its next call, whatever happened before and whatever others do meanwhile.
\<close>

theorem rate_limit_recovers:
  assumes "1 \<le> n" and "sorted (map fst evs)"
    and "\<forall>e \<in> set evs. fst e \<le> now" and "\<forall>e \<in> set evs. snd e = ip \<longrightarrow> fst e + seconds 60 \<le> now"
  shows "fst (rl_allow now ip (snd (rl_run (new_rate_limiter n) evs)))"
proof -
  let ?rl = "snd (rl_run (new_rate_limiter n) evs)"
  have ge: "\<forall>e \<in> set evs. Min (insert now (fst ` set evs)) \<le> fst e \<and> fst e \<le> now" using assms(3) by simp
  have "rl_wf now ?rl"
    by (rule rl_run_wf [OF new_rate_limiter_wf [OF assms(1)] assms(2) ge]) auto
  moreover have "rl_buckets ?rl ip = Some b \<Longrightarrow> bk_last_seen b + seconds 60 \<le> now" for b
    using rl_run_last_seen [of "new_rate_limiter n" evs ip b] assms(4) by (auto simp: new_rate_limiter_def)
  ultimately show ?thesis
    using rl_allow_refilled [of ?rl ip now] by (auto simp: rl_wf_def new_rate_limiter_def)
qed

lemma rate_limit_recovers_witness:
  "fst (rl_allow (seconds 72) ''10.0.0.1'' (snd (rl_run (new_rate_limiter 5) example_burst)))
   \<and> \<not> fst (rl_allow (seconds 12 + 1) ''10.0.0.1'' (snd (rl_run (new_rate_limiter 5) example_burst)))"
proof
  have "sorted (map fst example_burst)" by code_simp
  moreover have "list_all (\<lambda>e. fst e \<le> seconds 72 \<and> (snd e = ''10.0.0.1'' \<longrightarrow> fst e + seconds 60 \<le> seconds 72)) example_burst"
    by code_simp
  ultimately show "fst (rl_allow (seconds 72) ''10.0.0.1'' (snd (rl_run (new_rate_limiter 5) example_burst)))"
    by (intro rate_limit_recovers) (auto simp: list_all_iff)
  show "\<not> fst (rl_allow (seconds 12 + 1) ''10.0.0.1'' (snd (rl_run (new_rate_limiter 5) example_burst)))"
    by code_simp
qed

text \<open>
  C27. The clients share the limiter without noticing each other: the decisions an address gets
  in an interleaved run are those of a limiter that only ever saw this address.
\<close>

theorem rate_limit_isolated:
  "map snd (filter (\<lambda>((_, i), ok). i = ip) (zip evs (fst (rl_run (new_rate_limiter n) evs))))
     = fst (rl_run (new_rate_limiter n) (filter (\<lambda>(_, i). i = ip) evs))"
  by (rule rl_run_isolated) simp_all

text \<open>
  The access log tells the truth: for a handler that uses its writer as net/http requires,
  the logged status is the one on the wire, the logged size is the number of bytes accepted, and
  the calls reach the connection's writer unchanged and in order.
\<close>

theorem access_log_faithful:
  assumes "proper_calls Fresh calls" and "access_log start finish r calls = (entry, passed)"
  shows "le_status entry = wire_status calls \<and> le_bytes_out entry = bytes_written calls
         \<and> passed = filter supported calls"
  using assms recorder_status [of Fresh calls "\<lparr>sr_status = 200, sr_bytes = 0\<rparr>"]
    recorder_bytes [of "\<lparr>sr_status = 200, sr_bytes = 0\<rparr>" calls]
    recorder_passes [of "\<lparr>sr_status = 200, sr_bytes = 0\<rparr>" calls]
  by (auto simp: access_log_def Let_def split_beta)

definition example_calls :: "writer_call list" where
  "example_calls = [CallWriteHeader 103, CallFlush False, CallWriteHeader 404, CallWrite 9, CallFlush True, CallWrite 4]"

lemma access_log_faithful_witness:
  "\<forall>r. le_status (fst (access_log 0 (seconds 1) r example_calls)) = 404
     \<and> le_bytes_out (fst (access_log 0 (seconds 1) r example_calls)) = 13"
proof
  fix r
  have "proper_calls Fresh example_calls" "wire_status example_calls = 404" "bytes_written example_calls = 13"
    by code_simp+
  with access_log_faithful [OF _ prod.collapse [symmetric], of example_calls 0 "seconds 1" r]
  show "le_status (fst (access_log 0 (seconds 1) r example_calls)) = 404
     \<and> le_bytes_out (fst (access_log 0 (seconds 1) r example_calls)) = 13" by simp
qed

end
