(* ===== verification/ReturnTo.thy ===== *)
theory ReturnTo
  imports GoHttp Prelude
begin

text \<open>
  \<open>internal/auth/returnto.go\<close>: the check of the URL a user is sent back to after sign-in.

  \<open>validate\<close> is \<open>Validate\<close> over the model of \<open>net/url\<close>.  The lemmas give the shape of every URL it
  returns (scheme, host and port, nothing that a browser could read as another authority) and the
  URLs it returns unchanged.
\<close>

definition label_xn :: "string \<Rightarrow> bool" where
  "label_xn lower \<longleftrightarrow>
     has_prefix lower ''xn--'' \<or> list_ex (\<lambda>l. has_prefix l ''xn--'') (str_split (CHR ''.'') lower)"

definition norm_base :: "string \<Rightarrow> string" where
  "norm_base base = to_lower (trim_prefix base ''.'')"

definition in_domain :: "string \<Rightarrow> string \<Rightarrow> bool" where
  "in_domain base name \<longleftrightarrow> to_lower name = norm_base base \<or> has_suffix (to_lower name) (CHR ''.'' # norm_base base)"

definition ctl_rune :: "nat \<Rightarrow> bool" where
  "ctl_rune r \<longleftrightarrow> r < 0x20 \<or> r = 0x7F"

text \<open>The checks on a parsed URL.\<close>

definition return_url_ok :: "string \<Rightarrow> url \<Rightarrow> bool" where
  "return_url_ok base u \<longleftrightarrow>
     u_scheme u = ''https'' \<and> u_user u = None \<and> u_host u \<noteq> [] \<and> url_hostname u \<noteq> []
     \<and> is_ascii (url_hostname u) \<and> \<not> label_xn (to_lower (url_hostname u))
     \<and> norm_base base \<noteq> [] \<and> in_domain base (url_hostname u)
     \<and> (url_port u = [] \<or> url_port u = ''443'')"

definition validate :: "string \<Rightarrow> string \<Rightarrow> string result" where
  "validate raw base =
     (if raw = [] \<or> has_prefix raw ''//'' \<or> list_ex ctl_rune (runes raw) then Inl (Sentinel InvalidReturnTo)
      else
        (case url_parse raw of
           None \<Rightarrow> Inl (Sentinel InvalidReturnTo)
         | Some u \<Rightarrow> if return_url_ok base u then Inr (url_string u) else Inl (Sentinel InvalidReturnTo)))"

section \<open>The shape of an accepted URL\<close>

text \<open>What escaping can produce: bytes that need none, percent signs and hexadecimal digits.\<close>

lemma is_alnum_hex_digit: "n < 16 \<Longrightarrow> is_alnum (hex_digit n)"
  by (auto simp: is_alnum_def hex_digit_def Let_def)

lemma escape_bytes:
  assumes "mode \<noteq> EncodeQueryComponent" and "c \<in> set (url_escape mode s)"
  shows "\<not> should_escape c mode \<or> c = CHR ''%''"
proof -
  from assms(2) obtain d where "c \<in> set (escape_char mode d)" by (auto simp: url_escape_def)
  moreover have "\<not> should_escape (hex_digit n) mode" if "n < 16" for n
    using is_alnum_hex_digit [OF that] by (simp add: should_escape_def)
  ultimately show ?thesis using assms(1) of_char_div16 [of d]
    by (auto simp: escape_char_def percent_def split: if_splits)
qed

definition ctl_byte :: "char \<Rightarrow> bool" where
  "ctl_byte c \<longleftrightarrow> (of_char c :: nat) < 0x20 \<or> (of_char c :: nat) = 0x7F"

definition unescaped_marks :: string where
  "unescaped_marks = ''!$&()*+,;=:[]<>-_.~/?@%'' @ [CHR 0x27, CHR 0x22]"

lemma should_escape_cases: "\<not> should_escape c mode \<Longrightarrow> is_alnum c \<or> c \<in> set unescaped_marks"
proof -
  have "set (''!$&()*+,;=:[]<>'' @ [CHR 0x27, CHR 0x22]) \<subseteq> set unescaped_marks"
    "set ''-_.~'' \<subseteq> set unescaped_marks" "set ''$&+,/:;=?@'' \<subseteq> set unescaped_marks"
    "set ''!()*'' \<subseteq> set unescaped_marks" by (simp_all add: unescaped_marks_def)
  moreover have "is_alnum c \<or> c \<in> set (''!$&()*+,;=:[]<>'' @ [CHR 0x27, CHR 0x22])
      \<or> c \<in> set ''-_.~'' \<or> c \<in> set ''$&+,/:;=?@'' \<or> c \<in> set ''!()*''" if "\<not> should_escape c mode"
    by (rule ccontr) (use that in \<open>simp only: should_escape_def de_Morgan_disj if_False simp_thms\<close>)
  ultimately show "\<not> should_escape c mode \<Longrightarrow> ?thesis" by blast
qed

lemma ctl_not_mark: "ctl_byte c \<Longrightarrow> \<not> is_alnum c \<and> c \<notin> set unescaped_marks"
proof -
  have "list_all (\<lambda>c. \<not> ctl_byte c) unescaped_marks" by code_simp
  moreover have "ctl_byte c \<Longrightarrow> \<not> is_alnum c" by (auto simp: ctl_byte_def is_alnum_def Let_def)
  ultimately show "ctl_byte c \<Longrightarrow> ?thesis" by (auto simp: list_all_iff)
qed

lemma should_escape_ctl: "ctl_byte c \<Longrightarrow> should_escape c mode \<and> c \<notin> set (''!$&()*+,;=:@[]%'' @ [CHR 0x27])"
proof -
  have "set (''!$&()*+,;=:@[]%'' @ [CHR 0x27]) \<subseteq> set unescaped_marks" by (simp add: unescaped_marks_def)
  then show "ctl_byte c \<Longrightarrow> ?thesis" using ctl_not_mark should_escape_cases by blast
qed

lemma ctl_append [simp]: "contains_ctl (s @ t) \<longleftrightarrow> contains_ctl s \<or> contains_ctl t"
  by (simp add: contains_ctl_def)

lemma ctl_Cons [simp]:
  "contains_ctl (c # s) \<longleftrightarrow> ctl_byte c \<or> contains_ctl s"
  by (simp add: contains_ctl_def ctl_byte_def)

lemma ctl_Nil [simp]: "\<not> contains_ctl []"
  by (simp add: contains_ctl_def)

lemma ctl_iff: "contains_ctl s \<longleftrightarrow> (\<exists>c \<in> set s. ctl_byte c)"
  by (auto simp: contains_ctl_def ctl_byte_def list_ex_iff)

lemma ctl_mono: "\<not> contains_ctl t \<Longrightarrow> set s \<subseteq> set t \<Longrightarrow> \<not> contains_ctl s"
  by (auto simp: ctl_iff)

lemma escape_no_ctl: "mode \<noteq> EncodeQueryComponent \<Longrightarrow> \<not> contains_ctl (url_escape mode s)"
  using escape_bytes [of mode _ s] should_escape_ctl [of _ mode] should_escape_ctl [of "CHR ''%''" mode]
  by (auto simp: ctl_iff)

lemma valid_encoded_no_ctl: "valid_encoded s mode \<Longrightarrow> \<not> contains_ctl s"
  using should_escape_ctl [of _ mode] unfolding valid_encoded_def ctl_iff list_all_iff by blast

lemma escaped_path_no_ctl: "\<not> contains_ctl (escaped_path u)"
  using valid_encoded_no_ctl [of "u_raw_path u" EncodePath]
  by (auto simp: escaped_path_def escape_no_ctl ctl_byte_def)

lemma escaped_fragment_no_ctl: "\<not> contains_ctl (escaped_fragment u)"
  using valid_encoded_no_ctl [of "u_raw_fragment u" EncodeFragment]
  by (auto simp: escaped_fragment_def escape_no_ctl)

text \<open>Nothing of the authority can be read as its end, as user information or as white space.\<close>

definition authority_break :: string where
  "authority_break = ''/?#@ '' @ [CHR 0x5C]"

lemma escape_host_no_break: "set (url_escape EncodeHost s) \<inter> set authority_break = {}"
proof -
  have "list_all (\<lambda>c. should_escape c EncodeHost \<and> c \<noteq> CHR ''%'') authority_break" by code_simp
  then show ?thesis using escape_bytes [of EncodeHost _ s] by (fastforce simp: list_all_iff)
qed

section \<open>Domain names and escaping\<close>

definition domain_char :: "char \<Rightarrow> bool" where
  "domain_char c \<longleftrightarrow> is_alnum c \<or> c = CHR ''-'' \<or> c = CHR ''.''"

definition plain_domain :: "string \<Rightarrow> bool" where
  "plain_domain d \<longleftrightarrow> d \<noteq> [] \<and> list_all domain_char d"

lemma domain_char_props:
  assumes "domain_char c"
  shows "\<not> should_escape c mode \<and> c \<noteq> CHR '' '' \<and> (of_char c :: nat) < 0x80"
proof -
  have "\<not> should_escape (CHR ''-'') mode" "\<not> should_escape (CHR ''.'') mode"
    by (simp_all add: should_escape_def)
  moreover have "is_alnum c \<Longrightarrow> \<not> should_escape c mode \<and> (of_char c :: nat) < 0x80 \<and> c \<noteq> CHR '' ''"
    by (auto simp: should_escape_def is_alnum_def Let_def)
  ultimately show ?thesis using assms by (auto simp: domain_char_def)
qed

lemma escape_domain: "list_all domain_char s \<Longrightarrow> url_escape mode s = s"
  by (induction s) (auto simp: url_escape_def escape_char_def domain_char_props)

lemma lower_byte_dot [simp]: "lower_byte c = CHR ''.'' \<longleftrightarrow> c = CHR ''.''"
  by (auto simp: lower_byte_def char_eq_nat of_char_lower split: if_splits)

lemma domain_char_lower [simp]: "domain_char (lower_byte c) \<longleftrightarrow> domain_char c"
  by (simp add: domain_char_def)

lemma escape_append [simp]: "url_escape mode (s @ t) = url_escape mode s @ url_escape mode t"
  by (simp add: url_escape_def)

lemma escape_host_ascii: "is_ascii (url_escape EncodeHost s)"
proof -
  have "list_all (\<lambda>c. (of_char c :: nat) < 0x80) unescaped_marks" by code_simp
  moreover have "is_alnum c \<Longrightarrow> (of_char c :: nat) < 0x80" for c by (auto simp: is_alnum_def Let_def)
  ultimately have "(of_char c :: nat) < 0x80" if "c \<in> set (url_escape EncodeHost s)" for c
    using escape_bytes [OF _ that] should_escape_cases [of c EncodeHost] by (auto simp: list_all_iff)
  then show ?thesis by (simp add: is_ascii_def list_all_iff)
qed

lemma list_all_lower: "list_all domain_char (map lower_byte s) \<longleftrightarrow> list_all domain_char s"
  by (simp add: list_all_iff)

lemma in_domain_escape:
  assumes "plain_domain (norm_base base)" and "is_ascii name" and "in_domain base name"
  shows "in_domain base (url_escape EncodeHost name)"
proof -
  let ?b = "norm_base base"
  have b: "list_all domain_char ?b" "list_all domain_char (CHR ''.'' # ?b)"
    using assms(1) by (simp_all add: plain_domain_def domain_char_def)
  from assms(2,3) consider "map lower_byte name = ?b" | t where "map lower_byte name = t @ CHR ''.'' # ?b"
    by (auto simp: in_domain_def to_lower_ascii has_suffix_iff)
  then show ?thesis
  proof cases
    case 1
    then have "list_all domain_char name" using b list_all_lower by metis
    then show ?thesis using assms(3) by (simp add: escape_domain)
  next
    case 2
    then obtain n1 n2 where n: "name = n1 @ n2" "map lower_byte n2 = CHR ''.'' # ?b"
      by (auto simp: map_eq_append_conv)
    then have "list_all domain_char n2" using b list_all_lower by metis
    then have "to_lower (url_escape EncodeHost name) = map lower_byte (url_escape EncodeHost n1) @ CHR ''.'' # ?b"
      using n escape_host_ascii [of name] by (simp add: to_lower_ascii escape_domain)
    then show ?thesis by (auto simp: in_domain_def has_suffix_iff)
  qed
qed

section \<open>The parts of a parsed URL\<close>

lemma last_cut_Some: "last_cut c s = Some (a, b) \<Longrightarrow> s = a @ c # b"
proof -
  assume "last_cut c s = Some (a, b)"
  then obtain x y where "str_cut c (rev s) = (x, y, True)" "a = rev y" "b = rev x"
    by (auto simp: last_cut_def split: prod.splits bool.splits)
  moreover from this(1) have "rev s = x @ c # y" using str_cut_found by blast
  ultimately show "s = a @ c # b" by (metis append_assoc append_Cons append_Nil rev.simps(2) rev_append rev_rev_ident)
qed

lemma bracketed: "has_prefix s ''['' \<Longrightarrow> has_suffix s '']'' \<Longrightarrow> s = ''['' @ butlast (tl s) @ '']''"
  by (auto simp: has_prefix_iff has_suffix_iff Cons_eq_append_conv)

lemma split_host_port_parts:
  assumes "split_host_port hp = (host, port)" and "port = [] \<or> port = ''443''"
  obtains name pt where "hp = name @ pt" and "pt \<in> {[], '':'', '':443''}"
    and "name = host \<or> name = ''['' @ host @ '']''"
proof -
  define hq where "hq = (case last_cut (CHR '':'') hp of
       Some (h, p) \<Rightarrow> if valid_optional_port (CHR '':'' # p) then (h, p) else (hp, [])
     | None \<Rightarrow> (hp, []))"
  obtain h p where hq: "hq = (h, p)" by (cases hq)
  from assms(1) hq have s: "port = p" "host = (if has_prefix h ''['' \<and> has_suffix h '']'' then butlast (tl h) else h)"
    by (auto simp: split_host_port_def Let_def simp flip: hq_def split: if_splits)
  have "hp = h @ p \<and> p = [] \<or> hp = h @ '':'' @ p"
    using hq last_cut_Some [of "CHR '':''" hp] by (auto simp: hq_def split: option.splits if_splits)
  moreover have "h = host \<or> h = ''['' @ host @ '']''" using s(2) bracketed [of h] by auto
  ultimately show thesis using assms(2) s(1) that [of h "[]"] that [of h "'':'' @ p"] by auto
qed

lemma str_cut_subset: "str_cut c s = (a, b, f) \<Longrightarrow> set a \<subseteq> set s \<and> set b \<subseteq> set s"
  by (cases f) (auto dest: str_cut_found str_cut_not_found)

lemma scheme_at_subset:
  "scheme_at raw pre s = Some (x, rest) \<Longrightarrow> set s \<subseteq> set raw \<Longrightarrow> set rest \<subseteq> set raw"
  by (induction raw pre s rule: scheme_at.induct) (auto split: if_splits)

lemma parse_hier_query: "parse_hier u rest = Some v \<Longrightarrow> u_raw_query v = u_raw_query u"
  by (auto simp: parse_hier_def Let_def dest!: set_path_frame split: if_splits option.splits prod.splits)

lemma parse_query_no_ctl:
  assumes "parse_no_fragment raw = Some u"
  shows "\<not> contains_ctl (u_raw_query u)"
proof (cases "raw = ''*''")
  case True
  with assms show ?thesis by (auto simp: parse_no_fragment_def empty_url_def split: if_splits)
next
  case False
  with assms obtain scheme rest0 rest query force where g: "get_scheme raw = Some (scheme, rest0)"
    and q: "split_query rest0 = (rest, query, force)" and n: "\<not> contains_ctl raw"
    and u: "u_raw_query u = query"
    by (auto simp: parse_no_fragment_def Let_def empty_url_def dest!: parse_hier_query
        split: if_splits option.splits prod.splits)
  from g have "set rest0 \<subseteq> set raw" by (auto simp: get_scheme_def dest: scheme_at_subset)
  moreover from q have "set query \<subseteq> set rest0"
    by (auto simp: split_query_def dest: str_cut_subset split: if_splits prod.splits)
  ultimately show ?thesis using n u ctl_mono by blast
qed

lemma url_parse_query_no_ctl:
  assumes "url_parse raw = Some u"
  shows "\<not> contains_ctl (u_raw_query u)"
proof -
  obtain v where "parse_no_fragment (fst (str_cut (CHR ''#'') raw)) = Some v" "u_raw_query u = u_raw_query v"
    using assms by (auto simp: url_parse_def dest: set_fragment_frame split: prod.splits option.splits if_splits)
  with parse_query_no_ctl show ?thesis by metis
qed

lemma url_string_parts:
  assumes "url_parse raw = Some u" and "u_scheme u = ''https''" and "u_user u = None" and "u_host u \<noteq> []"
  obtains rest where "url_string u = ''https://'' @ url_escape EncodeHost (u_host u) @ rest"
    and "rest = [] \<or> hd rest \<in> set ''/?#''" and "\<not> contains_ctl rest"
proof -
  have op: "u_opaque u = []" using url_parse_host_opaque [OF assms(1,4)] .
  let ?path = "escaped_path u"
  let ?slash = "if ?path \<noteq> [] \<and> hd ?path \<noteq> CHR ''/'' \<and> u_host u \<noteq> [] then ''/'' else []"
  let ?rest = "?slash @ ?path @ query_fragment_string u"
  have "authority_string u = ''//'' @ url_escape EncodeHost (u_host u)"
    using assms by (simp add: authority_string_def)
  then have "url_string u = ''https://'' @ url_escape EncodeHost (u_host u) @ ?rest"
    using op assms(2) by (simp add: url_string_def Let_def)
  moreover have "?rest = [] \<or> hd ?rest \<in> set ''/?#''"
    using assms(4) by (cases ?path) (auto simp: query_fragment_string_def)
  moreover have "\<not> contains_ctl ?rest"
    using escaped_path_no_ctl [of u] escaped_fragment_no_ctl [of u] url_parse_query_no_ctl [OF assms(1)]
    by (simp add: query_fragment_string_def ctl_byte_def)
  ultimately show thesis by (rule that)
qed

section \<open>URLs that are accepted as they are\<close>

lemma last_cut_None: "c \<notin> set s \<Longrightarrow> last_cut c s = None"
  by (simp add: last_cut_def str_cut_None)

lemma unescape_domain: "list_all domain_char s \<Longrightarrow> url_unescape EncodeHost s = Some s"
proof (induction s)
  case (Cons c s)
  then have "domain_char c" by simp
  then have "c \<noteq> CHR ''%'' \<and> c \<noteq> CHR ''+''" "plain_ok EncodeHost c"
    using domain_char_props [of c EncodeHost] by (auto simp: domain_char_def is_alnum_def Let_def plain_ok_def)
  with Cons show ?case by simp
qed simp

lemma domain_no_mark: "list_all domain_char s \<Longrightarrow> c \<notin> set s \<or> domain_char c"
  by (auto simp: list_all_iff)

lemma parse_authority_domain:
  assumes "list_all domain_char name"
  shows "parse_authority name = Some (None, name)"
proof -
  have "\<not> domain_char (CHR ''@'')" "\<not> domain_char (CHR ''['')" "\<not> domain_char (CHR '':'')" by code_simp+
  then have "CHR ''@'' \<notin> set name" "CHR ''['' \<notin> set name" "CHR '':'' \<notin> set name"
    using domain_no_mark [OF assms] by blast+
  then show ?thesis by (simp add: parse_authority_def parse_host_def last_cut_None unescape_domain [OF assms])
qed

text \<open>A path and a query in the form a client sends them.\<close>

definition plain_path :: "string \<Rightarrow> bool" where
  "plain_path p \<longleftrightarrow> has_prefix p ''/'' \<and> valid_encoded p EncodePath \<and> url_unescape EncodePath p \<noteq> None"

definition plain_query :: "string \<Rightarrow> bool" where
  "plain_query qs \<longleftrightarrow> qs = [] \<or>
     (has_prefix qs ''?'' \<and> is_ascii qs \<and> \<not> contains_ctl qs \<and> CHR ''#'' \<notin> set qs)"

lemma valid_path_bytes:
  assumes "valid_encoded p EncodePath"
  shows "is_ascii p \<and> \<not> contains_ctl p \<and> CHR ''?'' \<notin> set p \<and> CHR ''#'' \<notin> set p"
proof -
  have "list_all (\<lambda>c. (of_char c :: nat) < 0x80) (unescaped_marks @ ''!$&()*+,;=:@[]%'' @ [CHR 0x27])" by code_simp
  moreover have "is_alnum c \<Longrightarrow> (of_char c :: nat) < 0x80" for c by (auto simp: is_alnum_def Let_def)
  ultimately have "is_ascii p"
    using assms should_escape_cases [of _ EncodePath]
    unfolding is_ascii_def valid_encoded_def list_all_iff set_append by blast
  moreover have "should_escape (CHR ''?'') EncodePath \<and> CHR ''?'' \<notin> set (''!$&()*+,;=:@[]%'' @ [CHR 0x27])"
    "should_escape (CHR ''#'') EncodePath \<and> CHR ''#'' \<notin> set (''!$&()*+,;=:@[]%'' @ [CHR 0x27])" by code_simp+
  then have "CHR ''?'' \<notin> set p" "CHR ''#'' \<notin> set p" using assms unfolding valid_encoded_def list_all_iff by blast+
  ultimately show ?thesis using valid_encoded_no_ctl [OF assms] by blast
qed

lemma set_path_print:
  assumes "plain_path p"
  obtains path raw where "set_path p u = Some (u\<lparr>u_path := path, u_raw_path := raw\<rparr>)"
    and "escaped_path (u\<lparr>u_path := path, u_raw_path := raw\<rparr>) = p"
proof -
  from assms obtain path where path: "url_unescape EncodePath p = Some path" and p: "has_prefix p ''/''"
    "valid_encoded p EncodePath" by (auto simp: plain_path_def)
  from p(1) obtain t where t: "p = CHR ''/'' # t" by (auto simp: has_prefix_iff)
  have "plain_ok EncodePath (CHR ''/'')" by code_simp
  with path t have "path \<noteq> ''*''" by (auto split: option.splits)
  then have "escaped_path (u\<lparr>u_path := path, u_raw_path := (if p = url_escape EncodePath path then [] else p)\<rparr>) = p"
    using path p t by (auto simp: escaped_path_def)
  with path that show thesis by (simp add: set_path_def)
qed

text \<open>The hierarchical part of such a URL, split at its query and parsed.\<close>

lemma split_plain_query:
  assumes "CHR ''?'' \<notin> set r" and "plain_query qs"
  obtains q f where "split_query (r @ qs) = (r, q, f)" and "(if f \<or> q \<noteq> [] then CHR ''?'' # q else []) = qs"
    and "CHR ''#'' \<notin> set q"
proof (cases "qs = []")
  case True
  then have "split_query (r @ qs) = (r, [], False)"
    using assms(1) by (auto simp: split_query_def str_cut_None has_suffix_iff)
  with True that show thesis by auto
next
  case False
  with assms(2) obtain q where q: "qs = CHR ''?'' # q" "CHR ''#'' \<notin> set q"
    by (auto simp: plain_query_def has_prefix_iff)
  show thesis
  proof (cases "q = []")
    case True
    with q assms(1) have "split_query (r @ qs) = (r, [], True)"
      by (auto simp: split_query_def has_suffix_iff count_list_0_iff butlast_append)
    with True q that show thesis by auto
  next
    case False
    have "split_query (r @ qs) = (r, q, False)"
    proof (cases "has_suffix (r @ qs) ''?''")
      case True
      with q False have "CHR ''?'' \<in> set q"
        by (cases q rule: rev_cases) (auto simp: has_suffix_iff)
      then have "count_list q (CHR ''?'') \<noteq> 0" by (simp add: count_list_0_iff)
      then show ?thesis using q assms(1) by (simp add: split_query_def str_cut_append)
    next
      case no: False
      then show ?thesis using q assms(1) by (simp add: split_query_def str_cut_append)
    qed
    with False q that show thesis by auto
  qed
qed

lemma parse_plain_url:
  assumes name: "plain_domain name" and p: "plain_path p" and q: "plain_query qs"
  obtains u where "url_parse (''https://'' @ name @ p @ qs) = Some u"
    and "u_scheme u = ''https'' \<and> u_user u = None \<and> u_host u = name"
    and "url_string u = ''https://'' @ name @ p @ qs"
proof -
  let ?raw = "''https://'' @ name @ p @ qs"
  let ?rest = "''//'' @ name @ p"
  have nm: "list_all domain_char name" "name \<noteq> []" using name by (auto simp: plain_domain_def)
  have "\<not> domain_char (CHR ''#'')" "\<not> domain_char (CHR ''/'')" "\<not> domain_char (CHR ''?'')" by code_simp+
  then have marks: "CHR ''#'' \<notin> set name" "CHR ''/'' \<notin> set name" "CHR ''?'' \<notin> set name"
    using domain_no_mark [OF nm(1)] by blast+
  obtain pt where pt: "p = CHR ''/'' # pt" using p by (auto simp: plain_path_def has_prefix_iff)
  have path: "\<not> contains_ctl p" "CHR ''?'' \<notin> set p" "CHR ''#'' \<notin> set p"
    using p valid_path_bytes by (auto simp: plain_path_def)
  have qs: "CHR ''#'' \<notin> set qs" "\<not> contains_ctl qs" using q by (auto simp: plain_query_def)
  have "domain_char c \<Longrightarrow> \<not> ctl_byte c" for c using domain_char_props should_escape_ctl by blast
  then have ctl: "\<not> contains_ctl ?raw"
    using nm path qs by (simp add: ctl_iff list_all_iff ctl_byte_def) blast
  have cut: "str_cut (CHR ''#'') ?raw = (?raw, [], False)"
    using marks path qs by (intro str_cut_None) auto
  have scheme: "get_scheme ?raw = Some (''https'', ?rest @ qs)" by (simp add: get_scheme_def is_letter_def is_digit_def)
  have "CHR ''?'' \<notin> set ?rest" using marks path by simp
  then obtain qq f where sq: "split_query (?rest @ qs) = (?rest, qq, f)"
    and qq: "(if f \<or> qq \<noteq> [] then CHR ''?'' # qq else []) = qs" using split_plain_query [OF _ q] by blast
  define u0 where "u0 = empty_url\<lparr>u_scheme := ''https'', u_raw_query := qq, u_force_query := f, u_user := None, u_host := name\<rparr>"
  obtain path' raw' where sp: "set_path p u0 = Some (u0\<lparr>u_path := path', u_raw_path := raw'\<rparr>)"
    and ep: "escaped_path (u0\<lparr>u_path := path', u_raw_path := raw'\<rparr>) = p"
    using set_path_print [OF p] by blast
  let ?u = "u0\<lparr>u_path := path', u_raw_path := raw'\<rparr>"
  have lower: "to_lower ''https'' = ''https''" by code_simp
  have tw: "takeWhile (\<lambda>c. c \<noteq> CHR ''/'') (name @ p) = name" "dropWhile (\<lambda>c. c \<noteq> CHR ''/'') (name @ p) = p"
    using marks(2) by (auto simp: pt takeWhile_append dropWhile_append dest: takeWhile_eq_all_conv [THEN iffD2])
  have "url_parse ?raw = Some ?u"
    using cut ctl scheme sq sp lower
    by (simp add: url_parse_def parse_no_fragment_def Let_def parse_hier_def tw
        parse_authority_domain [OF nm(1)] u0_def)
  moreover have "url_string ?u = ?raw"
    unfolding qq [symmetric] using ep nm
    by (simp add: url_string_def Let_def authority_string_def query_fragment_string_def u0_def empty_url_def
        escape_domain pt)
  ultimately show thesis using that [of ?u] by (simp add: u0_def)
qed

lemma plain_url_ascii:
  assumes "plain_domain name" and "plain_path p" and "plain_query qs"
  shows "is_ascii (''https://'' @ name @ p @ qs)"
proof -
  have "is_ascii name" using assms(1) domain_char_props by (auto simp: plain_domain_def is_ascii_def list_all_iff)
  with assms show ?thesis using valid_path_bytes by (auto simp: plain_path_def plain_query_def is_ascii_def)
qed

lemma validate_plain:
  assumes "plain_domain name" and "in_domain base name" and "norm_base base \<noteq> []"
    and "\<not> label_xn (to_lower name)" and "plain_path p" and "plain_query qs"
  shows "validate (''https://'' @ name @ p @ qs) base = Inr (''https://'' @ name @ p @ qs)"
proof -
  let ?raw = "''https://'' @ name @ p @ qs"
  obtain u where u: "url_parse ?raw = Some u" "u_scheme u = ''https'' \<and> u_user u = None \<and> u_host u = name"
    "url_string u = ?raw" using parse_plain_url [OF assms(1,5,6)] by blast
  have nm: "list_all domain_char name" "name \<noteq> []" using assms(1) by (auto simp: plain_domain_def)
  then have ascii: "is_ascii name" using domain_char_props by (auto simp: is_ascii_def list_all_iff)
  have "\<not> domain_char (CHR '':'')" "\<not> domain_char (CHR ''['')" by code_simp+
  then have "CHR '':'' \<notin> set name" "\<not> has_prefix name ''[''"
    using domain_no_mark [OF nm(1)] by (auto simp: has_prefix_iff)
  then have hp: "split_host_port name = (name, [])" by (simp add: split_host_port_def last_cut_None)
  have raw_ascii: "is_ascii ?raw"
    using ascii assms(5,6) valid_path_bytes by (auto simp: plain_path_def plain_query_def is_ascii_def)
  have "\<not> contains_ctl ?raw"
    using assms(5,6) valid_path_bytes nm domain_char_props should_escape_ctl
    by (auto simp: plain_path_def plain_query_def ctl_iff list_all_iff ctl_byte_def) (metis ctl_byte_def)+
  then have "\<not> list_ex ctl_rune (runes ?raw)"
    by (simp only: runes_ascii [OF raw_ascii]) (auto simp: list_ex_iff ctl_rune_def ctl_iff ctl_byte_def)
  then show ?thesis
    using u hp nm ascii assms(2-4)
    by (simp add: validate_def return_url_ok_def url_hostname_def url_port_def)
qed

section \<open>Properties\<close>

lemma escape_host_keeps_out:
  assumes "c \<in> set (url_escape EncodeHost s)" and "c \<noteq> CHR ''%''" and "\<not> is_alnum c"
  shows "c \<in> set s"
proof -
  from assms(1) obtain d where d: "d \<in> set s" "c \<in> set (escape_char EncodeHost d)" by (auto simp: url_escape_def)
  with assms(2,3) is_alnum_hex_digit of_char_div16 [of d] show ?thesis
    by (auto simp: escape_char_def percent_def split: if_splits)
qed

text \<open>
  The host of a URL is a name: no address in brackets, and no colon but the one before the port.
\<close>

definition name_host :: "url \<Rightarrow> bool" where
  "name_host u \<longleftrightarrow> CHR ''['' \<notin> set (u_host u) \<and> CHR '':'' \<notin> set (url_hostname u)"

text \<open>
  C9. No open redirect by a host name.  What \<open>Validate\<close> returns begins with \<open>https://\<close>, a host and an
  empty port or 443; what follows starts a path, a query or a fragment; no byte of the authority can end
  it early, introduce user information or be a backslash, and the URL has no control byte.  If the host of
  the URL is a name, then the host that is returned is the base domain or a subdomain of it.  The two
  shapes of host that are no names pass the same suffix test, which does not keep them to the base
  domain: a host with an inner colon ends in it, and so does what stands in the brackets of an address.
\<close>

theorem return_to_safe:
  assumes "validate raw base = Inr out" and "plain_domain (norm_base base)"
  shows "\<exists>u name port rest. url_parse raw = Some u \<and> out = ''https://'' @ name @ port @ rest
           \<and> port \<in> {[], '':'', '':443''}
           \<and> set (name @ port) \<inter> set authority_break = {}
           \<and> (rest = [] \<or> hd rest \<in> set ''/?#'') \<and> \<not> contains_ctl out
           \<and> (name_host u \<longrightarrow>
                (to_lower name = norm_base base \<or> has_suffix (to_lower name) (CHR ''.'' # norm_base base))
                \<and> set name \<inter> set '':['' = {})
           \<and> (\<not> name_host u \<longrightarrow>
                in_domain base name \<or> (\<exists>inner. name = ''['' @ inner @ '']'' \<and> in_domain base inner))"
proof -
  from assms(1) obtain u where u: "url_parse raw = Some u" "return_url_ok base u" "out = url_string u"
    by (auto simp: validate_def split: if_splits option.splits)
  then have ok: "u_scheme u = ''https''" "u_user u = None" "u_host u \<noteq> []" "is_ascii (url_hostname u)"
    "in_domain base (url_hostname u)" "url_port u = [] \<or> url_port u = ''443''"
    by (auto simp: return_url_ok_def)
  obtain rest where rest: "out = ''https://'' @ url_escape EncodeHost (u_host u) @ rest"
    "rest = [] \<or> hd rest \<in> set ''/?#''" "\<not> contains_ctl rest"
    using url_string_parts [OF u(1) ok(1-3)] u(3) by metis
  obtain name pt where host: "u_host u = name @ pt" and pt: "pt \<in> {[], '':'', '':443''}"
    and name: "name = url_hostname u \<or> name = ''['' @ url_hostname u @ '']''"
    using split_host_port_parts [of "u_host u" "url_hostname u" "url_port u"] ok(6)
    by (auto simp: url_hostname_def url_port_def)
  have esc: "url_escape EncodeHost pt = pt" using pt by (auto; code_simp)
  have br: "url_escape EncodeHost ''['' = ''[''" "url_escape EncodeHost '']'' = '']''" by code_simp+
  have "in_domain base (url_escape EncodeHost (url_hostname u))" by (rule in_domain_escape [OF assms(2) ok(4,5)])
  with name br have dom: "in_domain base (url_escape EncodeHost name)
      \<or> (\<exists>inner. url_escape EncodeHost name = ''['' @ inner @ '']'' \<and> in_domain base inner)"
    by (auto simp only: escape_append)
  have marks: "\<not> is_alnum (CHR '':'')" "\<not> is_alnum (CHR ''['')" by code_simp+
  have "in_domain base (url_escape EncodeHost name) \<and> set (url_escape EncodeHost name) \<inter> set '':['' = {}"
    if "name_host u"
  proof -
    from that name host have n: "name = url_hostname u" and "CHR ''['' \<notin> set name" "CHR '':'' \<notin> set name"
      by (auto simp: name_host_def)
    then show ?thesis
      using in_domain_escape [OF assms(2) ok(4,5)] escape_host_keeps_out [of "CHR '':''" name]
        escape_host_keeps_out [of "CHR ''[''" name] marks by auto
  qed
  moreover have "set (url_escape EncodeHost name @ pt) \<inter> set authority_break = {}"
    using escape_host_no_break [of "u_host u"] by (simp add: host esc)
  moreover have "\<not> contains_ctl out"
    using rest(3) escape_no_ctl [of EncodeHost "u_host u"] by (simp add: rest(1) ctl_byte_def)
  ultimately show ?thesis
    using u(1) rest pt dom
    by (intro exI [of _ u] exI [of _ "url_escape EncodeHost name"] exI [of _ pt] exI [of _ rest]) (simp add: host esc in_domain_def)
qed

lemma return_to_safe_witness:
  "\<exists>name port rest. validate ''HTTPS://Wiki.Forgeutah.tech:443/a%20b?q#top'' ''forgeutah.tech'' = Inr (''https://'' @ name @ port @ rest)
     \<and> port \<in> {[], '':'', '':443''} \<and> (to_lower name = ''forgeutah.tech'' \<or> has_suffix (to_lower name) ''.forgeutah.tech'')
     \<and> set name \<inter> set '':['' = {}"
proof -
  let ?raw = "''HTTPS://Wiki.Forgeutah.tech:443/a%20b?q#top''"
  have "\<not> isl (validate ?raw ''forgeutah.tech'')" and named: "case url_parse ?raw of Some u \<Rightarrow> name_host u | None \<Rightarrow> False"
    by code_simp+
  then obtain out where out: "validate ?raw ''forgeutah.tech'' = Inr out"
    by (cases "validate ?raw ''forgeutah.tech''") auto
  have "plain_domain (norm_base ''forgeutah.tech'')" and base: "norm_base ''forgeutah.tech'' = ''forgeutah.tech''"
    by code_simp+
  from return_to_safe [OF out this(1), unfolded base] obtain u name port rest where
    "url_parse ?raw = Some u" "out = ''https://'' @ name @ port @ rest" "port \<in> {[], '':'', '':443''}"
    "name_host u \<longrightarrow> (to_lower name = ''forgeutah.tech'' \<or> has_suffix (to_lower name) ''.forgeutah.tech'')
       \<and> set name \<inter> set '':['' = {}" by blast
  with out named show ?thesis by (intro exI [of _ name] exI [of _ port] exI [of _ rest]) simp
qed

text \<open>
  Hosts that are no names do pass.  The zone of an IPv6 address is part of what \<open>Hostname\<close> returns, so
  an address with a zone that ends in the base domain passes as a host of the domain.  And the
  host may hold a second colon: what stands before it is not part of the checked suffix.
\<close>

lemma return_to_ipv6_zone:
  "validate ''https://[2001:db8::1%25.forgeutah.tech]/x'' ''forgeutah.tech''
     = Inr ''https://[2001:db8::1%25.forgeutah.tech]/x''"
  by code_simp

lemma return_to_extra_colon:
  "validate ''https://evil.com:x.forgeutah.tech:443/'' ''forgeutah.tech''
     = Inr ''https://evil.com:x.forgeutah.tech:443/''"
  by code_simp

text \<open>
  Users come back where they were: an https URL whose host is a plain name in the base domain
  without punycode labels, with a path and a query in their canonical form, is accepted and
  returned byte for byte.
\<close>

theorem return_to_kept:
  assumes "plain_domain name" and "in_domain base name" and "norm_base base \<noteq> []"
    and "\<not> label_xn (to_lower name)" and "plain_path p" and "plain_query qs"
  shows "validate (''https://'' @ name @ p @ qs) base = Inr (''https://'' @ name @ p @ qs)"
  using assms by (rule validate_plain)

lemma return_to_kept_witness:
  "validate ''https://deuce.forgeutah.tech/a/b%20c?x=1&y=%2F?'' ''.Forgeutah.tech''
     = Inr ''https://deuce.forgeutah.tech/a/b%20c?x=1&y=%2F?''"
proof -
  have "plain_domain ''deuce.forgeutah.tech''" "in_domain ''.Forgeutah.tech'' ''deuce.forgeutah.tech''"
    "norm_base ''.Forgeutah.tech'' \<noteq> []" "\<not> label_xn (to_lower ''deuce.forgeutah.tech'')"
    "plain_path ''/a/b%20c''" "plain_query ''?x=1&y=%2F?''" by code_simp+
  from return_to_kept [OF this] show ?thesis by simp
qed

end
