(* ===== verification/GoJson.thy ===== *)
theory GoJson
  imports GoStrings
begin

text \<open>
  The part of \<open>encoding/json\<close> the program uses: printing strings and objects, parsing a value, and
  looking up the fields of a decoded object.

  Printing follows \<open>Marshal\<close> with HTML escaping on.  Parsing is a recursive descent over the
  grammar with the nesting limit of the library; its fuel is the length of the text, which is
  enough because every call that recurses has consumed a byte.
\<close>

section \<open>Printing\<close>

abbreviation dquote :: char where "dquote \<equiv> CHR 0x22"
abbreviation bslash :: char where "bslash \<equiv> CHR 0x5C"

definition json_safe :: "char \<Rightarrow> bool" where
  "json_safe c \<longleftrightarrow> 0x20 \<le> (of_char c :: nat) \<and> (of_char c :: nat) < 0x80
     \<and> c \<notin> {dquote, bslash, CHR ''<'', CHR ''>'', CHR ''&''}"

definition json_escape_byte :: "char \<Rightarrow> string" where
  "json_escape_byte c =
     (if json_safe c then [c]
      else if c = dquote \<or> c = bslash then [bslash, c]
      else if c = CHR 0x08 then [bslash, CHR ''b'']
      else if c = CHR 0x0C then [bslash, CHR ''f'']
      else if c = CHR 0x0A then [bslash, CHR ''n'']
      else if c = CHR 0x0D then [bslash, CHR ''r'']
      else if c = CHR 0x09 then [bslash, CHR ''t'']
      else [bslash] @ ''u00'' @ [low_hex (of_char c div 16), low_hex (of_char c mod 16)])"

function json_escape :: "string \<Rightarrow> string" where
  "json_escape s =
     (case s of
        [] \<Rightarrow> []
      | c # cs \<Rightarrow>
          (if (of_char c :: nat) < 0x80 then json_escape_byte c @ json_escape cs
           else (let (r, n) = decode_rune s; w = max 1 n
                 in (if r = rune_error \<and> n = 1 then [bslash] @ ''ufffd''
                     else if r = 0x2028 then [bslash] @ ''u2028''
                     else if r = 0x2029 then [bslash] @ ''u2029''
                     else take w s) @ json_escape (drop w s))))"
  by pat_completeness auto
termination
  by (relation "measure length") auto

declare json_escape.simps [simp del]

definition json_string :: "string \<Rightarrow> string" where
  "json_string s = dquote # json_escape s @ [dquote]"

definition json_list :: "string list \<Rightarrow> string" where
  "json_list xs = CHR ''['' # str_join xs '','' @ '']''"

text \<open>An object whose member values are printed already.\<close>

definition json_object :: "(string \<times> string) list \<Rightarrow> string" where
  "json_object ms = CHR ''{'' # str_join (map (\<lambda>(k, v). json_string k @ CHR '':'' # v) ms) '','' @ ''}''"

section \<open>Parsing\<close>

datatype json =
    JNull
  | JBool bool
  | JNumber string
  | JString string
  | JArray "json list"
  | JObject "(string \<times> json) list"

definition json_ws :: "char \<Rightarrow> bool" where
  "json_ws c \<longleftrightarrow> c \<in> {CHR '' '', CHR 0x09, CHR 0x0D, CHR 0x0A}"

definition skip_ws :: "string \<Rightarrow> string" where
  "skip_ws s = dropWhile json_ws s"

definition json_hex :: "char \<Rightarrow> nat option" where
  "json_hex c =
     (let n = (of_char c :: nat)
      in if 48 \<le> n \<and> n \<le> 57 then Some (n - 48)
         else if 97 \<le> n \<and> n \<le> 102 then Some (n - 87)
         else if 65 \<le> n \<and> n \<le> 70 then Some (n - 55)
         else None)"

text \<open>A backslash, \<open>u\<close> and four hexadecimal digits: the code unit and the rest.\<close>

definition json_u4 :: "string \<Rightarrow> (nat \<times> string) option" where
  "json_u4 s =
     (case s of
        e # u # a # b # c # d # rest \<Rightarrow>
          (if e = bslash \<and> u = CHR ''u'' then
             (case (json_hex a, json_hex b, json_hex c, json_hex d) of
                (Some w, Some x, Some y, Some z) \<Rightarrow> Some (w * 4096 + x * 256 + y * 16 + z, rest)
              | _ \<Rightarrow> None)
           else None)
      | _ \<Rightarrow> None)"

definition simple_escape :: "char \<Rightarrow> char option" where
  "simple_escape e =
     (if e = dquote \<or> e = bslash \<or> e = CHR ''/'' then Some e
      else if e = CHR ''b'' then Some (CHR 0x08)
      else if e = CHR ''f'' then Some (CHR 0x0C)
      else if e = CHR ''n'' then Some (CHR 0x0A)
      else if e = CHR ''r'' then Some (CHR 0x0D)
      else if e = CHR ''t'' then Some (CHR 0x09)
      else None)"

text \<open>One character or escape of a string body: the bytes it stands for and the rest.\<close>

definition json_char :: "string \<Rightarrow> (string \<times> string) option" where
  "json_char s =
     (case s of
        [] \<Rightarrow> None
      | c # cs \<Rightarrow>
          (if c = bslash then
             (case json_u4 s of
                Some (r, rest) \<Rightarrow>
                  (if 0xD800 \<le> r \<and> r < 0xE000 then
                     (case json_u4 rest of
                        Some (r2, rest2) \<Rightarrow>
                          (if r < 0xDC00 \<and> 0xDC00 \<le> r2 \<and> r2 < 0xE000
                           then Some (encode_rune ((r - 0xD800) * 0x400 + (r2 - 0xDC00) + 0x10000), rest2)
                           else Some (encode_rune rune_error, rest))
                      | None \<Rightarrow> Some (encode_rune rune_error, rest))
                   else Some (encode_rune r, rest))
              | None \<Rightarrow>
                  (case cs of
                     e # rest \<Rightarrow> map_option (\<lambda>b. ([b], rest)) (simple_escape e)
                   | [] \<Rightarrow> None))
           else if (of_char c :: nat) < 0x20 then None
           else if (of_char c :: nat) < 0x80 then Some ([c], cs)
           else (let (r, n) = decode_rune s; w = max 1 n
                 in if r = rune_error \<and> n = 1 then Some (encode_rune rune_error, cs)
                    else Some (take w s, drop w s))))"

fun json_body :: "nat \<Rightarrow> string \<Rightarrow> (string \<times> string) option" where
  "json_body 0 s = None"
| "json_body (Suc k) s =
     (case s of
        [] \<Rightarrow> None
      | c # cs \<Rightarrow>
          (if c = dquote then Some ([], cs)
           else case json_char s of
               None \<Rightarrow> None
             | Some (b, rest) \<Rightarrow>
                 (case json_body k rest of
                    None \<Rightarrow> None
                  | Some (t, rest') \<Rightarrow> Some (b @ t, rest'))))"

text \<open>A string after its opening quote.\<close>

definition parse_string :: "string \<Rightarrow> (string \<times> string) option" where
  "parse_string s = json_body (Suc (length s)) s"

definition take_digits :: "string \<Rightarrow> string \<times> string" where
  "take_digits s = (takeWhile is_digit s, dropWhile is_digit s)"

definition parse_number :: "string \<Rightarrow> (string \<times> string) option" where
  "parse_number s =
     (let (sign, s1) = (case s of c # cs \<Rightarrow> if c = CHR ''-'' then (''-'', cs) else ([], s) | [] \<Rightarrow> ([], s));
          (int, s2) = (case s1 of c # cs \<Rightarrow> if c = CHR ''0'' then (''0'', cs) else take_digits s1 | [] \<Rightarrow> ([], s1))
      in if int = [] then None
         else
           (case (case s2 of
                    c # cs \<Rightarrow>
                      (if c = CHR ''.'' then
                         (let (ds, r) = take_digits cs in if ds = [] then None else Some (CHR ''.'' # ds, r))
                       else Some ([], s2))
                  | [] \<Rightarrow> Some ([], s2)) of
              None \<Rightarrow> None
            | Some (frac, s3) \<Rightarrow>
                (case s3 of
                   c # cs \<Rightarrow>
                     (if c = CHR ''e'' \<or> c = CHR ''E'' then
                        (let (sg, s4) = (case cs of
                                d # ds \<Rightarrow> if d = CHR ''+'' \<or> d = CHR ''-'' then ([d], ds) else ([], cs)
                              | [] \<Rightarrow> ([], cs));
                             (ds, r) = take_digits s4
                         in if ds = [] then None else Some (sign @ int @ frac @ [c] @ sg @ ds, r))
                      else Some (sign @ int @ frac, s3))
                 | [] \<Rightarrow> Some (sign @ int @ frac, s3))))"

definition parse_literal :: "string \<Rightarrow> json \<Rightarrow> string \<Rightarrow> (json \<times> string) option" where
  "parse_literal lit v s = (if has_prefix s lit then Some (v, drop (length lit) s) else None)"

definition max_depth :: nat where
  "max_depth = 10000"

text \<open>
  Values, the rest of an array after an element is due, the rest of an object after a key is due;
  \<open>d\<close> is how deep the text may still nest.
\<close>

fun parse_value :: "nat \<Rightarrow> nat \<Rightarrow> string \<Rightarrow> (json \<times> string) option"
  and parse_elems :: "nat \<Rightarrow> nat \<Rightarrow> string \<Rightarrow> (json list \<times> string) option"
  and parse_members :: "nat \<Rightarrow> nat \<Rightarrow> string \<Rightarrow> ((string \<times> json) list \<times> string) option" where
  "parse_value 0 d s = None"
| "parse_value (Suc k) d s =
     (case skip_ws s of
        [] \<Rightarrow> None
      | c # cs \<Rightarrow>
          (if c = dquote then map_option (\<lambda>(t, r). (JString t, r)) (parse_string cs)
           else if c = CHR ''{'' then
             (if d = 0 then None
              else case skip_ws cs of
                  [] \<Rightarrow> None
                | e # r \<Rightarrow>
                    (if e = CHR ''}'' then Some (JObject [], r)
                     else map_option (\<lambda>(ms, r). (JObject ms, r)) (parse_members k (d - 1) (e # r))))
           else if c = CHR ''['' then
             (if d = 0 then None
              else case skip_ws cs of
                  [] \<Rightarrow> None
                | e # r \<Rightarrow>
                    (if e = CHR '']'' then Some (JArray [], r)
                     else map_option (\<lambda>(vs, r). (JArray vs, r)) (parse_elems k (d - 1) (e # r))))
           else if c = CHR ''t'' then parse_literal ''true'' (JBool True) (c # cs)
           else if c = CHR ''f'' then parse_literal ''false'' (JBool False) (c # cs)
           else if c = CHR ''n'' then parse_literal ''null'' JNull (c # cs)
           else map_option (\<lambda>(t, r). (JNumber t, r)) (parse_number (c # cs))))"
| "parse_elems 0 d s = None"
| "parse_elems (Suc k) d s =
     (case parse_value k d s of
        None \<Rightarrow> None
      | Some (v, r) \<Rightarrow>
          (case skip_ws r of
             [] \<Rightarrow> None
           | e # r' \<Rightarrow>
               (if e = CHR '']'' then Some ([v], r')
                else if e = CHR '','' then map_option (\<lambda>(vs, q). (v # vs, q)) (parse_elems k d r')
                else None)))"
| "parse_members 0 d s = None"
| "parse_members (Suc k) d s =
     (case skip_ws s of
        [] \<Rightarrow> None
      | q # s1 \<Rightarrow>
          (if q \<noteq> dquote then None
           else case parse_string s1 of
               None \<Rightarrow> None
             | Some (key, s2) \<Rightarrow>
                 (case skip_ws s2 of
                    [] \<Rightarrow> None
                  | c # s3 \<Rightarrow>
                      (if c \<noteq> CHR '':'' then None
                       else case parse_value k d s3 of
                           None \<Rightarrow> None
                         | Some (v, s4) \<Rightarrow>
                             (case skip_ws s4 of
                                [] \<Rightarrow> None
                              | e # s5 \<Rightarrow>
                                  (if e = CHR ''}'' then Some ([(key, v)], s5)
                                   else if e = CHR '','' then
                                     map_option (\<lambda>(ms, r). ((key, v) # ms, r)) (parse_members k d s5)
                                   else None))))))"

definition json_parse :: "string \<Rightarrow> json option" where
  "json_parse s =
     (case parse_value (2 * length s + 2) max_depth s of
        None \<Rightarrow> None
      | Some (v, r) \<Rightarrow> if skip_ws r = [] then Some v else None)"

section \<open>Struct fields\<close>

text \<open>
  The folded form of a key: letters in upper case; the long s and the Kelvin sign fold to letters.
\<close>

definition fold_name :: "string \<Rightarrow> string" where
  "fold_name s =
     concat (map (\<lambda>r. if 97 \<le> r \<and> r \<le> 122 then [char_of (r - 32)]
                      else if r = 0x17F then ''S'' else if r = 0x212A then ''K''
                      else encode_rune r) (runes s))"

definition field_matches :: "string \<Rightarrow> string \<Rightarrow> bool" where
  "field_matches name key \<longleftrightarrow> key = name \<or> fold_name key = fold_name name"

text \<open>
  A string field of a struct after decoding the members of an object into it, in order: a string
  is stored, \<open>null\<close> changes nothing, anything else is a type error.
\<close>

fun bind_string :: "string \<Rightarrow> string \<Rightarrow> (string \<times> json) list \<Rightarrow> string option" where
  "bind_string name cur [] = Some cur"
| "bind_string name cur ((k, v) # ms) =
     (if \<not> field_matches name k then bind_string name cur ms
      else case v of
          JString s \<Rightarrow> bind_string name s ms
        | JNull \<Rightarrow> bind_string name cur ms
        | _ \<Rightarrow> None)"

section \<open>Strings survive printing\<close>

lemma low_hex_json_hex: "n < 16 \<Longrightarrow> json_hex (low_hex n) = Some n"
  by (auto simp: json_hex_def low_hex_def Let_def)

lemma json_escape_Nil [simp]: "json_escape [] = []"
  by (simp add: json_escape.simps)

lemma json_escape_ascii: "(of_char c :: nat) < 0x80 \<Longrightarrow> json_escape (c # s) = json_escape_byte c @ json_escape s"
  by (subst json_escape.simps) simp

lemma json_char_simple:
  assumes "simple_escape e = Some b"
  shows "json_char (bslash # e # s) = Some ([b], s)"
proof -
  have "e \<noteq> CHR ''u''" using assms by (auto simp: simple_escape_def)
  then have "json_u4 (bslash # e # s) = None" by (simp add: json_u4_def split: list.split)
  with assms show ?thesis by (simp add: json_char_def)
qed

lemma json_char_escape:
  assumes "(of_char c :: nat) < 0x80"
  shows "json_char (json_escape_byte c @ s) = Some ([c], s) \<and> (\<exists>x y. json_escape_byte c = x # y \<and> x \<noteq> dquote)"
proof -
  have enc: "encode_rune (of_char c) = [c]" using assms by (simp add: encode_rune_def)
  consider (safe) "json_safe c" | (quoted) "c = dquote \<or> c = bslash"
    | (named) "c = CHR 0x08 \<or> c = CHR 0x0C \<or> c = CHR 0x0A \<or> c = CHR 0x0D \<or> c = CHR 0x09"
    | (hex) "\<not> json_safe c" "c \<noteq> dquote" "c \<noteq> bslash" "c \<noteq> CHR 0x08" "c \<noteq> CHR 0x0C" "c \<noteq> CHR 0x0A"
        "c \<noteq> CHR 0x0D" "c \<noteq> CHR 0x09" by blast
  then show ?thesis
  proof cases
    case safe
    then show ?thesis using assms by (auto simp: json_escape_byte_def json_char_def json_safe_def)
  next
    case quoted
    then have "json_escape_byte c = [bslash, c]" by (auto simp: json_escape_byte_def json_safe_def)
    moreover have "simple_escape c = Some c" using quoted by (auto simp: simple_escape_def)
    ultimately show ?thesis by (simp add: json_char_simple)
  next
    case named
    have "json_escape_byte (CHR 0x08) = [bslash, CHR ''b''] \<and> simple_escape (CHR ''b'') = Some (CHR 0x08)"
      "json_escape_byte (CHR 0x0C) = [bslash, CHR ''f''] \<and> simple_escape (CHR ''f'') = Some (CHR 0x0C)"
      "json_escape_byte (CHR 0x0A) = [bslash, CHR ''n''] \<and> simple_escape (CHR ''n'') = Some (CHR 0x0A)"
      "json_escape_byte (CHR 0x0D) = [bslash, CHR ''r''] \<and> simple_escape (CHR ''r'') = Some (CHR 0x0D)"
      "json_escape_byte (CHR 0x09) = [bslash, CHR ''t''] \<and> simple_escape (CHR ''t'') = Some (CHR 0x09)"
      by code_simp+
    with named obtain e where "json_escape_byte c = [bslash, e]" "simple_escape e = Some c" by blast
    then show ?thesis by (simp add: json_char_simple)
  next
    case hex
    have h: "json_hex (low_hex (of_char c div 16)) = Some (of_char c div 16)"
      "json_hex (low_hex (of_char c mod 16)) = Some (of_char c mod 16)" "json_hex (CHR ''0'') = Some 0"
      using assms by (simp_all add: low_hex_json_hex) (simp add: json_hex_def)
    have "(of_char c :: nat) div 16 * 16 + of_char c mod 16 = of_char c" by simp
    with hex h enc assms show ?thesis
      by (simp add: json_escape_byte_def json_char_def json_u4_def)
  qed
qed

lemma json_body_escape:
  "is_ascii s \<Longrightarrow> length s < k \<Longrightarrow> json_body k (json_escape s @ dquote # rest) = Some (s, rest)"
proof (induction s arbitrary: k)
  case Nil
  then show ?case by (cases k) simp_all
next
  case (Cons c s)
  from Cons.prems have c: "(of_char c :: nat) < 0x80" and s: "is_ascii s" by (auto simp: is_ascii_def)
  obtain k' where k: "k = Suc k'" "length s < k'" using Cons.prems(2) by (cases k) auto
  obtain x y where xy: "json_escape_byte c = x # y" "x \<noteq> dquote" using json_char_escape [OF c] by blast
  have "json_char (x # y @ json_escape s @ dquote # rest) = Some ([c], json_escape s @ dquote # rest)"
    using json_char_escape [OF c, of "json_escape s @ dquote # rest"] xy by simp
  with Cons.IH [OF s k(2)] k xy show ?case by (simp add: json_escape_ascii [OF c])
qed

lemma json_escape_length: "is_ascii s \<Longrightarrow> length s \<le> length (json_escape s)"
proof (induction s)
  case (Cons c s)
  from Cons.prems have c: "(of_char c :: nat) < 0x80" and s: "is_ascii s" by (auto simp: is_ascii_def)
  obtain x y where "json_escape_byte c = x # y" using json_char_escape [OF c] by blast
  with Cons.IH [OF s] show ?case by (simp add: json_escape_ascii [OF c])
qed simp

lemma parse_string_escape: "is_ascii s \<Longrightarrow> parse_string (json_escape s @ dquote # rest) = Some (s, rest)"
  using json_escape_length [of s] by (simp only: parse_string_def) (rule json_body_escape; simp)

section \<open>The fuel is enough\<close>

lemma json_u4_shorter: "json_u4 s = Some (n, r) \<Longrightarrow> length r < length s"
  by (auto simp: json_u4_def split: list.splits if_splits option.splits)

lemma json_char_shorter:
  assumes "json_char s = Some (b, r)" shows "length r < length s"
proof (cases s)
  case (Cons c cs)
  show ?thesis
  proof (cases "c = bslash")
    case True
    with assms Cons show ?thesis
      by (auto simp: json_char_def split: option.splits if_splits list.splits dest!: json_u4_shorter)
  next
    case False
    obtain x n where d: "decode_rune s = (x, n)" by fastforce
    show ?thesis
      using assms Cons False d by (auto simp: json_char_def Let_def split: if_splits)
  qed
qed (use assms in \<open>simp add: json_char_def\<close>)

lemma json_body_shorter: "json_body k s = Some (t, r) \<Longrightarrow> length r < length s"
proof (induction k s arbitrary: t r rule: json_body.induct)
  case (2 k s)
  then show ?case
    by (fastforce split: list.splits if_splits option.splits dest: json_char_shorter)
qed simp

lemma json_body_fuel: "length s < k \<Longrightarrow> length s < k' \<Longrightarrow> json_body k s = json_body k' s"
proof (induction k arbitrary: s k')
  case (Suc k)
  then obtain j where k': "k' = Suc j" by (cases k') auto
  show ?case
  proof (cases "json_char s")
    case (Some p)
    obtain b r where "p = (b, r)" by fastforce
    with Some have c: "json_char s = Some (b, r)" "length r < length s" using json_char_shorter by auto
    have "json_body k r = json_body j r" using Suc.prems c(2) k' by (intro Suc.IH) auto
    with c k' show ?thesis by (cases s) auto
  next
    case None
    with k' show ?thesis by (cases s) auto
  qed
qed simp

lemma skip_ws_le: "length (skip_ws s) \<le> length s"
  by (simp add: skip_ws_def length_dropWhile_le)

lemma skip_ws_Cons: "skip_ws s = c # r \<Longrightarrow> length r < length s"
  using skip_ws_le [of s] by simp

lemma parse_string_shorter: "parse_string s = Some (t, r) \<Longrightarrow> length r < length s"
  by (simp add: parse_string_def json_body_shorter del: json_body.simps)

lemma parse_literal_shorter: "lit \<noteq> [] \<Longrightarrow> parse_literal lit v s = Some (x, r) \<Longrightarrow> length r < length s"
  by (auto simp: parse_literal_def has_prefix_iff split: if_splits)

lemma take_digits_le:
  assumes "take_digits s = (ds, r)" shows "length r \<le> length s \<and> (ds \<noteq> [] \<longrightarrow> length r < length s)"
proof -
  have "s = ds @ r" using assms by (auto simp: take_digits_def)
  then show ?thesis by simp
qed

lemma parse_number_shorter: "parse_number s = Some (t, r) \<Longrightarrow> length r < length s"
  unfolding parse_number_def Let_def
  by (auto split: list.splits if_splits prod.splits option.splits dest!: take_digits_le)

lemma parse_shorter:
  "parse_value k d s = Some (v, r) \<Longrightarrow> length r < length s"
  "parse_elems k d s = Some (vs, r) \<Longrightarrow> length r < length s"
  "parse_members k d s = Some (ms, r) \<Longrightarrow> length r < length s"
proof (induction k d s and k d s and k d s arbitrary: v r and vs r and ms r
    rule: parse_value_parse_elems_parse_members.induct)
  case (2 k d s)
  show ?case
  proof (cases "skip_ws s")
    case (Cons c cs)
    note len = skip_ws_Cons [OF Cons] skip_ws_le [of s] skip_ws_le [of cs]
    show ?thesis
      using 2 Cons len
      by (fastforce split: if_splits list.splits option.splits
          dest: parse_string_shorter parse_literal_shorter [rotated] parse_number_shorter)
  qed (use 2 in simp)
next
  case (4 k d s)
  then show ?case
    by (fastforce split: if_splits list.splits option.splits dest: skip_ws_Cons)
next
  case (6 k d s)
  then show ?case
    by (fastforce split: if_splits list.splits option.splits dest: skip_ws_Cons parse_string_shorter)
qed simp_all

lemma parse_fuel_step:
  "2 * length s < k \<Longrightarrow> parse_value (Suc k) d s = parse_value k d s"
  "2 * length s + 1 < k \<Longrightarrow> parse_elems (Suc k) d s = parse_elems k d s"
  "2 * length s < k \<Longrightarrow> parse_members (Suc k) d s = parse_members k d s"
proof (induction k d s and k d s and k d s rule: parse_value_parse_elems_parse_members.induct)
  case (2 k d s)
  show ?case
  proof (cases "skip_ws s")
    case (Cons c cs)
    note len = skip_ws_Cons [OF Cons] skip_ws_le [of cs]
    have e: "parse_elems (Suc k) (d - 1) (e # r) = parse_elems k (d - 1) (e # r)" 
      if "skip_ws cs = e # r" "c = CHR ''[''" "d \<noteq> 0" "e \<noteq> CHR '']''" for e r
      using that 2 len Cons by auto
    have m: "parse_members (Suc k) (d - 1) (e # r) = parse_members k (d - 1) (e # r)" 
      if "skip_ws cs = e # r" "c = CHR ''{''" "d \<noteq> 0" "e \<noteq> CHR ''}''" for e r
      using that 2 len Cons by auto
    show ?thesis using e m Cons by (auto split: list.split)
  qed simp
next
  case (4 k d s)
  have v: "parse_value (Suc k) d s = parse_value k d s" using 4 by auto
  have e: "parse_elems (Suc k) d r' = parse_elems k d r'"
    if "parse_value k d s = Some (x, r)" "skip_ws r = e # r'" "e \<noteq> CHR '']''" "e = CHR '',''" for x r e r'
  proof -
    have "length r' < length r" "length r < length s" using that(1,2) skip_ws_Cons parse_shorter(1) by auto
    with 4 that show ?thesis by auto
  qed
  show ?case
    unfolding parse_elems.simps(2) [of "Suc k"] v parse_elems.simps(2) [of k]
    using e by (auto split: option.split list.split)
next
  case (6 k d s)
  have v: "parse_value (Suc k) d s3 = parse_value k d s3"
    if "skip_ws s = q # s1" "q = dquote" "parse_string s1 = Some (key, s2)" "skip_ws s2 = c # s3" "c = CHR '':''"
    for q s1 key s2 c s3
  proof -
    have "length s1 < length s" "length s2 < length s1" "length s3 < length s2"
      using that skip_ws_Cons parse_string_shorter by auto
    with 6 that show ?thesis by auto
  qed
  have m: "parse_members (Suc k) d s5 = parse_members k d s5"
    if "skip_ws s = q # s1" "q = dquote" "parse_string s1 = Some (key, s2)" "skip_ws s2 = c # s3" "c = CHR '':''"
      "parse_value k d s3 = Some (x, s4)" "skip_ws s4 = e # s5" "e \<noteq> CHR ''}''" "e = CHR '',''"
    for q s1 key s2 c s3 x s4 e s5
  proof -
    have "length s1 < length s" "length s2 < length s1" "length s3 < length s2" "length s4 < length s3" "length s5 < length s4"
      using that skip_ws_Cons parse_string_shorter parse_shorter(1) by auto
    with 6 that show ?thesis by auto
  qed
  show ?case
    unfolding parse_members.simps(2) [of "Suc k"] parse_members.simps(2) [of k]
    using v m by (auto split: option.split list.split)
qed simp_all

text \<open>More fuel than \<open>json_parse\<close> gives changes nothing: a parse that fails has met a malformed text.\<close>

lemma parse_value_fuel: "2 * length s < k \<Longrightarrow> parse_value (k + n) d s = parse_value k d s"
  by (induction n) (simp_all add: parse_fuel_step del: parse_value.simps)

lemma json_parse_fuel:
  "2 * length s + 2 \<le> k \<Longrightarrow> json_parse s =
     (case parse_value k max_depth s of None \<Rightarrow> None | Some (v, r) \<Rightarrow> if skip_ws r = [] then Some v else None)"
proof -
  assume "2 * length s + 2 \<le> k"
  then obtain n where "k = 2 * length s + 2 + n" by (metis le_iff_add)
  then show ?thesis using parse_value_fuel [of s "2 * length s + 2" n max_depth] by (simp add: json_parse_def del: parse_value.simps)
qed

end
