(* ===== verification/PreAuth.thy ===== *)
theory PreAuth
  imports GoJson GoCodec GoHttp
begin

text \<open>
  \<open>internal/auth/state.go\<close>: the pre-auth cookie, which binds state, nonce and return URL to one
  browser for the sign-in round trip.  Its value is base64url of a JSON object.
\<close>

definition pre_auth_cookie_name :: string where
  "pre_auth_cookie_name = ''__Host-forge_pre_auth''"

definition pre_auth_max_age :: int where
  "pre_auth_max_age = 600"

record pre_auth =
  pa_state :: string
  pa_nonce :: string
  pa_return_to :: string

definition random_token :: "string result \<Rightarrow> string result" where
  "random_token rnd = random_id ''auth: crypto/rand'' rnd"

text \<open>Two draws of random bytes, the second only after the first succeeded.\<close>

definition new_pre_auth :: "string result \<Rightarrow> string result \<Rightarrow> string \<Rightarrow> pre_auth result" where
  "new_pre_auth rnd1 rnd2 return_to =
     (case random_token rnd1 of
        Inl e \<Rightarrow> Inl e
      | Inr state \<Rightarrow>
          (case random_token rnd2 of
             Inl e \<Rightarrow> Inl e
           | Inr nonce \<Rightarrow> Inr \<lparr>pa_state = state, pa_nonce = nonce, pa_return_to = return_to\<rparr>))"

definition marshal_pre_auth :: "pre_auth \<Rightarrow> string" where
  "marshal_pre_auth p =
     json_object [(''state'', json_string (pa_state p)), (''nonce'', json_string (pa_nonce p)),
                  (''return_to'', json_string (pa_return_to p))]"

definition pre_auth_cookie :: "string \<Rightarrow> int \<Rightarrow> cookie" where
  "pre_auth_cookie v age =
     \<lparr>ck_name = pre_auth_cookie_name, ck_value = v, ck_path = ''/'', ck_domain = [], ck_expires = None,
      ck_max_age = age, ck_http_only = True, ck_secure = True, ck_same_site = SameSiteLax\<rparr>"

definition set_pre_auth :: "pre_auth \<Rightarrow> response \<Rightarrow> response" where
  "set_pre_auth p w = set_cookie (pre_auth_cookie (b64_encode (marshal_pre_auth p)) pre_auth_max_age) w"

definition clear_pre_auth :: "response \<Rightarrow> response" where
  "clear_pre_auth w = set_cookie (pre_auth_cookie [] (-1)) w"

definition unmarshal_pre_auth :: "string \<Rightarrow> pre_auth option" where
  "unmarshal_pre_auth raw =
     (case json_parse raw of
        Some (JObject ms) \<Rightarrow>
          (case (bind_string ''state'' [] ms, bind_string ''nonce'' [] ms, bind_string ''return_to'' [] ms) of
             (Some s, Some n, Some r) \<Rightarrow> Some \<lparr>pa_state = s, pa_nonce = n, pa_return_to = r\<rparr>
           | _ \<Rightarrow> None)
      | Some JNull \<Rightarrow> Some \<lparr>pa_state = [], pa_nonce = [], pa_return_to = []\<rparr>
      | _ \<Rightarrow> None)"

definition read_pre_auth :: "header \<Rightarrow> pre_auth result" where
  "read_pre_auth h =
     (case request_cookie h pre_auth_cookie_name of
        None \<Rightarrow> Inl (Sentinel MissingPreAuth)
      | Some v \<Rightarrow>
          (if v = [] then Inl (Sentinel MissingPreAuth)
           else case b64_decode v of
               None \<Rightarrow> Inl (Sentinel CorruptPreAuth)
             | Some raw \<Rightarrow>
                 (case unmarshal_pre_auth raw of
                    None \<Rightarrow> Inl (Sentinel CorruptPreAuth)
                  | Some p \<Rightarrow>
                      if pa_state p = [] \<or> pa_nonce p = [] then Inl (Sentinel CorruptPreAuth) else Inr p)))"

section \<open>Decoding what was encoded\<close>

lemma skip_ws_other: "\<not> json_ws c \<Longrightarrow> skip_ws (c # s) = c # s"
  by (simp add: skip_ws_def)

lemma json_ws_marks: "\<not> json_ws (CHR ''{'')" "\<not> json_ws (CHR ''}'')" "\<not> json_ws dquote" "\<not> json_ws (CHR '':'')"
    "\<not> json_ws (CHR '','')"
  by code_simp+

lemma parse_value_string:
  "is_ascii s \<Longrightarrow> parse_value (Suc k) d (json_string s @ rest) = Some (JString s, rest)"
  by (simp add: json_string_def skip_ws_other json_ws_marks parse_string_escape)

lemma parse_members_last:
  assumes "is_ascii key" and "is_ascii v"
  shows "parse_members (Suc (Suc k)) d (json_string key @ CHR '':'' # json_string v @ CHR ''}'' # rest)
           = Some ([(key, JString v)], rest)"
  using assms parse_value_string [OF assms(2), of k d "CHR ''}'' # rest"]
  by (simp add: json_string_def skip_ws_other json_ws_marks parse_string_escape)

lemma parse_members_more:
  assumes "is_ascii key" and "is_ascii v"
  shows "parse_members (Suc (Suc k)) d (json_string key @ CHR '':'' # json_string v @ CHR '','' # rest)
           = map_option (\<lambda>(ms, r). ((key, JString v) # ms, r)) (parse_members (Suc k) d rest)"
  using assms parse_value_string [OF assms(2), of k d "CHR '','' # rest"]
  by (simp add: json_string_def skip_ws_other json_ws_marks parse_string_escape)

lemma json_parse_pre_auth:
  assumes "is_ascii (pa_state p)" and "is_ascii (pa_nonce p)" and "is_ascii (pa_return_to p)"
  shows "json_parse (marshal_pre_auth p) =
           Some (JObject [(''state'', JString (pa_state p)), (''nonce'', JString (pa_nonce p)),
                          (''return_to'', JString (pa_return_to p))])"
proof -
  let ?s = "json_string (pa_state p)" and ?n = "json_string (pa_nonce p)" and ?r = "json_string (pa_return_to p)"
  let ?body = "json_string ''state'' @ CHR '':'' # ?s @ CHR '','' # json_string ''nonce'' @ CHR '':'' # ?n
                 @ CHR '','' # json_string ''return_to'' @ CHR '':'' # ?r @ CHR ''}'' # []"
  have m: "marshal_pre_auth p = CHR ''{'' # ?body" by (simp add: marshal_pre_auth_def json_object_def)
  have keys: "is_ascii ''state''" "is_ascii ''nonce''" "is_ascii ''return_to''" by code_simp+
  have members: "parse_members (Suc (Suc (Suc (Suc k)))) d ?body =
      Some ([(''state'', JString (pa_state p)), (''nonce'', JString (pa_nonce p)),
             (''return_to'', JString (pa_return_to p))], [])" for k d
    by (simp only: parse_members_more [OF keys(1) assms(1)] parse_members_more [OF keys(2) assms(2)]
        parse_members_last [OF keys(3) assms(3)]) simp
  obtain k where k: "2 * length (marshal_pre_auth p) + 2 = Suc (Suc (Suc (Suc (Suc k))))"
    by (auto simp: m json_string_def intro!: that)
  obtain x where x: "?body = dquote # x" by (auto simp: json_string_def)
  have "parse_value (Suc (Suc (Suc (Suc (Suc k))))) max_depth (CHR ''{'' # ?body) =
      Some (JObject [(''state'', JString (pa_state p)), (''nonce'', JString (pa_nonce p)),
                     (''return_to'', JString (pa_return_to p))], [])"
    using members [of k "max_depth - 1"] unfolding x
    by (simp add: skip_ws_other json_ws_marks max_depth_def del: parse_members.simps)
  then show ?thesis unfolding json_parse_def k unfolding m by (simp add: skip_ws_def del: parse_value.simps)
qed

lemma unmarshal_marshal:
  assumes "is_ascii (pa_state p)" and "is_ascii (pa_nonce p)" and "is_ascii (pa_return_to p)"
  shows "unmarshal_pre_auth (marshal_pre_auth p) = Some p"
proof -
  have f: "field_matches ''state'' ''state''" "field_matches ''nonce'' ''nonce''"
    "field_matches ''return_to'' ''return_to''" "\<not> field_matches ''state'' ''nonce''"
    "\<not> field_matches ''state'' ''return_to''" "\<not> field_matches ''nonce'' ''state''"
    "\<not> field_matches ''nonce'' ''return_to''" "\<not> field_matches ''return_to'' ''state''"
    "\<not> field_matches ''return_to'' ''nonce''" by code_simp+
  show ?thesis by (cases p) (use assms in \<open>simp add: unmarshal_pre_auth_def json_parse_pre_auth f\<close>)
qed

text \<open>The header of a browser that stores one cookie.\<close>

definition cookie_header :: "cookie \<Rightarrow> header" where
  "cookie_header c = [(''Cookie'', [ck_name c @ ''='' @ ck_value c])]"

lemma role_char_cookie: "role_char c \<Longrightarrow> cookie_byte c \<and> \<not> ascii_ws c"
  by (auto simp: role_char_def cookie_byte_def ascii_ws_def Let_def)

lemma trim_ascii_id: "list_all (\<lambda>c. \<not> ascii_ws c) s \<Longrightarrow> trim_ascii s = s"
proof -
  assume "list_all (\<lambda>c. \<not> ascii_ws c) s"
  moreover have "dropWhile ascii_ws t = t" if "list_all (\<lambda>c. \<not> ascii_ws c) t" for t
    using that by (cases t) simp_all
  ultimately have "dropWhile ascii_ws s = s" "dropWhile ascii_ws (rev s) = rev s" by simp_all
  then show "trim_ascii s = s" by (simp add: trim_ascii_def)
qed

lemma request_cookie_header:
  assumes "is_token name" and "list_all (\<lambda>c. \<not> ascii_ws c \<and> c \<noteq> CHR ''='' \<and> c \<noteq> CHR '';'') name"
    and "list_all role_char v" and "v \<noteq> []"
  shows "request_cookie [(''Cookie'', [name @ ''='' @ v])] name = Some v"
proof -
  let ?l = "name @ ''='' @ v"
  have v: "list_all cookie_byte v" "list_all (\<lambda>c. \<not> ascii_ws c) v"
    using assms(3) role_char_cookie by (auto simp: list_all_iff)
  have "list_all (\<lambda>c. \<not> ascii_ws c) ?l" "CHR ''='' \<notin> set name" "list_all (\<lambda>c. \<not> ascii_ws c) name"
    using assms(2) v by (auto simp: list_all_iff ascii_ws_def)
  note t = trim_ascii_id [OF this(1)] trim_ascii_id [OF this(3)] this(2)
  have "cookie_byte (CHR '';'') = False" by code_simp
  then have semi: "CHR '';'' \<notin> set ?l" using assms(2) v(1) by (auto simp: list_all_iff)
  have "cookie_byte dquote = False" by code_simp
  then have "hd v \<noteq> dquote" using v(1) assms(4) by (cases v) auto
  then have pv: "parse_cookie_value v = Some v" using v(1) by (simp add: parse_cookie_value_def Let_def)
  have "str_cut (CHR ''='') ?l = (name, v, True)" using t(3) by (simp add: str_cut_append)
  then have "parse_cookie_part ?l = Some (name, v)"
    using t pv assms(1) by (simp add: parse_cookie_part_def Let_def)
  then have "parse_cookie_line ?l = [(name, v)]"
    using t semi by (simp add: parse_cookie_line_def str_split_no_sep List.map_filter_def)
  moreover have "canonical_key ''Cookie'' = ''Cookie''" by code_simp
  moreover have "name \<noteq> []" using assms(1) by (auto simp: is_token_def)
  ultimately show ?thesis by (simp add: request_cookie_def read_cookies_def header_values_def)
qed

lemma b64_ascii: "is_ascii (b64_encode s)"
  using b64_encode_role [of s] by (auto simp: is_ascii_def list_all_iff role_char_def Let_def)

lemma b64_nonempty: "s \<noteq> [] \<Longrightarrow> b64_encode s \<noteq> []"
  using b64_encode_inj [of s "[]"] by (auto simp: b64_encode_def)

lemma read_pre_auth_set:
  assumes "is_ascii (pa_state p)" and "is_ascii (pa_nonce p)" and "is_ascii (pa_return_to p)"
    and "pa_state p \<noteq> []" and "pa_nonce p \<noteq> []"
    and "request_cookie h pre_auth_cookie_name = Some (b64_encode (marshal_pre_auth p))"
  shows "read_pre_auth h = Inr p"
proof -
  have "marshal_pre_auth p \<noteq> []" by (simp add: marshal_pre_auth_def json_object_def)
  then have "b64_encode (marshal_pre_auth p) \<noteq> []" by (rule b64_nonempty)
  with assms show ?thesis by (simp add: read_pre_auth_def b64_decode_encode unmarshal_marshal)
qed

section \<open>Properties\<close>

text \<open>
  The pre-auth cookie carries its payload: the cookie written for a fresh payload, sent back
  by the browser, reads as that payload, with the return URL it was made for; and it has the
  attributes the \<open>__Host-\<close> prefix demands.
\<close>

theorem pre_auth_roundtrip:
  assumes "new_pre_auth (Inr a) (Inr b) url = Inr p" and "a \<noteq> []" and "b \<noteq> []" and "is_ascii url"
    and "set_pre_auth p w = w\<lparr>rs_cookies := rs_cookies w @ [c]\<rparr>"
  shows "read_pre_auth (cookie_header c) = Inr p \<and> pa_return_to p = url \<and> pa_state p = b64_encode a
         \<and> has_prefix (ck_name c) ''__Host-'' \<and> ck_secure c \<and> ck_path c = ''/'' \<and> ck_domain c = []
         \<and> ck_http_only c \<and> ck_max_age c = 600"
proof -
  from assms(1) have p: "p = \<lparr>pa_state = b64_encode a, pa_nonce = b64_encode b, pa_return_to = url\<rparr>"
    by (auto simp: new_pre_auth_def random_token_def random_id_def)
  from assms(5) have c: "c = pre_auth_cookie (b64_encode (marshal_pre_auth p)) pre_auth_max_age"
    by (cases w) (simp add: set_pre_auth_def set_cookie_def)
  have "is_token pre_auth_cookie_name"
    "list_all (\<lambda>c. \<not> ascii_ws c \<and> c \<noteq> CHR ''='' \<and> c \<noteq> CHR '';'') pre_auth_cookie_name" by code_simp+
  moreover have "marshal_pre_auth p \<noteq> []" by (simp add: marshal_pre_auth_def json_object_def)
  ultimately have "request_cookie (cookie_header c) pre_auth_cookie_name = Some (b64_encode (marshal_pre_auth p))"
    unfolding c cookie_header_def pre_auth_cookie_def
    using request_cookie_header b64_encode_role b64_nonempty by simp
  from read_pre_auth_set [OF _ _ _ _ _ this] assms(2-4) have "read_pre_auth (cookie_header c) = Inr p"
    by (simp add: p b64_ascii b64_nonempty)
  moreover have "has_prefix (ck_name c) ''__Host-''" unfolding c pre_auth_cookie_def by (simp add: pre_auth_cookie_name_def)
  ultimately show ?thesis by (simp add: c pre_auth_cookie_def pre_auth_max_age_def p)
qed

lemma pre_auth_roundtrip_witness:
  "\<exists>p c. set_pre_auth p new_response = new_response\<lparr>rs_cookies := [c]\<rparr>
     \<and> read_pre_auth (cookie_header c) = Inr p \<and> pa_return_to p = ''https://a.forgeutah.tech/?x=<1>&y=%22''"
proof -
  let ?p = "\<lparr>pa_state = b64_encode ''abc'', pa_nonce = b64_encode ''xyz'',
              pa_return_to = ''https://a.forgeutah.tech/?x=<1>&y=%22''\<rparr>"
  let ?c = "pre_auth_cookie (b64_encode (marshal_pre_auth ?p)) pre_auth_max_age"
  have n: "new_pre_auth (Inr ''abc'') (Inr ''xyz'') ''https://a.forgeutah.tech/?x=<1>&y=%22'' = Inr ?p"
    by (simp add: new_pre_auth_def random_token_def random_id_def)
  have s: "set_pre_auth ?p new_response = new_response\<lparr>rs_cookies := rs_cookies new_response @ [?c]\<rparr>"
    by (simp add: set_pre_auth_def set_cookie_def)
  have "is_ascii ''https://a.forgeutah.tech/?x=<1>&y=%22''" by code_simp
  from pre_auth_roundtrip [OF n _ _ this s]
  have "read_pre_auth (cookie_header ?c) = Inr ?p" by simp
  moreover have "set_pre_auth ?p new_response = new_response\<lparr>rs_cookies := [?c]\<rparr>"
    using s by (simp add: new_response_def)
  ultimately show ?thesis by (intro exI [of _ ?p] exI [of _ ?c] conjI) simp_all
qed

end
