(* ===== verification/BuildInfo.thy ===== *)
theory BuildInfo
  imports GoJson
begin

text \<open>
  \<open>internal/buildinfo\<close>: the version of the running binary.  What \<open>debug.ReadBuildInfo\<close> returns is an
  argument: nothing, or the build settings in order.
\<close>

record build_info =
  bi_version :: string
  bi_commit :: string
  bi_dirty :: bool

definition build_setting :: "string \<times> string \<Rightarrow> build_info \<Rightarrow> build_info" where
  "build_setting s info =
     (case s of (key, v) \<Rightarrow>
        if key = ''vcs.revision'' then
          (if 7 \<le> length v then info\<lparr>bi_commit := take 7 v\<rparr> else info\<lparr>bi_commit := v\<rparr>)
        else if key = ''vcs.modified'' then info\<lparr>bi_dirty := (v = ''true'')\<rparr>
        else info)"

definition get_build_info :: "string \<Rightarrow> (string \<times> string) list option \<Rightarrow> build_info" where
  "get_build_info version settings =
     (let info = \<lparr>bi_version = version, bi_commit = [], bi_dirty = False\<rparr>
      in case settings of None \<Rightarrow> info | Some ss \<Rightarrow> foldl (\<lambda>acc s. build_setting s acc) info ss)"

definition json_bool :: "bool \<Rightarrow> string" where
  "json_bool b = (if b then ''true'' else ''false'')"

definition build_info_json :: "build_info \<Rightarrow> string" where
  "build_info_json bi =
     json_object ([(''version'', json_string (bi_version bi))]
       @ (if bi_commit bi = [] then [] else [(''commit'', json_string (bi_commit bi))])
       @ (if bi_dirty bi then [(''dirty'', json_bool True)] else []))"

lemma get_build_info_commit: "length (bi_commit (get_build_info v settings)) \<le> 7"
proof -
  have "length (bi_commit (foldl (\<lambda>acc s. build_setting s acc) info ss)) \<le> 7"
    if "length (bi_commit info) \<le> 7" for info ss
    using that by (induction ss arbitrary: info) (auto simp: build_setting_def split: prod.split)
  then show ?thesis by (simp add: get_build_info_def Let_def split: option.split)
qed

end
