(* ===== verification/AuthHandlers.thy ===== *)
theory AuthHandlers
  imports SessionStore UserStore Config HttpLog ReturnTo PreAuth BuildInfo
begin

text \<open>
  \<open>internal/auth/handlers.go\<close>: the four endpoints of the sign-in flow.

  What the OAuth and OIDC libraries do is a parameter: the authorize URL, the code exchange (the
  \<open>id_token\<close> field of its answer, if it is a string) and the verification of a token, which yields
  the claims of the token as JSON text.  Clock readings, random bytes and store failures are
  inputs.  The session and user stores are those of the database model.
\<close>

definition session_opts_of :: "config \<Rightarrow> session_opts" where
  "session_opts_of cfg =
     \<lparr>so_lifetime = cf_session_lifetime cfg, so_idle_timeout = cf_session_idle_timeout cfg,
      so_cookie_domain = cf_cookie_domain cfg\<rparr>"

definition error_url :: "string \<Rightarrow> string" where
  "error_url code = ''/?error='' @ code"

definition auth_failed :: string where
  "auth_failed = ''auth_failed''"

definition not_in_workspace :: string where
  "not_in_workspace = ''not_in_workspace''"

definition resolve_return_to :: "config \<Rightarrow> string \<Rightarrow> string" where
  "resolve_return_to cfg raw =
     (case validate raw (cf_base_domain cfg) of
        Inr v \<Rightarrow> v
      | Inl e \<Rightarrow>
          if cf_default_landing_url cfg \<noteq> [] then cf_default_landing_url cfg
          else ''https://'' @ cf_auth_host cfg @ ''/'')"

section \<open>GET /auth/me\<close>

record me_app =
  ma_host :: string
  ma_url :: string

record me_response =
  me_signed_in :: bool
  me_name :: string
  me_email :: string
  me_avatar_url :: string
  me_tags :: "string list"
  me_apps :: "me_app list"
  me_build :: build_info

definition opt_member :: "string \<Rightarrow> string \<Rightarrow> (string \<times> string) list" where
  "opt_member k v = (if v = [] then [] else [(k, json_string v)])"

definition me_app_json :: "me_app \<Rightarrow> string" where
  "me_app_json a = json_object [(''host'', json_string (ma_host a)), (''url'', json_string (ma_url a))]"

definition me_json :: "me_response \<Rightarrow> string" where
  "me_json m =
     json_object
       ([(''signed_in'', json_bool (me_signed_in m))]
        @ opt_member ''name'' (me_name m) @ opt_member ''email'' (me_email m)
        @ opt_member ''avatar_url'' (me_avatar_url m)
        @ (if me_tags m = [] then [] else [(''tags'', json_list (map json_string (me_tags m)))])
        @ (if me_apps m = [] then [] else [(''apps'', json_list (map me_app_json (me_apps m)))])
        @ [(''build'', build_info_json (me_build m))])"

definition write_json :: "string \<Rightarrow> response \<Rightarrow> response" where
  "write_json body w = write_body (body @ [CHR 0x0A]) w"

fun insert_app :: "me_app \<Rightarrow> me_app list \<Rightarrow> me_app list" where
  "insert_app a [] = [a]"
| "insert_app a (b # bs) = (if str_less (ma_host b) (ma_host a) then b # insert_app a bs else a # b # bs)"

definition me_apps_of :: "config \<Rightarrow> me_app list" where
  "me_apps_of cfg =
     foldr insert_app
       (map (\<lambda>(host, _). \<lparr>ma_host = host, ma_url = ''https://'' @ host @ ''/''\<rparr>) (cf_upstream_map cfg)) []"

definition handle_me ::
    "gotime \<Rightarrow> err option \<Rightarrow> err option \<Rightarrow> build_info \<Rightarrow> config \<Rightarrow> request \<Rightarrow> response \<Rightarrow> db \<Rightarrow> response" where
  "handle_me now get_fault user_fault build cfg r w d =
     (let w1 = set_header ''Cache-Control'' ''no-store'' (set_header ''Content-Type'' ''application/json'' w);
          resp = \<lparr>me_signed_in = False, me_name = [], me_email = [], me_avatar_url = [], me_tags = [],
                  me_apps = [], me_build = build\<rparr>
      in case session_read r of
           None \<Rightarrow> write_json (me_json resp) w1
         | Some sid \<Rightarrow>
             (case session_get (session_opts_of cfg) now get_fault sid d of
                Inl e \<Rightarrow> write_json (me_json resp) w1
              | Inr sess \<Rightarrow>
                  (case user_get user_fault (se_user_id sess) d of
                     Inl e \<Rightarrow> write_json (me_json resp) w1
                   | Inr u \<Rightarrow>
                       write_json (me_json (resp\<lparr>me_signed_in := True, me_name := us_name u, me_email := us_email u,
                                                 me_avatar_url := us_avatar_url u, me_tags := us_roles u,
                                                 me_apps := me_apps_of cfg\<rparr>)) w1)))"

section \<open>GET /auth/login\<close>

definition handle_login ::
    "(string \<Rightarrow> string \<Rightarrow> string \<Rightarrow> string) \<Rightarrow> string result \<Rightarrow> string result \<Rightarrow> config \<Rightarrow> request \<Rightarrow> response
       \<Rightarrow> response" where
  "handle_login auth_code_url rnd1 rnd2 cfg r w =
     (let return_to = resolve_return_to cfg (query_get (u_raw_query (rq_url r)) ''return_to'')
      in case new_pre_auth rnd1 rnd2 return_to of
           Inl e \<Rightarrow> redirect (error_url auth_failed) 302 w
         | Inr payload \<Rightarrow>
             (let w1 = set_pre_auth payload w
              in redirect (auth_code_url (pa_state payload) (pa_nonce payload) (cf_slack_team_id cfg)) 302 w1))"

section \<open>GET /auth/callback\<close>

record id_claims =
  ic_subject :: string
  ic_email :: string
  ic_name :: string
  ic_picture :: string
  ic_nonce :: string
  ic_slack_team_id :: string
  ic_slack_user_id :: string

definition slack_team_claim :: string where
  "slack_team_claim = ''https://slack.com/team_id''"

definition slack_user_claim :: string where
  "slack_user_claim = ''https://slack.com/user_id''"

definition claim_members :: "string \<Rightarrow> (string \<times> json) list option" where
  "claim_members raw =
     (case json_parse raw of Some (JObject ms) \<Rightarrow> Some ms | Some JNull \<Rightarrow> Some [] | _ \<Rightarrow> None)"

definition decode_claims :: "(string \<times> json) list \<Rightarrow> id_claims option" where
  "decode_claims ms =
     (case (bind_string ''sub'' [] ms, bind_string ''email'' [] ms, bind_string ''name'' [] ms,
            bind_string ''picture'' [] ms, bind_string ''nonce'' [] ms,
            bind_string slack_team_claim [] ms, bind_string slack_user_claim [] ms) of
        (Some s, Some e, Some n, Some p, Some nc, Some t, Some u) \<Rightarrow>
          Some \<lparr>ic_subject = s, ic_email = e, ic_name = n, ic_picture = p, ic_nonce = nc,
                ic_slack_team_id = t, ic_slack_user_id = u\<rparr>
      | _ \<Rightarrow> None)"

text \<open>The lookup in the untyped map: the last member of the key, if it is a string.\<close>

definition raw_claim :: "(string \<times> json) list \<Rightarrow> string \<Rightarrow> string \<Rightarrow> string" where
  "raw_claim ms key cur =
     (if cur \<noteq> [] then cur
      else case map_of (rev ms) key of Some (JString v) \<Rightarrow> v | _ \<Rightarrow> cur)"

definition parse_claims :: "string \<Rightarrow> id_claims result" where
  "parse_claims raw =
     (case claim_members raw of
        None \<Rightarrow> Inl (Message ''claims decode'')
      | Some ms \<Rightarrow>
          (case decode_claims ms of
             None \<Rightarrow> Inl (Message ''claims decode'')
           | Some c \<Rightarrow>
               Inr (c\<lparr>ic_slack_team_id := raw_claim ms slack_team_claim (ic_slack_team_id c),
                      ic_slack_user_id := raw_claim ms slack_user_claim (ic_slack_user_id c)\<rparr>)))"

record callback_env =
  cb_exchange :: "string \<Rightarrow> string option result"
  cb_verifier :: "(string \<Rightarrow> string result) option"
  cb_upsert_now :: gotime
  cb_upsert_fault :: tx_fault
  cb_create_now :: gotime
  cb_random :: "string result"
  cb_create_fault :: tx_fault

definition claims_user :: "id_claims \<Rightarrow> oidc_claims" where
  "claims_user c =
     \<lparr>oc_slack_user_id = (if ic_slack_user_id c = [] then ic_subject c else ic_slack_user_id c),
      oc_slack_team_id = ic_slack_team_id c, oc_email = ic_email c, oc_name = ic_name c,
      oc_avatar_url = ic_picture c\<rparr>"

text \<open>Steps 1 to 6: the claims of the caller, or the code of the error page.\<close>

definition callback_claims ::
    "callback_env \<Rightarrow> config \<Rightarrow> request \<Rightarrow> string + pre_auth \<times> id_claims" where
  "callback_claims env cfg r =
     (case read_pre_auth (rq_header r) of
        Inl e \<Rightarrow> Inl auth_failed
      | Inr pre \<Rightarrow>
     (if query_get (u_raw_query (rq_url r)) ''state'' \<noteq> pa_state pre then Inl auth_failed
      else case cb_verifier env of
        None \<Rightarrow> Inl auth_failed
      | Some verify \<Rightarrow>
     (let code = query_get (u_raw_query (rq_url r)) ''code''
      in if code = [] then Inl auth_failed
         else case cb_exchange env code of
           Inl e \<Rightarrow> Inl auth_failed
         | Inr field \<Rightarrow>
     (let raw = (case field of Some t \<Rightarrow> t | None \<Rightarrow> [])
      in if raw = [] then Inl auth_failed
         else case verify raw of
           Inl e \<Rightarrow> Inl auth_failed
         | Inr tok \<Rightarrow>
     (case parse_claims tok of
        Inl e \<Rightarrow> Inl auth_failed
      | Inr c \<Rightarrow>
          if ic_nonce c \<noteq> pa_nonce pre then Inl auth_failed
          else if ic_slack_team_id c \<noteq> cf_slack_team_id cfg then Inl not_in_workspace
          else Inr (pre, c))))))"

definition handle_callback ::
    "callback_env \<Rightarrow> config \<Rightarrow> request \<Rightarrow> response \<Rightarrow> db \<Rightarrow> response \<times> db" where
  "handle_callback env cfg r w d =
     (let w1 = clear_pre_auth w
      in case callback_claims env cfg r of
           Inl code \<Rightarrow> (redirect (error_url code) 302 w1, d)
         | Inr (pre, c) \<Rightarrow>
             (case upsert_from_oidc (cb_upsert_now env) (cb_upsert_fault env) (claims_user c) d of
                (Inl e, d1) \<Rightarrow> (redirect (error_url auth_failed) 302 w1, d1)
              | (Inr u, d1) \<Rightarrow>
                  (case session_create (session_opts_of cfg) (cb_create_now env) (cb_random env)
                          (cb_create_fault env) (us_id u) (header_get (rq_header r) ''User-Agent'')
                          (client_ip r) d1 of
                     (Inl e, d2) \<Rightarrow> (redirect (error_url auth_failed) 302 w1, d2)
                   | (Inr sess, d2) \<Rightarrow>
                       (let w2 = session_set_cookie (se_id sess) (se_expires_at sess) (cf_cookie_domain cfg) w1
                        in (redirect (resolve_return_to cfg (pa_return_to pre)) 302 w2, d2)))))"

section \<open>POST /auth/logout\<close>

definition handle_logout :: "tx_fault \<Rightarrow> config \<Rightarrow> request \<Rightarrow> response \<Rightarrow> db \<Rightarrow> response \<times> db" where
  "handle_logout f cfg r w d =
     (let origin = header_get (rq_header r) ''Origin'';
          expected = ''https://'' @ cf_auth_host cfg
      in if origin = [] \<or> origin \<noteq> expected then (http_error ''forbidden'' 403 w, d)
         else
           (let d1 = (case session_read r of None \<Rightarrow> d | Some sid \<Rightarrow> snd (session_delete f sid d))
            in (redirect ''/'' 302 (session_clear_cookie (cf_cookie_domain cfg) w), d1)))"

section \<open>Who is let in\<close>

definition callback_ok :: "callback_env \<Rightarrow> config \<Rightarrow> request \<Rightarrow> pre_auth \<Rightarrow> id_claims \<Rightarrow> bool" where
  "callback_ok env cfg r pre c \<longleftrightarrow>
     read_pre_auth (rq_header r) = Inr pre
     \<and> query_get (u_raw_query (rq_url r)) ''state'' = pa_state pre
     \<and> query_get (u_raw_query (rq_url r)) ''code'' \<noteq> []
     \<and> (case (cb_verifier env, cb_exchange env (query_get (u_raw_query (rq_url r)) ''code'')) of
          (Some verify, Inr (Some raw)) \<Rightarrow>
            raw \<noteq> [] \<and> (case verify raw of Inr tok \<Rightarrow> parse_claims tok = Inr c | Inl e \<Rightarrow> False)
        | _ \<Rightarrow> False)
     \<and> ic_nonce c = pa_nonce pre \<and> ic_slack_team_id c = cf_slack_team_id cfg"

lemma callback_claims_Inr: "callback_claims env cfg r = Inr (pre, c) \<longleftrightarrow> callback_ok env cfg r pre c"
  by (auto simp: callback_claims_def callback_ok_def Let_def split: sum.splits option.splits if_splits)

lemma callback_claims_Inl: "callback_claims env cfg r = Inl code \<Longrightarrow> code \<in> {auth_failed, not_in_workspace}"
  by (auto simp: callback_claims_def Let_def split: sum.splits option.splits if_splits)

lemma user_of_slack_upsert:
  assumes "upsert_from_oidc now f claims d = (Inr u, d')"
  shows "\<exists>row. user_of_slack d' (oc_slack_user_id claims) = Some row \<and> ur_id row = us_id u
           \<and> ur_roles row = (case user_of_slack d (oc_slack_user_id claims) of Some old \<Rightarrow> ur_roles old | None \<Rightarrow> [])"
proof (cases "user_of_slack d (oc_slack_user_id claims)")
  case None
  then show ?thesis using upsert_cases [OF assms]
    by (auto simp: user_of_slack_def find_append provisioned_def)
next
  case (Some row)
  let ?g = "\<lambda>x. if ur_id x = ur_id row then refreshed now claims x else x"
  have "find (\<lambda>r. ur_slack_user_id r = oc_slack_user_id claims) (map ?g (users d))
      = map_option ?g (find (\<lambda>r. ur_slack_user_id r = oc_slack_user_id claims) (users d))"
    by (rule find_map_inv) (simp add: refreshed_def)
  with Some show ?thesis using upsert_cases [OF assms] by (auto simp: user_of_slack_def refreshed_def)
qed

lemma upsert_sessions: "upsert_from_oidc now f claims d = (r, d') \<Longrightarrow> sessions d' = sessions d"
  using upsert_cases [of now f claims d r d'] by (auto split: option.splits)

lemma create_users: "session_create opts now rnd f uid ua ip d = (r, d') \<Longrightarrow> users d' = users d"
  using session_create_cases [of opts now rnd f uid ua ip d r d'] by auto

lemma handle_callback_cases:
  assumes "handle_callback env cfg r w d = (w', d')"
  obtains (failed) code where "sessions d' = sessions d" and "code \<in> {auth_failed, not_in_workspace}"
      and "w' = redirect (error_url code) 302 (clear_pre_auth w)"
      and "d' \<noteq> d \<longrightarrow> (\<exists>pre c. callback_ok env cfg r pre c)"
  | (signed_in) pre c u d1 s where "callback_ok env cfg r pre c"
      and "upsert_from_oidc (cb_upsert_now env) (cb_upsert_fault env) (claims_user c) d = (Inr u, d1)"
      and "session_create (session_opts_of cfg) (cb_create_now env) (cb_random env) (cb_create_fault env) (us_id u)
             (header_get (rq_header r) ''User-Agent'') (client_ip r) d1 = (Inr s, d')"
      and "w' = redirect (resolve_return_to cfg (pa_return_to pre)) 302
             (session_set_cookie (se_id s) (se_expires_at s) (cf_cookie_domain cfg) (clear_pre_auth w))"
proof (cases "callback_claims env cfg r")
  case (Inl code)
  with assms callback_claims_Inl [OF Inl] show ?thesis
    by (intro failed [of code]) (auto simp: handle_callback_def Let_def)
next
  case (Inr x)
  obtain pre c where x: "x = (pre, c)" by (cases x)
  have ok: "callback_ok env cfg r pre c" using Inr x callback_claims_Inr by simp
  obtain r1 d1 where up: "upsert_from_oidc (cb_upsert_now env) (cb_upsert_fault env) (claims_user c) d = (r1, d1)"
    by (cases "upsert_from_oidc (cb_upsert_now env) (cb_upsert_fault env) (claims_user c) d")
  show ?thesis
  proof (cases r1)
    case (Inl e)
    with assms Inr x up ok upsert_sessions [OF up] show ?thesis
      by (intro failed [of auth_failed]) (auto simp: handle_callback_def Let_def)
  next
    case (Inr u)
    obtain r2 d2 where cr: "session_create (session_opts_of cfg) (cb_create_now env) (cb_random env)
        (cb_create_fault env) (us_id u) (header_get (rq_header r) ''User-Agent'') (client_ip r) d1 = (r2, d2)"
      by (cases "session_create (session_opts_of cfg) (cb_create_now env) (cb_random env)
        (cb_create_fault env) (us_id u) (header_get (rq_header r) ''User-Agent'') (client_ip r) d1")
    show ?thesis
    proof (cases r2)
      case (Inl e)
      then have "sessions d2 = sessions d" using session_create_cases [OF cr] upsert_sessions [OF up] by auto
      with assms \<open>callback_claims env cfg r = Inr x\<close> x up cr ok Inr Inl show ?thesis
        by (intro failed [of auth_failed]) (auto simp: handle_callback_def Let_def)
    next
      case s: (Inr s)
      with assms \<open>callback_claims env cfg r = Inr x\<close> x up cr Inr show ?thesis
        by (intro signed_in [OF ok, of u d1 s]) (auto simp: handle_callback_def Let_def)
    qed
  qed
qed

section \<open>Properties\<close>

text \<open>
  C7. A sign-in creates a session only for a verified member of the workspace.  If the callback
  adds a session, then the browser presented the pre-auth cookie whose state is in the query, the
  code was exchanged for a token the verifier accepts, whose nonce is the cookie's and whose team
  is the configured one; exactly one row is added, for the user of that token, whose roles the
  sign-in does not change; the browser gets this session and goes to a resolved destination.
\<close>

theorem callback_verified:
  assumes "handle_callback env cfg r w d = (w', d')" and "sessions d' \<noteq> sessions d"
  shows "\<exists>pre c u row.
           callback_ok env cfg r pre c
           \<and> sessions d' = sessions d @ [row]
           \<and> user_of_slack d' (oc_slack_user_id (claims_user c)) = Some u \<and> sr_user_id row = ur_id u
           \<and> ur_roles u = (case user_of_slack d (oc_slack_user_id (claims_user c)) of
                             Some old \<Rightarrow> ur_roles old | None \<Rightarrow> [])
           \<and> rs_location w' = Some (resolve_return_to cfg (pa_return_to pre))
           \<and> map ck_value (filter (\<lambda>ck. ck_name ck = cookie_name) (rs_cookies w'))
               = map ck_value (filter (\<lambda>ck. ck_name ck = cookie_name) (rs_cookies w)) @ [sr_id row]"
  using assms(1)
proof (cases rule: handle_callback_cases)
  case (failed code)
  with assms(2) show ?thesis by simp
next
  case (signed_in pre c u d1 s)
  from user_of_slack_upsert [OF signed_in(2)] create_users [OF signed_in(3)] obtain ur where
    ur: "user_of_slack d' (oc_slack_user_id (claims_user c)) = Some ur" "ur_id ur = us_id u"
      "ur_roles ur = (case user_of_slack d (oc_slack_user_id (claims_user c)) of Some old \<Rightarrow> ur_roles old | None \<Rightarrow> [])"
    by (auto simp: user_of_slack_def)
  from session_create_cases [OF signed_in(3)] upsert_sessions [OF signed_in(2)] obtain row where
    row: "sessions d' = sessions d @ [row]" "sr_user_id row = us_id u" "sr_id row = se_id s" by auto
  have names: "pre_auth_cookie_name \<noteq> cookie_name" by (simp add: pre_auth_cookie_name_def cookie_name_def)
  show ?thesis
    using signed_in(1,4) ur row names
    by (intro exI [of _ pre] exI [of _ c] exI [of _ ur] exI [of _ row])
       (simp add: redirect_def session_set_cookie_def clear_pre_auth_def set_cookie_def pre_auth_cookie_def)
qed

definition example_pre :: pre_auth where
  "example_pre = \<lparr>pa_state = ''c3Q'', pa_nonce = ''bm8'', pa_return_to = ''https://wiki.forgeutah.tech/x''\<rparr>"

definition example_token :: string where
  \<open>example_token = ''{"sub":"Uada","email":"ada@new.org","name":"Ada","nonce":"bm8","https://slack.com/team_id":"T01"}''\<close>

definition example_callback_env :: "tx_fault \<Rightarrow> callback_env" where
  "example_callback_env f =
     \<lparr>cb_exchange = (\<lambda>code. if code = ''ok'' then Inr (Some ''tok'') else Inl (Message ''bad code'')),
      cb_verifier = Some (\<lambda>t. if t = ''tok'' then Inr example_token else Inl (Message ''bad token'')),
      cb_upsert_now = seconds 1000, cb_upsert_fault = no_fault, cb_create_now = seconds 1000,
      cb_random = Inr ''abc'', cb_create_fault = f\<rparr>"

definition example_auth_config :: config where
  "example_auth_config =
     \<lparr>cf_listen_addr = '':8080'', cf_base_domain = ''forgeutah.tech'', cf_auth_host = ''auth.forgeutah.tech'',
      cf_cookie_domain = ''.forgeutah.tech'', cf_slack_client_id = ''id'', cf_slack_client_secret = ''sec'',
      cf_slack_team_id = ''T01'', cf_db_path = ''/data/forge.db'', cf_upstream_map = [],
      cf_session_lifetime = seconds 3600, cf_session_idle_timeout = seconds 900,
      cf_proxy_secret = ''0123456789abcdef0123456789abcdef'', cf_default_landing_url = [], cf_ssh_upstreams = [],
      cf_ssh_host_key_path = [], cf_ssh_ca_key_path = [], cf_ssh_known_hosts_path = [],
      cf_ssh_listen_addr = [], cf_log_level = ''info''\<rparr>"

definition callback_request :: "string \<Rightarrow> string \<Rightarrow> request" where
  "callback_request cookie query =
     \<lparr>rq_method = ''GET'', rq_host = ''auth.forgeutah.tech'',
      rq_url = empty_url\<lparr>u_path := ''/auth/callback'', u_raw_query := query\<rparr>,
      rq_header = [(''Cookie'', [''__Host-forge_pre_auth='' @ cookie])], rq_trailer = [],
      rq_remote_addr = ''10.0.0.1:5000'', rq_body = []\<rparr>"

definition example_cookie :: string where
  "example_cookie =
     ''eyJzdGF0ZSI6ImMzUSIsIm5vbmNlIjoiYm04IiwicmV0dXJuX3RvIjoiaHR0cHM6Ly93aWtpLmZvcmdldXRhaC50ZWNoL3gifQ''"

definition example_callback :: request where
  "example_callback = callback_request example_cookie ''code=ok&state=c3Q''"

definition example_claims :: id_claims where
  "example_claims =
     \<lparr>ic_subject = ''Uada'', ic_email = ''ada@new.org'', ic_name = ''Ada'', ic_picture = [], ic_nonce = ''bm8'',
      ic_slack_team_id = ''T01'', ic_slack_user_id = []\<rparr>"

lemma example_token_claims: "parse_claims example_token = Inr example_claims"
  by code_simp

lemma example_cookie_read: "read_pre_auth (rq_header (callback_request example_cookie q)) = Inr example_pre"
proof -
  have "rq_header (callback_request example_cookie q) = [(''Cookie'', [''__Host-forge_pre_auth='' @ example_cookie])]"
    by (simp add: callback_request_def)
  moreover have "read_pre_auth [(''Cookie'', [''__Host-forge_pre_auth='' @ example_cookie])] = Inr example_pre"
    by code_simp
  ultimately show ?thesis by simp
qed

lemma example_callback_claims:
  "callback_claims (example_callback_env f) example_auth_config example_callback = Inr (example_pre, example_claims)"
proof -
  have "query_get (u_raw_query (rq_url example_callback)) ''state'' = pa_state example_pre"
    and "query_get (u_raw_query (rq_url example_callback)) ''code'' = ''ok''"
    and "ic_nonce example_claims = pa_nonce example_pre" by code_simp+
  moreover have "ic_slack_team_id example_claims = cf_slack_team_id example_auth_config"
    by (simp add: example_claims_def example_auth_config_def)
  moreover have "read_pre_auth (rq_header example_callback) = Inr example_pre"
    by (simp only: example_callback_def example_cookie_read)
  ultimately have "callback_ok (example_callback_env f) example_auth_config example_callback example_pre example_claims"
    by (simp add: callback_ok_def example_callback_env_def example_token_claims)
  then show ?thesis by (simp add: callback_claims_Inr)
qed

lemma callback_verified_witness:
  "\<exists>c (u :: user_row) row. sessions (snd (handle_callback (example_callback_env no_fault) example_auth_config example_callback
                        new_response example_db)) = [row]
     \<and> callback_ok (example_callback_env no_fault) example_auth_config example_callback example_pre c
     \<and> sr_user_id row = ur_id u \<and> ur_roles u = ''admin,dev''"
proof -
  let ?r = "handle_callback (example_callback_env no_fault) example_auth_config example_callback new_response example_db"
  have e: "sessions (snd ?r) \<noteq> sessions example_db"
    unfolding handle_callback_def example_callback_claims by code_simp
  from callback_verified [OF prod.collapse [symmetric] e] obtain pre' c row and u :: user_row where
    ok: "callback_ok (example_callback_env no_fault) example_auth_config example_callback pre' c"
    and row: "sessions (snd ?r) = [row]" "sr_user_id row = ur_id u"
    and u: "ur_roles u = (case user_of_slack example_db (oc_slack_user_id (claims_user c)) of
                             Some old \<Rightarrow> ur_roles old | None \<Rightarrow> [])"
    unfolding example_db_sessions append_Nil by blast
  from ok have pre: "pre' = example_pre" and c: "c = example_claims"
    by (simp_all add: example_callback_claims flip: callback_claims_Inr)
  from c have c': "oc_slack_user_id (claims_user c) = ''Uada''" by (simp add: claims_user_def example_claims_def)
  have "map_option ur_roles (user_of_slack example_db ''Uada'') = Some ''admin,dev''" by code_simp
  with c' u have "ur_roles u = ''admin,dev''" by auto
  then show ?thesis using ok row pre by blast
qed

text \<open>
  C22. Every other outcome fails closed: if the callback adds no session, the browser is sent to
  the error page, gets no session cookie, loses its pre-auth cookie, and the database is as it
  was unless the caller had passed every check.
\<close>

theorem callback_fails_closed:
  assumes "handle_callback env cfg r w d = (w', d')" and "sessions d' = sessions d"
  shows "rs_location w' \<in> {Some ''/?error=auth_failed'', Some ''/?error=not_in_workspace''} \<and> rs_status w' = 302
         \<and> rs_cookies w' = rs_cookies w @ [pre_auth_cookie [] (- 1)]
         \<and> (d' = d \<or> (\<exists>pre c. callback_ok env cfg r pre c))"
  using assms(1)
proof (cases rule: handle_callback_cases)
  case (failed code)
  then show ?thesis
    by (auto simp: redirect_def error_url_def auth_failed_def not_in_workspace_def clear_pre_auth_def set_cookie_def)
next
  case (signed_in pre c u d1 s)
  with session_create_cases [OF signed_in(3)] upsert_sessions [OF signed_in(2)] assms(2) show ?thesis by auto
qed

lemma callback_fails_closed_witness:
  "let (w', d') = handle_callback (example_callback_env no_fault) example_auth_config
                    (callback_request example_cookie ''code=ok&state=forged'')
                    new_response example_db
   in rs_status w' = 302 \<and> d' = example_db"
proof -
  let ?q = "callback_request example_cookie ''code=ok&state=forged''"
  let ?e = "example_callback_env no_fault"
  let ?r = "handle_callback ?e example_auth_config ?q new_response example_db"
  have "query_get (u_raw_query (rq_url ?q)) ''state'' \<noteq> pa_state example_pre" by code_simp
  then have bad: "callback_claims ?e example_auth_config ?q = Inl auth_failed"
    unfolding callback_claims_def example_cookie_read by simp
  then have none: "\<not> callback_ok ?e example_auth_config ?q pre c" for pre c
    by (simp flip: callback_claims_Inr)
  have "sessions (snd ?r) = sessions example_db" using bad by (simp add: handle_callback_def Let_def)
  from callback_fails_closed [OF prod.collapse [symmetric] this] none show ?thesis
    by (auto simp: split_beta)
qed

text \<open>
  The documentation says that no partial state ever leaves the callback; a sign-in whose session
  cannot be stored leaves the updated user behind.
\<close>

definition disk_full :: tx_fault where
  "disk_full = no_fault\<lparr>ft_commit := Some (Message ''disk full'')\<rparr>"

lemma callback_leaves_user:
  "let (w', d') = handle_callback (example_callback_env disk_full) example_auth_config example_callback
                    new_response example_db
   in rs_location w' = Some ''/?error=auth_failed'' \<and> map ur_email (users d') \<noteq> map ur_email (users example_db)"
  unfolding handle_callback_def example_callback_claims by code_simp

text \<open>
  C21. The sign-in round trip ends where it began.  A user asks for a page of the base domain; the
  login handler sets the pre-auth cookie and sends state and nonce to Slack; the callback comes
  back with this cookie, the state and a code, Slack vouches for a member of the team with that
  nonce, and the stores work.  Then the browser is sent to the very page, with a session that the
  store serves until its expiry as the session of that user.
\<close>

theorem sign_in_completes:
  assumes page: "page = ''https://'' @ name @ p @ qs" "plain_domain name" "in_domain (cf_base_domain cfg) name"
      "norm_base (cf_base_domain cfg) \<noteq> []" "\<not> label_xn (to_lower name)" "plain_path p" "plain_query qs"
    and login: "query_get (u_raw_query (rq_url r1)) ''return_to'' = page"
      "handle_login auth_code_url (Inr a) (Inr b) cfg r1 w = w1" "a \<noteq> []" "b \<noteq> []"
    and returned: "request_cookie (rq_header r2) pre_auth_cookie_name = Some (ck_value (last (rs_cookies w1)))"
      "query_get (u_raw_query (rq_url r2)) ''state'' = b64_encode a"
      "query_get (u_raw_query (rq_url r2)) ''code'' = code" "code \<noteq> []"
    and slack: "cb_verifier env = Some verify" "cb_exchange env code = Inr (Some raw)" "raw \<noteq> []"
      "verify raw = Inr tok" "parse_claims tok = Inr c" "ic_nonce c = b64_encode b"
      "ic_slack_team_id c = cf_slack_team_id cfg"
    and stores: "upsert_from_oidc (cb_upsert_now env) (cb_upsert_fault env) (claims_user c) d = (Inr u, d1)"
      "session_create (session_opts_of cfg) (cb_create_now env) (cb_random env) (cb_create_fault env) (us_id u)
         (header_get (rq_header r2) ''User-Agent'') (client_ip r2) d1 = (Inr s, d2)"
  shows "rs_location w1 = Some (auth_code_url (b64_encode a) (b64_encode b) (cf_slack_team_id cfg))
         \<and> (\<exists>w2. handle_callback env cfg r2 new_response d = (w2, d2) \<and> rs_location w2 = Some page
              \<and> ck_value (last (rs_cookies w2)) = se_id s)
         \<and> (\<forall>t. t < from_unix (unix (se_expires_at s)) \<longrightarrow>
              (\<exists>x. session_get (session_opts_of cfg) t None (se_id s) d2 = Inr x \<and> se_user_id x = us_id u))"
proof -
  let ?p = "\<lparr>pa_state = b64_encode a, pa_nonce = b64_encode b, pa_return_to = page\<rparr>"
  have dest: "resolve_return_to cfg page = page"
    using validate_plain [OF page(2-7)] by (simp add: resolve_return_to_def page(1))
  have w1: "w1 = redirect (auth_code_url (b64_encode a) (b64_encode b) (cf_slack_team_id cfg)) 302 (set_pre_auth ?p w)"
    using login(2) by (simp add: handle_login_def login(1) dest new_pre_auth_def random_token_def random_id_def)
  have "is_ascii page" unfolding page(1) using page by (intro plain_url_ascii)
  moreover have "ck_value (last (rs_cookies w1)) = b64_encode (marshal_pre_auth ?p)"
    by (simp add: w1 redirect_def set_pre_auth_def set_cookie_def pre_auth_cookie_def)
  ultimately have "read_pre_auth (rq_header r2) = Inr ?p"
    using returned(1) login(3,4) by (intro read_pre_auth_set) (simp_all add: b64_ascii b64_nonempty)
  then have "callback_ok env cfg r2 ?p c" using returned slack by (simp add: callback_ok_def)
  then have cb: "handle_callback env cfg r2 new_response d =
      (redirect page 302 (session_set_cookie (se_id s) (se_expires_at s) (cf_cookie_domain cfg)
         (clear_pre_auth new_response)), d2)"
    using stores dest by (simp add: handle_callback_def Let_def flip: callback_claims_Inr)
  from session_create_cases [OF stores(2)] have
    "session_abs d2 (se_id s) = Some \<lparr>sr_id = se_id s, sr_user_id = us_id u, sr_created_at = unix (cb_create_now env),
        sr_last_seen_at = unix (cb_create_now env), sr_expires_at = unix (se_expires_at s),
        sr_user_agent = Some (header_get (rq_header r2) ''User-Agent''), sr_ip = Some (client_ip r2)\<rparr>"
    by (auto simp: session_abs_def index_by_append)
  then show ?thesis
    by (simp add: cb w1 redirect_def session_set_cookie_def set_cookie_def session_get_abs)
qed

definition example_login :: request where
  "example_login =
     \<lparr>rq_method = ''GET'', rq_host = ''auth.forgeutah.tech'',
      rq_url = empty_url\<lparr>u_path := ''/auth/login'',
                          u_raw_query := ''return_to=https%3A%2F%2Fwiki.forgeutah.tech%2Fx%3Fa%3D1''\<rparr>,
      rq_header = [], rq_trailer = [], rq_remote_addr = ''10.0.0.1:5000'', rq_body = []\<rparr>"

definition example_auth_url :: "string \<Rightarrow> string \<Rightarrow> string \<Rightarrow> string" where
  "example_auth_url state nonce team = ''https://slack.com/authorize?state='' @ state"

definition example_env_nonce :: callback_env where
  \<open>example_env_nonce = (example_callback_env no_fault)\<lparr>cb_verifier := Some (\<lambda>t.
     Inr ''{"sub":"Uada","nonce":"eHl6","https://slack.com/team_id":"T01"}'')\<rparr>\<close>

lemma sign_in_completes_witness:
  "\<exists>w2 d2. handle_callback example_env_nonce example_auth_config
      (callback_request (ck_value (last (rs_cookies (handle_login example_auth_url (Inr ''abc'') (Inr ''xyz'')
          example_auth_config example_login new_response)))) ''code=ok&state=YWJj'') new_response example_db = (w2, d2)
     \<and> rs_location w2 = Some ''https://wiki.forgeutah.tech/x?a=1''"
proof -
  let ?cfg = example_auth_config and ?env = example_env_nonce and ?d = example_db
  let ?w1 = "handle_login example_auth_url (Inr ''abc'') (Inr ''xyz'') ?cfg example_login new_response"
  let ?r2 = "callback_request (ck_value (last (rs_cookies ?w1))) ''code=ok&state=YWJj''"
  have page: "''https://wiki.forgeutah.tech/x?a=1'' = ''https://'' @ ''wiki.forgeutah.tech'' @ ''/x'' @ ''?a=1''"
    "plain_domain ''wiki.forgeutah.tech''" "in_domain (cf_base_domain ?cfg) ''wiki.forgeutah.tech''"
    "norm_base (cf_base_domain ?cfg) \<noteq> []" "\<not> label_xn (to_lower ''wiki.forgeutah.tech'')"
    "plain_path ''/x''" "plain_query ''?a=1''" by code_simp+
  have login: "query_get (u_raw_query (rq_url example_login)) ''return_to'' = ''https://wiki.forgeutah.tech/x?a=1''"
    by code_simp
  have cookie: "ck_value (last (rs_cookies ?w1)) = ''eyJzdGF0ZSI6IllXSmoiLCJub25jZSI6ImVIbDYiLCJyZXR1cm5fdG8iOiJodHRwczovL3dpa2kuZm9yZ2V1dGFoLnRlY2gveD9hPTEifQ''"
    (is "_ = ?v") by code_simp
  have returned: "request_cookie (rq_header ?r2) pre_auth_cookie_name = Some (ck_value (last (rs_cookies ?w1)))"
    "query_get (u_raw_query (rq_url ?r2)) ''state'' = b64_encode ''abc''"
    "query_get (u_raw_query (rq_url ?r2)) ''code'' = ''ok''" unfolding cookie by code_simp+
  obtain verify where v: "cb_verifier ?env = Some verify" "cb_exchange ?env ''ok'' = Inr (Some ''tok'')"
    by (simp add: example_env_nonce_def example_callback_env_def)
  let ?claims = "parse_claims (case verify ''tok'' of Inr t \<Rightarrow> t | Inl _ \<Rightarrow> [])"
  obtain tok where tok: "verify ''tok'' = Inr tok"
    using v by (simp add: example_env_nonce_def) metis
  have "(case parse_claims (case (case cb_verifier ?env of Some f \<Rightarrow> f ''tok'') of Inr t \<Rightarrow> t) of
           Inr c \<Rightarrow> ic_nonce c = b64_encode ''xyz'' \<and> ic_slack_team_id c = cf_slack_team_id ?cfg
             \<and> \<not> isl (fst (upsert_from_oidc (cb_upsert_now ?env) (cb_upsert_fault ?env) (claims_user c) ?d))
             \<and> (case upsert_from_oidc (cb_upsert_now ?env) (cb_upsert_fault ?env) (claims_user c) ?d of
                  (Inr u, d1) \<Rightarrow> \<not> isl (fst (session_create (session_opts_of ?cfg) (cb_create_now ?env)
                       (cb_random ?env) (cb_create_fault ?env) (us_id u)
                       (header_get (rq_header ?r2) ''User-Agent'') (client_ip ?r2) d1))
                | _ \<Rightarrow> False)
         | Inl _ \<Rightarrow> False)" by code_simp
  then obtain c u d1 s d2 where c: "parse_claims tok = Inr c" "ic_nonce c = b64_encode ''xyz''"
      "ic_slack_team_id c = cf_slack_team_id ?cfg"
    and st: "upsert_from_oidc (cb_upsert_now ?env) (cb_upsert_fault ?env) (claims_user c) ?d = (Inr u, d1)"
      "session_create (session_opts_of ?cfg) (cb_create_now ?env) (cb_random ?env) (cb_create_fault ?env) (us_id u)
         (header_get (rq_header ?r2) ''User-Agent'') (client_ip ?r2) d1 = (Inr s, d2)"
    using v(1) tok by (auto split: sum.splits prod.splits) (metis sum.collapse(2) prod.collapse)+
  from sign_in_completes [OF page login refl _ _ returned _ v _ tok c st] show ?thesis by auto
qed

text \<open>
  C23. Logout ends the session, and only a page of the auth host can cause it: with the right
  origin the browser's session id is refused from then on by the store, at any time, the other
  sessions are as before and the cookie is cleared; with any other origin nothing changes.
\<close>

theorem logout_ends_session:
  assumes "session_read r = Some sid"
  shows "if header_get (rq_header r) ''Origin'' = ''https://'' @ cf_auth_host cfg
         then (\<exists>w' d'. handle_logout no_fault cfg r w d = (w', d')
                 \<and> (\<forall>opts t. session_get opts t None sid d' = Inl (Sentinel SessionNotFound))
                 \<and> (\<forall>x. x \<noteq> sid \<longrightarrow> session_abs d' x = session_abs d x)
                 \<and> users d' = users d
                 \<and> map ck_max_age (filter (\<lambda>ck. ck_name ck = cookie_name) (rs_cookies w')) =
                     map ck_max_age (filter (\<lambda>ck. ck_name ck = cookie_name) (rs_cookies w)) @ [-1])
         else snd (handle_logout no_fault cfg r w d) = d \<and> rs_status (fst (handle_logout no_fault cfg r w d)) = 403"
proof (cases "header_get (rq_header r) ''Origin'' = ''https://'' @ cf_auth_host cfg")
  case True
  obtain res d' where del: "session_delete no_fault sid d = (res, d')" by (cases "session_delete no_fault sid d")
  have "d' = d\<lparr>sessions := filter (\<lambda>r. sr_id r \<noteq> sid) (sessions d)\<rparr>"
    using del by (auto simp: session_delete_def stmt_def no_fault_def write_tx_eq delete_sessions_def)
  then have "session_abs d' = (session_abs d)(sid := None)" "users d' = users d"
    by (simp_all add: session_abs_def index_by_remove)
  with True del show ?thesis
    using assms
    by (simp add: handle_logout_def Let_def session_get_abs redirect_def session_clear_cookie_def set_cookie_def)
next
  case False
  then show ?thesis by (simp add: handle_logout_def Let_def http_error_def set_header_def)
qed

lemma logout_ends_session_witness:
  "session_read (callback_request [] []\<lparr>rq_header := [(''Cookie'', [''forge_session=YWJj'']),
      (''Origin'', [''https://auth.forgeutah.tech''])]\<rparr>) = Some ''YWJj''
   \<and> (let r = callback_request [] []\<lparr>rq_header := [(''Cookie'', [''forge_session=YWJj'']),
              (''Origin'', [''https://auth.forgeutah.tech''])]\<rparr>;
          d = session_run example_opts example_ops example_db
      in \<not> isl (session_get example_opts (seconds 1200) None ''YWJj'' d)
         \<and> session_get example_opts (seconds 1200) None ''YWJj'' (snd (handle_logout no_fault example_auth_config r new_response d))
             = Inl (Sentinel SessionNotFound))"
proof -
  let ?r = "callback_request [] []\<lparr>rq_header := [(''Cookie'', [''forge_session=YWJj'']),
              (''Origin'', [''https://auth.forgeutah.tech''])]\<rparr>"
  let ?d = "session_run example_opts example_ops example_db"
  have r: "session_read ?r = Some ''YWJj''" by code_simp
  have o: "header_get (rq_header ?r) ''Origin'' = ''https://'' @ cf_auth_host example_auth_config" by code_simp
  have "\<not> isl (session_get example_opts (seconds 1200) None ''YWJj'' ?d)" by code_simp
  with r logout_ends_session [OF r, of example_auth_config new_response ?d] o show ?thesis
    by (auto simp: Let_def)
qed

end
