(* ===== verification/Oidc.thy ===== *)
theory Oidc
  imports Config
begin

text \<open>
  \<open>internal/auth/oidc.go\<close>: the OAuth client configuration and the background loop that publishes the
  ID-token verifier.

  The verifier of the library is represented by what it is built from.  The loop is a function of
  the list of attempts it makes: for each, whether the context is cancelled when it starts, what
  the ping of the key set endpoint returns, and whether the context ends during the wait that
  follows a failure.  A list that runs out is a loop that is still running.
\<close>

definition slack_issuer :: string where
  "slack_issuer = ''https://slack.com''"

definition slack_authorize_url :: string where
  "slack_authorize_url = ''https://slack.com/openid/connect/authorize''"

definition slack_token_url :: string where
  "slack_token_url = ''https://slack.com/api/openid.connect.token''"

definition slack_jwks_url :: string where
  "slack_jwks_url = ''https://slack.com/openid/connect/keys''"

definition jwks_retry_initial :: duration where
  "jwks_retry_initial = seconds 1"

definition jwks_retry_cap :: duration where
  "jwks_retry_cap = seconds 60"

record oauth_config =
  oa_client_id :: string
  oa_client_secret :: string
  oa_auth_url :: string
  oa_token_url :: string
  oa_redirect_url :: string
  oa_scopes :: "string list"

record verifier =
  ve_issuer :: string
  ve_jwks_url :: string
  ve_client_id :: string
  ve_signing_algs :: "string list"

record oidc =
  oi_oauth :: oauth_config
  oi_verifier :: "verifier option"
  oi_ready :: bool
  oi_client_id :: string
  oi_jwks_url :: string

definition new_oidc_with_endpoints :: "config \<Rightarrow> string \<Rightarrow> string \<Rightarrow> string \<Rightarrow> oidc" where
  "new_oidc_with_endpoints cfg auth_url token_url jwks_url =
     \<lparr>oi_oauth = \<lparr>oa_client_id = cf_slack_client_id cfg, oa_client_secret = cf_slack_client_secret cfg,
                  oa_auth_url = auth_url, oa_token_url = token_url,
                  oa_redirect_url = ''https://'' @ cf_auth_host cfg @ ''/auth/callback'',
                  oa_scopes = [''openid'', ''profile'', ''email'']\<rparr>,
      oi_verifier = None, oi_ready = False, oi_client_id = cf_slack_client_id cfg, oi_jwks_url = jwks_url\<rparr>"

definition new_oidc :: "config \<Rightarrow> oidc" where
  "new_oidc cfg = new_oidc_with_endpoints cfg slack_authorize_url slack_token_url slack_jwks_url"

text \<open>\<open>Verifier\<close> is \<open>oi_verifier\<close>; \<open>IsReady\<close> tests it.\<close>

definition oidc_is_ready :: "oidc \<Rightarrow> bool" where
  "oidc_is_ready o' \<longleftrightarrow> oi_verifier o' \<noteq> None"

text \<open>The answer of the ping: an error of the request, or a status.\<close>

definition ping_jwks :: "err + nat \<Rightarrow> err option" where
  "ping_jwks answer =
     (case answer of
        Inl e \<Rightarrow> Some e
      | Inr status \<Rightarrow> if status \<noteq> 200 then Some (Message (''jwks ping: status '' @ itoa (int status))) else None)"

record attempt =
  at_cancelled :: bool
  at_answer :: "err + nat"
  at_wait_cancelled :: bool

definition publish_verifier :: "string \<Rightarrow> oidc \<Rightarrow> oidc" where
  "publish_verifier issuer o' =
     o'\<lparr>oi_verifier := Some \<lparr>ve_issuer = issuer, ve_jwks_url = oi_jwks_url o', ve_client_id = oi_client_id o',
                             ve_signing_algs = [''RS256'']\<rparr>,
        oi_ready := True\<rparr>"

definition next_delay :: "duration \<Rightarrow> duration" where
  "next_delay delay = (let d = delay * 2 in if d > jwks_retry_cap then jwks_retry_cap else d)"

text \<open>The client after the attempts, the waits between them, and whether the loop has returned.\<close>

fun verifier_loop :: "string \<Rightarrow> duration \<Rightarrow> attempt list \<Rightarrow> oidc \<Rightarrow> oidc \<times> duration list \<times> bool" where
  "verifier_loop issuer delay [] o' = (o', [], False)"
| "verifier_loop issuer delay (a # as) o' =
     (if at_cancelled a then (o', [], True)
      else case ping_jwks (at_answer a) of
          None \<Rightarrow> (publish_verifier issuer o', [], True)
        | Some e \<Rightarrow>
            (if at_wait_cancelled a then (o', [], True)
             else (let (o2, ds, ret) = verifier_loop issuer (next_delay delay) as o' in (o2, delay # ds, ret))))"

definition init_verifier :: "string \<Rightarrow> attempt list \<Rightarrow> oidc \<Rightarrow> oidc \<times> duration list \<times> bool" where
  "init_verifier issuer as o' = verifier_loop issuer jwks_retry_initial as o'"

section \<open>The waits\<close>

definition backoff :: "nat \<Rightarrow> duration" where
  "backoff k = min jwks_retry_cap (jwks_retry_initial * 2 ^ k)"

lemma next_delay_backoff: "next_delay (backoff k) = backoff (Suc k)"
  by (auto simp: next_delay_def backoff_def jwks_retry_cap_def jwks_retry_initial_def seconds_def Let_def min_def)

definition failing :: "attempt \<Rightarrow> bool" where
  "failing a \<longleftrightarrow> \<not> at_cancelled a \<and> \<not> at_wait_cancelled a \<and> ping_jwks (at_answer a) \<noteq> None"

lemma verifier_loop_failing:
  "list_all failing as \<Longrightarrow>
     verifier_loop issuer (backoff k) (as @ bs) o' =
       (let (o2, ds, ret) = verifier_loop issuer (backoff (k + length as)) bs o'
        in (o2, map backoff [k..<k + length as] @ ds, ret))"
proof (induction as arbitrary: k)
  case (Cons a as)
  from Cons.prems obtain e where a: "\<not> at_cancelled a" "\<not> at_wait_cancelled a" "ping_jwks (at_answer a) = Some e"
    by (auto simp: failing_def)
  have r: "[k..<Suc (k + length as)] = k # [Suc k..<Suc (k + length as)]" by (simp add: upt_rec)
  show ?case
    using Cons.IH [of "Suc k"] Cons.prems a
    by (simp add: next_delay_backoff r Let_def del: upt_Suc split: prod.splits)
qed (simp add: Let_def split: prod.split)

lemma verifier_loop_unready:
  "\<not> oidc_is_ready o' \<Longrightarrow>
     oidc_is_ready (fst (verifier_loop issuer delay as o')) \<longleftrightarrow>
       (\<exists>n < length as. list_all failing (take n as) \<and> \<not> at_cancelled (as ! n)
          \<and> at_answer (as ! n) = Inr 200)"
proof (induction as arbitrary: delay)
  case (Cons a as)
  have ex: "(\<exists>n < length (a # as). P n) \<longleftrightarrow> P 0 \<or> (\<exists>n < length as. P (Suc n))" for P
    by (metis Suc_less_eq gr0_conv_Suc length_Cons less_Suc_eq_0_disj zero_less_Suc)
  have ok: "ping_jwks (at_answer a) = None \<longleftrightarrow> at_answer a = Inr 200"
    by (auto simp: ping_jwks_def split: sum.splits)
  have pub: "oidc_is_ready (publish_verifier issuer o')" by (simp add: oidc_is_ready_def publish_verifier_def)
  have f: "failing a \<longleftrightarrow> \<not> at_cancelled a \<and> \<not> at_wait_cancelled a \<and> at_answer a \<noteq> Inr 200"
    using ok by (auto simp: failing_def)
  show ?case
    using Cons.IH [OF Cons.prems, of "next_delay delay"] Cons.prems ok pub unfolding ex
    by (cases "ping_jwks (at_answer a)") (auto simp: f Let_def split_beta)
qed simp

section \<open>Properties\<close>

text \<open>
  C24. The verifier heals itself: however many pings fail first, as long as the process is not
  shut down, the first ping answered with status 200 publishes the verifier and ends the loop;
  before that the client is not ready.  The waits double from one second and never exceed a
  minute, so \<open>n\<close> failures delay readiness by at most \<open>n\<close> minutes of waiting.
\<close>

theorem verifier_self_heals:
  assumes "list_all failing outage" and "\<not> at_cancelled good" and "at_answer good = Inr 200"
  shows "\<exists>o2. init_verifier issuer (outage @ good # later) (new_oidc cfg) =
             (o2, map (\<lambda>k. min (seconds 60) (seconds (2 ^ k))) [0..<length outage], True)
           \<and> oi_ready o2
           \<and> oi_verifier o2 = Some \<lparr>ve_issuer = issuer, ve_jwks_url = slack_jwks_url,
                                    ve_client_id = cf_slack_client_id cfg, ve_signing_algs = [''RS256'']\<rparr>
           \<and> \<not> oidc_is_ready (fst (init_verifier issuer outage (new_oidc cfg)))
           \<and> sum_list (fst (snd (init_verifier issuer (outage @ good # later) (new_oidc cfg))))
               \<le> seconds 60 * int (length outage)"
proof -
  have b0: "jwks_retry_initial = backoff 0" by (simp add: backoff_def jwks_retry_cap_def jwks_retry_initial_def seconds_def)
  have bk: "backoff = (\<lambda>k. min (seconds 60) (seconds (2 ^ k)))"
    by (auto simp: backoff_def jwks_retry_cap_def jwks_retry_initial_def seconds_def)
  have ping: "ping_jwks (at_answer good) = None" by (simp add: assms(3) ping_jwks_def)
  have run: "init_verifier issuer (outage @ good # later) (new_oidc cfg) =
      (publish_verifier issuer (new_oidc cfg), map backoff [0..<length outage], True)"
    using verifier_loop_failing [OF assms(1), of issuer 0 "good # later" "new_oidc cfg"] assms(2) ping
    by (simp add: init_verifier_def b0)
  have "sum_list (map backoff [0..<n]) \<le> seconds 60 * int n" for n
  proof (induction n)
    case (Suc n)
    moreover have "backoff n \<le> seconds 60" by (simp add: bk)
    ultimately show ?case by (simp add: algebra_simps)
  qed simp
  moreover have "\<not> oidc_is_ready (fst (init_verifier issuer outage (new_oidc cfg)))"
    using verifier_loop_failing [OF assms(1), of issuer 0 "[]" "new_oidc cfg"]
    by (simp add: init_verifier_def b0 oidc_is_ready_def new_oidc_def new_oidc_with_endpoints_def)
  moreover have "oi_ready (publish_verifier issuer (new_oidc cfg))"
    "oi_verifier (publish_verifier issuer (new_oidc cfg)) =
       Some \<lparr>ve_issuer = issuer, ve_jwks_url = slack_jwks_url, ve_client_id = cf_slack_client_id cfg,
             ve_signing_algs = [''RS256'']\<rparr>"
    by (simp_all add: publish_verifier_def new_oidc_def new_oidc_with_endpoints_def)
  ultimately show ?thesis unfolding run bk fst_conv snd_conv by blast
qed

definition example_outage :: "attempt list" where
  "example_outage = map (\<lambda>s. \<lparr>at_cancelled = False, at_answer = s, at_wait_cancelled = False\<rparr>)
     [Inl (Message ''dial''), Inr 503, Inr 500, Inr 502, Inr 503, Inr 503, Inr 503, Inr 404]"

lemma verifier_self_heals_witness:
  "\<forall>cfg. fst (snd (init_verifier slack_issuer
      (example_outage @ [\<lparr>at_cancelled = False, at_answer = Inr 200, at_wait_cancelled = False\<rparr>])
      (new_oidc cfg))) = map seconds [1, 2, 4, 8, 16, 32, 60, 60]"
proof
  fix cfg
  have "list_all failing example_outage" by code_simp
  from verifier_self_heals [OF this, of "\<lparr>at_cancelled = False, at_answer = Inr 200, at_wait_cancelled = False\<rparr>"
      slack_issuer "[]" cfg]
  have "fst (snd (init_verifier slack_issuer
      (example_outage @ [\<lparr>at_cancelled = False, at_answer = Inr 200, at_wait_cancelled = False\<rparr>])
      (new_oidc cfg))) = map (\<lambda>k. min (seconds 60) (seconds (2 ^ k))) [0..<length example_outage]"
    by auto
  also have "\<dots> = map seconds [1, 2, 4, 8, 16, 32, 60, 60]" by code_simp
  finally show "fst (snd (init_verifier slack_issuer
      (example_outage @ [\<lparr>at_cancelled = False, at_answer = Inr 200, at_wait_cancelled = False\<rparr>])
      (new_oidc cfg))) = map seconds [1, 2, 4, 8, 16, 32, 60, 60]" .
qed

end
