(* ===== verification/EnrollToken.thy ===== *)
theory EnrollToken
  imports GoCodec Prelude
begin

text \<open>
  \<open>internal/sshenroll/token.go\<close>: the in-memory store of single-use enrollment tokens.  The clock reading of an operation and the random bytes of a new
  token are arguments.  The mutex makes every operation atomic, so a history is a list of
  operations.
\<close>

section \<open>Store\<close>

definition default_ttl :: duration where
  "default_ttl = seconds 600"

record enrollment =
  en_fingerprint :: string
  en_key_type :: string
  en_public_key :: string
  en_expires_at :: gotime

type_synonym token_store = "string \<Rightarrow> enrollment option"

definition enroll_random_token :: "string result \<Rightarrow> string result" where
  "enroll_random_token rnd = random_id ''sshenroll: crypto/rand'' rnd"

definition sweep_locked :: "gotime \<Rightarrow> token_store \<Rightarrow> token_store" where
  "sweep_locked now ts = keep_rows (\<lambda>e. now < en_expires_at e) ts"

text \<open>\<open>Mint\<close>: the sweep and the expiry of the new entry read the clock one after the other.\<close>

definition token_mint ::
    "gotime \<Rightarrow> gotime \<Rightarrow> string result \<Rightarrow> string \<Rightarrow> string \<Rightarrow> string \<Rightarrow> token_store \<Rightarrow> string result \<times> token_store" where
  "token_mint sweep_now now rnd fingerprint key_type public_key ts =
     (case enroll_random_token rnd of
        Inl e \<Rightarrow> (Inl e, ts)
      | Inr token \<Rightarrow>
          (Inr token,
           (sweep_locked sweep_now ts)(token \<mapsto>
             \<lparr>en_fingerprint = fingerprint, en_key_type = key_type, en_public_key = public_key,
              en_expires_at = now + default_ttl\<rparr>)))"

definition token_peek :: "gotime \<Rightarrow> string \<Rightarrow> token_store \<Rightarrow> enrollment result" where
  "token_peek now token ts =
     (case ts token of
        None \<Rightarrow> Inl (Sentinel TokenNotFound)
      | Some e \<Rightarrow> if \<not> now < en_expires_at e then Inl (Sentinel TokenExpired) else Inr e)"

definition token_consume :: "gotime \<Rightarrow> string \<Rightarrow> token_store \<Rightarrow> enrollment result \<times> token_store" where
  "token_consume now token ts =
     (case ts token of
        None \<Rightarrow> (Inl (Sentinel TokenNotFound), ts)
      | Some e \<Rightarrow>
          (let ts' = ts(token := None)
           in if \<not> now < en_expires_at e then (Inl (Sentinel TokenExpired), ts') else (Inr e, ts')))"

definition token_sweep :: "gotime \<Rightarrow> token_store \<Rightarrow> token_store" where
  "token_sweep now ts = sweep_locked now ts"

section \<open>The contract of a store of single-use tokens\<close>

text \<open>
  What a client of the store may rely on: \<open>live s\<close> is the map of entries in it, expired ones that
  have not been swept included.
\<close>

locale single_use_tokens =
  fixes consume :: "gotime \<Rightarrow> string \<Rightarrow> 's \<Rightarrow> enrollment result \<times> 's"
    and peek :: "gotime \<Rightarrow> string \<Rightarrow> 's \<Rightarrow> enrollment result"
    and step :: "'op \<Rightarrow> 's \<Rightarrow> 's"
    and entries :: "'s \<Rightarrow> string \<Rightarrow> enrollment option"
    and creates :: "'op \<Rightarrow> string \<Rightarrow> bool"
    and drops :: "'op \<Rightarrow> string \<Rightarrow> gotime \<Rightarrow> bool"
  assumes consume_result: "fst (consume now tok s) =
      (case entries s tok of
         None \<Rightarrow> Inl (Sentinel TokenNotFound)
       | Some e \<Rightarrow> if now < en_expires_at e then Inr e else Inl (Sentinel TokenExpired))"
    and consume_entries: "entries (snd (consume now tok s)) = (entries s)(tok := None)"
    and peek_result: "peek now tok s = fst (consume now tok s)"
    and step_absent: "entries s tok = None \<Longrightarrow> \<not> creates op tok \<Longrightarrow> entries (step op s) tok = None"
    and step_keeps: "entries s tok = Some e \<Longrightarrow> \<not> creates op tok \<Longrightarrow> \<not> drops op tok (en_expires_at e)
      \<Longrightarrow> entries (step op s) tok = Some e"
begin

fun steps :: "'op list \<Rightarrow> 's \<Rightarrow> 's" where
  "steps [] s = s"
| "steps (op # ops) s = steps ops (step op s)"

lemma steps_absent:
  "entries s tok = None \<Longrightarrow> \<forall>op \<in> set ops. \<not> creates op tok \<Longrightarrow> entries (steps ops s) tok = None"
  by (induction ops arbitrary: s) (auto simp: step_absent)

lemma steps_keep:
  "entries s tok = Some e \<Longrightarrow> \<forall>op \<in> set ops. \<not> creates op tok \<and> \<not> drops op tok (en_expires_at e)
     \<Longrightarrow> entries (steps ops s) tok = Some e"
  by (induction ops arbitrary: s) (auto simp: step_keeps)

lemma consumed_is_gone:
  assumes "\<forall>op \<in> set ops. \<not> creates op tok"
  shows "fst (consume t tok (steps ops (snd (consume now tok s)))) = Inl (Sentinel TokenNotFound)"
    and "peek t tok (steps ops (snd (consume now tok s))) = Inl (Sentinel TokenNotFound)"
proof -
  have "entries (snd (consume now tok s)) tok = None" by (simp add: consume_entries)
  then have "entries (steps ops (snd (consume now tok s))) tok = None" by (rule steps_absent [OF _ assms])
  then show "fst (consume t tok (steps ops (snd (consume now tok s)))) = Inl (Sentinel TokenNotFound)"
    and "peek t tok (steps ops (snd (consume now tok s))) = Inl (Sentinel TokenNotFound)"
    by (simp_all add: peek_result consume_result)
qed

lemma kept_is_served:
  assumes "entries s tok = Some e" and "\<forall>op \<in> set ops. \<not> creates op tok \<and> \<not> drops op tok (en_expires_at e)"
  shows "fst (consume t tok (steps ops s)) =
           (if t < en_expires_at e then Inr e else Inl (Sentinel TokenExpired))"
  using steps_keep [OF assms] by (simp add: consume_result)

end

section \<open>The store fulfils it\<close>

datatype token_op =
    TMint gotime gotime "string result" string string string
  | TPeek gotime string
  | TConsume gotime string
  | TSweep gotime

fun token_step :: "token_op \<Rightarrow> token_store \<Rightarrow> token_store" where
  "token_step (TMint st now rnd fp kt pk) ts = snd (token_mint st now rnd fp kt pk ts)"
| "token_step (TPeek now tok) ts = ts"
| "token_step (TConsume now tok) ts = snd (token_consume now tok ts)"
| "token_step (TSweep now) ts = token_sweep now ts"

fun op_creates :: "token_op \<Rightarrow> string \<Rightarrow> bool" where
  "op_creates (TMint st now rnd fp kt pk) tok = (enroll_random_token rnd = Inr tok)"
| "op_creates _ tok = False"

fun op_drops :: "token_op \<Rightarrow> string \<Rightarrow> gotime \<Rightarrow> bool" where
  "op_drops (TMint st now rnd fp kt pk) tok exp = (exp \<le> st)"
| "op_drops (TPeek now t) tok exp = False"
| "op_drops (TConsume now t) tok exp = (t = tok)"
| "op_drops (TSweep now) tok exp = (exp \<le> now)"

interpretation tk: single_use_tokens token_consume token_peek token_step "\<lambda>ts. ts" op_creates op_drops
proof
  show "fst (token_consume now tok s) =
      (case s tok of
         None \<Rightarrow> Inl (Sentinel TokenNotFound)
       | Some e \<Rightarrow> if now < en_expires_at e then Inr e else Inl (Sentinel TokenExpired))" for now tok s
    by (simp add: token_consume_def Let_def split: option.split)
  show "snd (token_consume now tok s) = s(tok := None)" for now tok s
    by (auto simp: token_consume_def Let_def split: option.split)
  show "token_peek now tok s = fst (token_consume now tok s)" for now tok s
    by (simp add: token_consume_def token_peek_def Let_def split: option.split)
  show "token_step op s tok = None" if "s tok = None" "\<not> op_creates op tok" for s tok op
    using that by (cases op) (auto simp: token_mint_def token_consume_def token_sweep_def sweep_locked_def
        keep_rows_def Let_def split: sum.split option.split)
  show "token_step op s tok = Some e"
    if "s tok = Some e" "\<not> op_creates op tok" "\<not> op_drops op tok (en_expires_at e)" for s tok op e
    using that by (cases op) (auto simp: token_mint_def token_consume_def token_sweep_def sweep_locked_def
        keep_rows_def Let_def split: sum.split option.split)
qed

lemma token_mint_Inr:
  "token_mint st now rnd fp kt pk ts = (Inr tok, ts') \<Longrightarrow>
     enroll_random_token rnd = Inr tok
     \<and> ts' tok = Some \<lparr>en_fingerprint = fp, en_key_type = kt, en_public_key = pk, en_expires_at = now + default_ttl\<rparr>"
  by (auto simp: token_mint_def split: sum.splits)

section \<open>Properties\<close>

text \<open>
  C25. An enrollment token works once: after an attempt to consume it, whether it succeeded, the
  token had expired or was unknown, it is refused as unknown for ever, by consuming and by
  peeking, over any history of operations in which the same token is not drawn again.
\<close>

theorem enroll_token_single_use:
  assumes "\<forall>op \<in> set ops. \<not> op_creates op tok" and "token_consume now tok ts = (r, ts')"
  shows "fst (token_consume t tok (fold token_step ops ts')) = Inl (Sentinel TokenNotFound)
         \<and> token_peek t tok (fold token_step ops ts') = Inl (Sentinel TokenNotFound)"
proof -
  have "fold token_step ops x = tk.steps ops x" for x by (induction ops arbitrary: x) simp_all
  with tk.consumed_is_gone [OF assms(1), of t now ts] assms(2) show ?thesis by simp
qed

lemma enroll_token_single_use_witness:
  "let ts = snd (token_mint 0 0 (Inr ''abc'') ''SHA256:k'' ''ssh-ed25519'' ''blob'' (\<lambda>_. None));
       (r, ts') = token_consume (seconds 5) ''YWJj'' ts
   in \<not> isl r \<and> fst (token_consume (seconds 9) ''YWJj''
        (fold token_step [TMint (seconds 6) (seconds 6) (Inr ''xyz'') ''f'' ''t'' ''p'', TSweep (seconds 7)] ts'))
        = Inl (Sentinel TokenNotFound)"
proof -
  let ?ts = "snd (token_mint 0 0 (Inr ''abc'') ''SHA256:k'' ''ssh-ed25519'' ''blob'' (\<lambda>_. None))"
  let ?ops = "[TMint (seconds 6) (seconds 6) (Inr ''xyz'') ''f'' ''t'' ''p'', TSweep (seconds 7)]"
  have "list_all (\<lambda>op. \<not> op_creates op ''YWJj'') ?ops" by code_simp
  then have "\<forall>op \<in> set ?ops. \<not> op_creates op ''YWJj''" by (simp only: list_all_iff)
  moreover have "\<not> isl (fst (token_consume (seconds 5) ''YWJj'' ?ts))" by code_simp
  ultimately show ?thesis using enroll_token_single_use [OF _ prod.collapse [symmetric]]
    by (simp only: Let_def split_beta simp_thms)
qed

text \<open>
  A token stands for the key it was minted for: until it is consumed, whatever else happens to
  the store, consuming it yields exactly the fingerprint, key type and key of its mint, as long
  as fewer than ten minutes have passed, and is refused as expired afterwards.
\<close>

theorem enroll_token_roundtrip:
  assumes "token_mint st now rnd fp kt pk ts = (Inr tok, ts')"
    and "\<forall>op \<in> set ops. \<not> op_creates op tok \<and> \<not> op_drops op tok (now + default_ttl)"
  shows "fst (token_consume t tok (fold token_step ops ts')) =
           (if t < now + seconds 600
            then Inr \<lparr>en_fingerprint = fp, en_key_type = kt, en_public_key = pk, en_expires_at = now + seconds 600\<rparr>
            else Inl (Sentinel TokenExpired))"
proof -
  have "fold token_step ops x = tk.steps ops x" for x by (induction ops arbitrary: x) simp_all
  with tk.kept_is_served [of ts' tok, OF conjunct2 [OF token_mint_Inr [OF assms(1)]], of ops t] assms(2)
  show ?thesis by (simp add: default_ttl_def)
qed

lemma enroll_token_roundtrip_witness:
  "fst (token_consume (seconds 599) ''YWJj''
     (fold token_step [TPeek (seconds 1) ''YWJj'', TMint (seconds 2) (seconds 2) (Inr ''xyz'') ''f'' ''t'' ''p'',
        TConsume (seconds 3) ''eHl6'', TSweep (seconds 590)]
        (snd (token_mint 0 0 (Inr ''abc'') ''SHA256:k'' ''ssh-ed25519'' ''blob'' (\<lambda>_. None)))))
   = Inr \<lparr>en_fingerprint = ''SHA256:k'', en_key_type = ''ssh-ed25519'', en_public_key = ''blob'',
          en_expires_at = seconds 600\<rparr>"
proof -
  let ?m = "token_mint 0 0 (Inr ''abc'') ''SHA256:k'' ''ssh-ed25519'' ''blob'' (\<lambda>_. None)"
  let ?ops = "[TPeek (seconds 1) ''YWJj'', TMint (seconds 2) (seconds 2) (Inr ''xyz'') ''f'' ''t'' ''p'',
        TConsume (seconds 3) ''eHl6'', TSweep (seconds 590)]"
  have "fst ?m = Inr ''YWJj''" by code_simp
  then have m: "?m = (Inr ''YWJj'', snd ?m)" by (metis prod.collapse)
  have "list_all (\<lambda>op. \<not> op_creates op ''YWJj'' \<and> \<not> op_drops op ''YWJj'' (0 + default_ttl)) ?ops" by code_simp
  then have "\<forall>op \<in> set ?ops. \<not> op_creates op ''YWJj'' \<and> \<not> op_drops op ''YWJj'' (0 + default_ttl)"
    by (simp only: list_all_iff)
  from enroll_token_roundtrip [OF m this, of "seconds 599"] show ?thesis by (simp add: seconds_def)
qed

end
