(* ===== verification/Enroll.thy ===== *)
theory Enroll
  imports EnrollToken SshKeyStore ProxyHandler ReturnTo
begin

text \<open>
  \<open>internal/sshenroll/handlers.go\<close>: the two pages that bind an offered SSH key to the signed-in
  user.

  The handlers work over three interfaces (\<open>SessionLookup\<close>, \<open>UserLookup\<close>, \<open>KeyStore\<close>), here the
  functions they are given; the locale states what they rely on, and it is interpreted on the
  stores of the database model.  The value of the path parameter is an argument.
\<close>

section \<open>Pages\<close>

definition em_dash :: string where
  "em_dash = [CHR 0xE2, CHR 0x80, CHR 0x94]"

definition body_style :: string where
  "body_style = ''body { font-family: system-ui, sans-serif; max-width: 36rem; margin: 4rem auto; padding: 0 1rem; color: #1a1a1a; }''"

definition code_style :: string where
  "code_style = ''code { background: #f3f3f3; padding: 0.1em 0.3em; border-radius: 3px; word-break: break-all; }''"

definition page_head :: "string \<Rightarrow> string list" where
  \<open>page_head title =
     [''<!doctype html>'', ''<html lang="en">'', ''<head>'', ''<meta charset="utf-8">'',
      ''<title>'' @ title @ '' '' @ em_dash @ '' Forge Utah</title>'', ''<style>'', body_style]\<close>

definition enroll_start_page :: "string \<Rightarrow> string \<Rightarrow> string" where
  \<open>enroll_start_page fingerprint login = lines (page_head ''Register SSH key'' @
     [code_style,
      ''.btn { display: inline-block; background: #4a154b; color: #fff; padding: 0.5em 1em; border-radius: 4px; text-decoration: none; }'',
      ''.btn:hover { background: #611f64; }'', ''</style>'', ''</head>'', ''<body>'',
      ''<h1>Register your SSH key</h1>'',
      ''<p>You'' @ [CHR 0x27] @ ''re about to register this public key fingerprint to your Forge Utah Slack identity:</p>'',
      ''<p><code>'' @ fingerprint @ ''</code></p>'',
      ''<p>Verify the fingerprint matches the output of <code>ssh-keygen -lf ~/.ssh/id_ed25519.pub</code> on your laptop, then sign in:</p>'',
      ''<p><a class="btn" href="'' @ login @ ''">Sign in with Slack</a></p>'',
      ''<p>After sign-in, the key will be bound to your account and you can retry the SSH command.</p>'',
      ''</body>'', ''</html>'', []])\<close>

definition enroll_invalid_page :: string where
  \<open>enroll_invalid_page = lines (page_head ''Invalid enrollment link'' @
     [''code { background: #f3f3f3; padding: 0.1em 0.3em; border-radius: 3px; }'', ''</style>'', ''</head>'', ''<body>'',
      ''<h1>Invalid enrollment link</h1>'',
      ''<p>This enrollment URL is no longer valid. It may have expired, already been used, or never existed.</p>'',
      ''<p>Re-run your <code>ssh</code> command to get a fresh URL.</p>'',
      ''</body>'', ''</html>'', []])\<close>

definition enroll_key_taken_page :: string where
  \<open>enroll_key_taken_page = lines (page_head ''Key already registered'' @
     [''</style>'', ''</head>'', ''<body>'', ''<h1>Key already registered</h1>'',
      ''<p>This SSH public key is registered to another Forge Utah user. If you didn'' @ [CHR 0x27]
        @ ''t expect this, contact an administrator.</p>'',
      ''</body>'', ''</html>'', []])\<close>

definition enroll_success_page :: "string \<Rightarrow> string" where
  \<open>enroll_success_page fingerprint = lines (page_head ''Key registered'' @
     [code_style, ''</style>'', ''</head>'', ''<body>'', ''<h1>Key registered</h1>'',
      ''<p>This fingerprint is now bound to your account:</p>'', ''<p><code>'' @ fingerprint @ ''</code></p>'',
      ''<p>Retry your SSH command '' @ em_dash @ '' subsequent connections will authenticate automatically.</p>'',
      ''</body>'', ''</html>'', []])\<close>

definition html_answer :: "nat \<Rightarrow> string \<Rightarrow> response \<Rightarrow> response" where
  "html_answer code body w =
     write_body body (write_status code (set_header ''Content-Type'' ''text/html; charset=utf-8'' w))"

definition write_invalid_link :: "response \<Rightarrow> response" where
  "write_invalid_link w = html_answer 404 enroll_invalid_page w"

definition write_key_taken :: "response \<Rightarrow> response" where
  "write_key_taken w = html_answer 409 enroll_key_taken_page w"

definition write_success :: "string \<Rightarrow> response \<Rightarrow> response" where
  "write_success fingerprint w = html_answer 200 (enroll_success_page (html_escape fingerprint)) w"

definition short_user_agent :: "string \<Rightarrow> string" where
  "short_user_agent ua0 =
     (let ua = trim_space ua0
      in if ua = [] then ''unknown'' else if 64 < length ua then take 64 ua else ua)"

section \<open>Handlers\<close>

definition complete_url :: "string \<Rightarrow> string \<Rightarrow> string" where
  "complete_url auth_host token = ''https://'' @ auth_host @ ''/ssh/enroll/'' @ path_escape token @ ''/complete''"

definition enroll_url :: "string \<Rightarrow> string \<Rightarrow> string" where
  "enroll_url auth_host token = ''https://'' @ auth_host @ ''/ssh/enroll/'' @ path_escape token"

definition enroll_headers :: "response \<Rightarrow> response" where
  "enroll_headers w = set_header ''X-Content-Type-Options'' ''nosniff'' (set_header ''Cache-Control'' ''no-store'' w)"

definition enroll_login_url :: "string \<Rightarrow> string \<Rightarrow> string" where
  "enroll_login_url auth_host token = ''/auth/login?return_to='' @ query_escape (complete_url auth_host token)"

definition handle_start :: "gotime \<Rightarrow> string \<Rightarrow> string \<Rightarrow> response \<Rightarrow> token_store \<Rightarrow> response" where
  "handle_start now auth_host token w ts =
     (let w1 = enroll_headers w
      in case token_peek now token ts of
           Inl e \<Rightarrow> write_invalid_link w1
         | Inr enroll \<Rightarrow>
             html_answer 200
               (enroll_start_page (html_escape (en_fingerprint enroll)) (html_escape (enroll_login_url auth_host token))) w1)"

definition handle_complete ::
    "(string \<Rightarrow> 's \<Rightarrow> session result) \<Rightarrow> (int \<Rightarrow> 's \<Rightarrow> user result)
       \<Rightarrow> (int \<Rightarrow> string \<Rightarrow> string \<Rightarrow> string \<Rightarrow> string \<Rightarrow> 's \<Rightarrow> key result \<times> 's) \<Rightarrow> (string \<Rightarrow> 's \<Rightarrow> key result)
       \<Rightarrow> gotime \<Rightarrow> string \<Rightarrow> string \<Rightarrow> request \<Rightarrow> response \<Rightarrow> token_store \<times> 's \<Rightarrow> response \<times> token_store \<times> 's" where
  "handle_complete get_session get_user add_key get_key now auth_host token r w st =
     (let (ts, s) = st; w1 = enroll_headers w; to_login = redirect (enroll_login_url auth_host token) 302 w1
      in case session_read r of
           None \<Rightarrow> (to_login, ts, s)
         | Some sid \<Rightarrow>
     (case get_session sid s of
        Inl e \<Rightarrow> (to_login, ts, s)
      | Inr sess \<Rightarrow>
     (case get_user (se_user_id sess) s of
        Inl e \<Rightarrow> (write_invalid_link w1, ts, s)
      | Inr u \<Rightarrow>
     (case token_consume now token ts of
        (Inl e, ts') \<Rightarrow> (write_invalid_link w1, ts', s)
      | (Inr enroll, ts') \<Rightarrow>
     (let label = ''enrolled from '' @ short_user_agent (header_get (rq_header r) ''User-Agent'')
      in case add_key (us_id u) (en_fingerprint enroll) (en_key_type enroll) (en_public_key enroll) label s of
           (Inl e, s') \<Rightarrow>
             (if err_is e FingerprintTaken then
                (case get_key (en_fingerprint enroll) s' of
                   Inr existing \<Rightarrow>
                     (if ky_user_id existing = us_id u then (write_success (en_fingerprint enroll) w1, ts', s')
                      else (write_key_taken w1, ts', s'))
                 | Inl _ \<Rightarrow> (write_key_taken w1, ts', s'))
              else (write_invalid_link w1, ts', s'))
         | (Inr k, s') \<Rightarrow> (write_success (en_fingerprint enroll) w1, ts', s'))))))"

section \<open>The interfaces of the handlers\<close>

locale enroll_stores =
  fixes get_session :: "string \<Rightarrow> 's \<Rightarrow> session result"
    and get_user :: "int \<Rightarrow> 's \<Rightarrow> user result"
    and add_key :: "int \<Rightarrow> string \<Rightarrow> string \<Rightarrow> string \<Rightarrow> string \<Rightarrow> 's \<Rightarrow> key result \<times> 's"
    and get_key :: "string \<Rightarrow> 's \<Rightarrow> key result"
    and session_of :: "'s \<Rightarrow> string \<Rightarrow> int option"
    and key_of :: "'s \<Rightarrow> string \<Rightarrow> int option"
  assumes get_session_of: "get_session sid s = Inr x \<Longrightarrow> session_of s sid = Some (se_user_id x)"
    and get_user_id: "get_user uid s = Inr u \<Longrightarrow> us_id u = uid"
    and get_key_of: "get_key fp s = Inr k \<Longrightarrow> key_of s fp = Some (ky_user_id k)"
    and add_key_ok: "add_key uid fp kt pk l s = (Inr k, s') \<Longrightarrow>
          key_of s fp = None \<and> key_of s' = (key_of s)(fp \<mapsto> uid)"
    and add_key_err: "add_key uid fp kt pk l s = (Inl e, s') \<Longrightarrow> s' = s"
begin

lemma complete_cases:
  assumes "handle_complete get_session get_user add_key get_key now host tok r w (ts, s) = (w', ts', s')"
  obtains (refused) "s' = s" and "rs_status w' \<noteq> 200 \<or> rs_location w' \<noteq> None"
  | (registered) sid uid e where "session_read r = Some sid" and "session_of s sid = Some uid"
      and "token_consume now tok ts = (Inr e, ts')" and "key_of s' (en_fingerprint e) = Some uid"
      and "s' = s \<or> (key_of s (en_fingerprint e) = None \<and> key_of s' = (key_of s)(en_fingerprint e \<mapsto> uid))"
      and "w' = write_success (en_fingerprint e) (enroll_headers w)"
proof (cases "session_read r")
  case None
  with assms show ?thesis by (intro refused) (auto simp: handle_complete_def Let_def redirect_def)
next
  case (Some sid)
  note sid = this
  show ?thesis
  proof (cases "get_session sid s")
    case (Inl e)
    with assms sid show ?thesis by (intro refused) (auto simp: handle_complete_def Let_def redirect_def)
  next
    case (Inr sess)
    note sess = this
    show ?thesis
    proof (cases "get_user (se_user_id sess) s")
      case (Inl e)
      with assms sid sess show ?thesis
        by (intro refused) (auto simp: handle_complete_def Let_def write_invalid_link_def html_answer_def write_body_def write_status_def)
    next
      case (Inr u)
      note u = this get_user_id [OF this]
      obtain cr ts1 where c: "token_consume now tok ts = (cr, ts1)" by (cases "token_consume now tok ts")
      show ?thesis
      proof (cases cr)
        case (Inl e)
        with assms sid sess u c show ?thesis
          by (intro refused) (auto simp: handle_complete_def Let_def write_invalid_link_def html_answer_def write_body_def write_status_def)
      next
        case (Inr e)
        let ?l = "''enrolled from '' @ short_user_agent (header_get (rq_header r) ''User-Agent'')"
        obtain ar s1 where a: "add_key (us_id u) (en_fingerprint e) (en_key_type e) (en_public_key e) ?l s = (ar, s1)"
          by (cases "add_key (us_id u) (en_fingerprint e) (en_key_type e) (en_public_key e) ?l s")
        show ?thesis
        proof (cases ar)
          case k: (Inr k)
          with add_key_ok [OF a [unfolded k]] get_session_of [OF sess] u assms sid sess c Inr a show ?thesis
            by (intro registered [of sid "us_id u" e]) (auto simp: handle_complete_def Let_def)
        next
          case err: (Inl x)
          note s1 = add_key_err [OF a [unfolded err]]
          show ?thesis
          proof (cases "err_is x FingerprintTaken \<and> (\<exists>k. get_key (en_fingerprint e) s = Inr k \<and> ky_user_id k = us_id u)")
            case True
            then obtain k where "err_is x FingerprintTaken" "get_key (en_fingerprint e) s = Inr k" "ky_user_id k = us_id u"
              by blast
            with get_key_of get_session_of [OF sess] u assms sid sess c Inr a err s1 show ?thesis
              by (intro registered [of sid "us_id u" e]) (auto simp: handle_complete_def Let_def)
          next
            case False
            with assms sid sess u c Inr a err s1 show ?thesis
              by (intro refused) (auto simp: handle_complete_def Let_def write_invalid_link_def write_key_taken_def
                  html_answer_def write_body_def write_status_def split: sum.splits if_splits)
          qed
        qed
      qed
    qed
  qed
qed

end

section \<open>The stores as the handlers see them\<close>

record enroll_env =
  ee_now :: gotime
  ee_get :: "err option"
  ee_user :: "err option"
  ee_consume_now :: gotime
  ee_add_now :: gotime
  ee_add :: tx_fault
  ee_lookup :: "err option"

definition no_enroll_fault :: "gotime \<Rightarrow> enroll_env" where
  "no_enroll_fault t = \<lparr>ee_now = t, ee_get = None, ee_user = None, ee_consume_now = t, ee_add_now = t,
                       ee_add = no_fault, ee_lookup = None\<rparr>"

definition complete_on_db ::
    "session_opts \<Rightarrow> enroll_env \<Rightarrow> string \<Rightarrow> string \<Rightarrow> request \<Rightarrow> response \<Rightarrow> token_store \<times> db \<Rightarrow> response \<times> token_store \<times> db" where
  "complete_on_db opts f =
     handle_complete (session_get opts (ee_now f) (ee_get f)) (user_get (ee_user f))
       (key_add (ee_add_now f) (ee_add f)) (key_get (ee_lookup f)) (ee_consume_now f)"

lemma user_get_id: "user_get fault uid d = Inr u \<Longrightarrow> us_id u = uid"
  by (auto simp: user_get_def query_one_def decode_user_def split: option.splits sum.splits dest: find_Some_iff_mem)

interpretation es: enroll_stores "session_get opts (ee_now f) (ee_get f)" "user_get (ee_user f)"
    "key_add (ee_add_now f) (ee_add f)" "key_get (ee_lookup f)" session_owner key_owner
  for opts f
proof
  show "session_owner s sid = Some (se_user_id x)" if "session_get opts (ee_now f) (ee_get f) sid s = Inr x" for s sid x
    using session_get_Inr [OF that] by (auto simp: session_owner_def)
  show "us_id u = uid" if "user_get (ee_user f) uid s = Inr u" for uid s u
    using that by (rule user_get_id)
  show "key_owner s fp = Some (ky_user_id k)" if "key_get (ee_lookup f) fp s = Inr k" for fp s k
    using that by (auto simp: key_get_def key_owner_def key_abs_def decode_key_def
        simp flip: find_index_by split: option.splits)
  show "key_owner s fp = None \<and> key_owner s' = (key_owner s)(fp \<mapsto> uid)"
    if "key_add (ee_add_now f) (ee_add f) uid fp kt pk l s = (Inr k, s')" for uid fp kt pk l s k s'
    using key_add_cases [OF that] by (auto simp: key_owner_def key_abs_append fun_eq_iff)
  show "s' = s" if "key_add (ee_add_now f) (ee_add f) uid fp kt pk l s = (Inl e, s')" for uid fp kt pk l s e s'
    using key_add_cases [OF that] by auto
qed

section \<open>Properties\<close>

text \<open>
  C11. Enrollment binds the offered key to the signed-in user, and nobody else's key moves.  Either
  the completion page changes nothing in the database, and then it does not say that the key is
  registered; or the browser holds a session, the token was live and is used up, the key it was
  minted for belongs to the user of that session afterwards and to nobody else before, and every
  other key keeps its owner.
\<close>

theorem enroll_binds_session_user:
  assumes "complete_on_db opts f host tok r w (ts, d) = (w', ts', d')"
  shows "(d' = d \<and> (rs_status w' \<noteq> 200 \<or> rs_location w' \<noteq> None))
         \<or> (\<exists>sid uid e. session_read r = Some sid \<and> session_owner d sid = Some uid
              \<and> token_peek (ee_consume_now f) tok ts = Inr e \<and> ts' = ts(tok := None)
              \<and> key_owner d' = (key_owner d)(en_fingerprint e \<mapsto> uid)
              \<and> key_owner d (en_fingerprint e) \<in> {None, Some uid}
              \<and> w' = write_success (en_fingerprint e) (enroll_headers w))"
  using assms unfolding complete_on_db_def
proof (cases rule: es.complete_cases)
  case refused
  then show ?thesis by blast
next
  case (registered sid uid e)
  have "token_peek (ee_consume_now f) tok ts = Inr e" "ts' = ts(tok := None)"
    using registered(3) tk.consume_entries [of "ee_consume_now f" tok ts] tk.peek_result [of "ee_consume_now f" tok ts]
    by simp_all
  with registered show ?thesis by (intro disjI2 exI [of _ sid] exI [of _ uid] exI [of _ e]) auto
qed

definition example_tokens :: token_store where
  "example_tokens = snd (token_mint (seconds 1000) (seconds 1000) (Inr ''tok'') ''SHA256:k'' ''ssh-ed25519'' ''blob'' (\<lambda>_. None))"

definition signed_in_request :: request where
  "signed_in_request = example_request [(''Cookie'', [''forge_session=YWJj'']), (''User-Agent'', [''Firefox''])] []"

lemma enroll_binds_session_user_witness:
  "\<exists>w' ts' d'. complete_on_db example_opts (no_enroll_fault (seconds 1200)) ''auth.forgeutah.tech'' ''dG9r''
       signed_in_request new_response (example_tokens, session_run example_opts example_ops example_db) = (w', ts', d')
     \<and> key_owner d' ''SHA256:k'' = Some 1 \<and> ts' ''dG9r'' = None"
proof -
  let ?d = "session_run example_opts example_ops example_db"
  let ?c = "complete_on_db example_opts (no_enroll_fault (seconds 1200)) ''auth.forgeutah.tech'' ''dG9r''
       signed_in_request new_response (example_tokens, ?d)"
  obtain w' ts' d' where c: "?c = (w', ts', d')" by (cases ?c)
  have "rs_status (fst ?c) = 200 \<and> rs_location (fst ?c) = None" by code_simp
  then have "rs_status w' = 200 \<and> rs_location w' = None" by (simp add: c)
  moreover have "session_read signed_in_request = Some ''YWJj''" "session_owner ?d ''YWJj'' = Some 1"
    "map_option en_fingerprint (example_tokens ''dG9r'') = Some ''SHA256:k''" by code_simp+
  moreover from this(3) have "token_peek t ''dG9r'' example_tokens = Inr e \<Longrightarrow> en_fingerprint e = ''SHA256:k''" for t e
    by (auto simp: token_peek_def split: option.splits if_splits)
  ultimately show ?thesis using enroll_binds_session_user [OF c] c by auto
qed

text \<open>
  The page that shows the fingerprint for comparison is not part of the condition: whoever offers
  a key over SSH gets the link, and a signed-in user who follows the link of its last step has
  the key bound without having seen the fingerprint.
\<close>

lemma complete_without_confirmation:
  "let (ts, fp) = (snd (token_mint (seconds 1000) (seconds 1000) (Inr ''tok'') ''SHA256:attacker'' ''ssh-ed25519'' ''blob'' (\<lambda>_. None)),
                   ''SHA256:attacker'');
       (w', ts', d') = complete_on_db example_opts (no_enroll_fault (seconds 1200)) ''auth.forgeutah.tech'' ''dG9r''
          signed_in_request new_response (ts, session_run example_opts example_ops example_db)
   in rs_status w' = 200 \<and> key_owner d' fp = Some 1"
  by code_simp

lemma list_all_role_path: "list_all role_char s \<Longrightarrow> path_escape s = s \<and> valid_encoded s EncodePath \<and> url_unescape EncodePath (s @ t) = map_option ((@) s) (url_unescape EncodePath t)"
proof (induction s)
  case (Cons c s)
  then have c: "role_char c" and IH: "path_escape s = s" "valid_encoded s EncodePath"
    "url_unescape EncodePath (s @ t) = map_option ((@) s) (url_unescape EncodePath t)" by auto
  have n: "c \<noteq> CHR ''%''" "c \<noteq> CHR ''+''" "c \<noteq> CHR '' ''" using c by (auto simp: role_char_def Let_def)
  have "is_alnum c \<or> c \<in> set ''-_.~''"
    using c by (auto simp: role_char_def is_alnum_def Let_def char_eq_nat simp del: of_char_eq_iff)
  then have "\<not> should_escape c EncodePath" "\<not> should_escape c EncodePathSegment"
    by (auto simp: should_escape_def)
  then show ?case using IH n
    by (auto simp: url_escape_def escape_char_def valid_encoded_def plain_ok_def option.map_comp comp_def)
qed (cases "url_unescape EncodePath t"; simp add: url_escape_def valid_encoded_def)

lemma complete_path_plain:
  assumes "list_all role_char tok"
  shows "plain_path (''/ssh/enroll/'' @ path_escape tok @ ''/complete'')"
proof -
  note t = list_all_role_path [OF assms, of "''/complete''"] list_all_role_path [OF assms, of "[]"]
  have "valid_encoded (''/ssh/enroll/'' @ tok @ ''/complete'') EncodePath"
  proof -
    have "valid_encoded ''/ssh/enroll/'' EncodePath" "valid_encoded ''/complete'' EncodePath" by code_simp+
    with t show ?thesis unfolding valid_encoded_def by simp
  qed
  moreover have "url_unescape EncodePath (''/ssh/enroll/'' @ tok @ ''/complete'') \<noteq> None"
  proof -
    have u: "url_unescape EncodePath (''/ssh/enroll/'' @ s) = map_option ((@) ''/ssh/enroll/'') (url_unescape EncodePath s)" for s
      by (cases "url_unescape EncodePath s") (simp_all add: plain_ok_def)
    have "url_unescape EncodePath ''/complete'' = Some ''/complete''" by code_simp
    then show ?thesis unfolding u using t by simp
  qed
  ultimately show ?thesis using t by (simp add: plain_path_def)
qed

text \<open>
  The way back from sign-in leads to the completion page: for a host of the base domain, the
  URL that the start page and the redirects to sign-in pass as the return URL is accepted by the
  check of the sign-in handler, unchanged, for every token the store hands out.
\<close>

theorem enroll_return_accepted:
  assumes "plain_domain host" and "in_domain base host" and "norm_base base \<noteq> []" and "\<not> label_xn (to_lower host)"
    and "token_mint st now rnd fp kt pk ts = (Inr tok, ts')"
  shows "validate (complete_url host tok) base = Inr (complete_url host tok)
         \<and> url_unescape EncodeQueryComponent (query_escape (complete_url host tok)) = Some (complete_url host tok)"
proof -
  have "list_all role_char tok"
    using token_mint_Inr [OF assms(5)] b64_encode_role
    by (auto simp: enroll_random_token_def random_id_def split: sum.splits)
  from validate_plain [OF assms(1-4) complete_path_plain [OF this], of "[]"]
  show ?thesis by (simp add: complete_url_def plain_query_def unescape_escape)
qed

lemma enroll_return_accepted_witness:
  "validate (complete_url ''auth.forgeutah.tech'' ''dG9r'') ''forgeutah.tech''
     = Inr ''https://auth.forgeutah.tech/ssh/enroll/dG9r/complete''"
proof -
  let ?m = "token_mint (seconds 1000) (seconds 1000) (Inr ''tok'') ''SHA256:k'' ''ssh-ed25519'' ''blob'' (\<lambda>_. None)"
  have "fst ?m = Inr ''dG9r''" by code_simp
  then have m: "?m = (Inr ''dG9r'', snd ?m)" by (metis prod.collapse)
  have "plain_domain ''auth.forgeutah.tech''" "in_domain ''forgeutah.tech'' ''auth.forgeutah.tech''"
    "norm_base ''forgeutah.tech'' \<noteq> []" "\<not> label_xn (to_lower ''auth.forgeutah.tech'')" by code_simp+
  moreover have "complete_url ''auth.forgeutah.tech'' ''dG9r'' = ''https://auth.forgeutah.tech/ssh/enroll/dG9r/complete''"
    by code_simp
  ultimately show ?thesis using enroll_return_accepted [OF _ _ _ _ m] by metis
qed

end
