(* ===== verification/SshServer.thy ===== *)
theory SshServer
  imports Config Enroll
begin

text \<open>
  \<open>internal/sshproxy/config.go\<close> and \<open>server.go\<close>: authentication of an SSH connection, the role check
  after the handshake, the registry of live connections, and the listeners.

  The SSH library is not modelled: what it hands to a callback is an argument (the session id of
  the connection, and of an offered key its fingerprint, type and wire form), and so is the
  outcome of a handshake.  The key, user and token stores are interfaces in the code, here the
  functions \<open>get_key\<close>, \<open>get_user\<close>, \<open>touch\<close> and \<open>mint\<close>; a locale states what the server relies on,
  and it is interpreted on the stores of the database model.
\<close>

section \<open>Configuration\<close>

record ssh_target =
  st_port :: int
  st_target :: url
  st_roles :: "string list"

record ssh_config =
  sc_listen_addr :: string
  sc_upstreams :: "(int \<times> ssh_target) list"
  sc_has_host_key :: bool
  sc_auth_host :: string

definition ext_user_id :: string where
  "ext_user_id = ''forge_user_id''"

definition ext_fingerprint :: string where
  "ext_fingerprint = ''forge_fingerprint''"

definition pending_enroll_ttl :: duration where
  "pending_enroll_ttl = seconds 10"

text \<open>\<open>serverConfig\<close>: the algorithms the listener offers; \<open>crypto_algs\<close> is also what the outbound client uses.\<close>

record crypto_algs =
  ca_key_exchanges :: "string list"
  ca_ciphers :: "string list"
  ca_macs :: "string list"

record server_config =
  sg_public_key_algs :: "string list"
  sg_banner :: string
  sg_server_version :: string
  sg_crypto :: crypto_algs

definition server_config :: server_config where
  "server_config =
     \<lparr>sg_public_key_algs =
        [''ssh-ed25519'', ''rsa-sha2-512'', ''rsa-sha2-256'',
         ''ecdsa-sha2-nistp256'', ''ecdsa-sha2-nistp384'', ''ecdsa-sha2-nistp521''],
      sg_banner = ''forge-proxy SSH bastion '' @ em_dash @ '' auth required'' @ [CHR 0x0A],
      sg_server_version = ''SSH-2.0-forge-proxy'',
      sg_crypto =
        \<lparr>ca_key_exchanges =
           [''sntrup761x25519-sha512@openssh.com'', ''curve25519-sha256'', ''curve25519-sha256@libssh.org''],
         ca_ciphers =
           [''chacha20-poly1305@openssh.com'', ''aes256-gcm@openssh.com'', ''aes128-gcm@openssh.com''],
         ca_macs = [''hmac-sha2-256-etm@openssh.com'', ''hmac-sha2-512-etm@openssh.com'']\<rparr>\<rparr>"

section \<open>Authentication callbacks\<close>

text \<open>
  A \<open>*ssh.Permissions\<close> as the server uses it is its map of extensions, which may be nil; reading a
  missing key of a Go map gives the empty string.
\<close>

type_synonym extensions = "string \<Rightarrow> string option"
type_synonym permissions = "extensions option"

definition ext_value :: "extensions \<Rightarrow> string \<Rightarrow> string" where
  "ext_value m k = (case m k of None \<Rightarrow> [] | Some v \<Rightarrow> v)"

record offered_key =
  of_fingerprint :: string
  of_type :: string
  of_blob :: string

record pending_key =
  pe_fingerprint :: string
  pe_key_type :: string
  pe_blob :: string
  pe_stored_at :: gotime

type_synonym pending_map = "string \<Rightarrow> pending_key option"

definition unknown_fingerprint :: err where
  "unknown_fingerprint = Message ''publickey: unknown fingerprint''"

definition public_key_callback ::
    "(string \<Rightarrow> key result) \<Rightarrow> gotime \<Rightarrow> string \<Rightarrow> offered_key \<Rightarrow> pending_map
     \<Rightarrow> permissions result \<times> pending_map" where
  "public_key_callback get_key now sid k p =
     (let fp = of_fingerprint k
      in case get_key fp of
           Inr rec \<Rightarrow>
             if ky_fingerprint rec \<noteq> fp then (Inl (Message ''authn fingerprint mismatch''), p)
             else (Inr (Some [ext_user_id \<mapsto> itoa (ky_user_id rec), ext_fingerprint \<mapsto> fp]), p(sid := None))
         | Inl e \<Rightarrow>
             if \<not> err_is e KeyNotFound then (Inl (Wrap ''sshproxy: key lookup'' e), p)
             else (Inl unknown_fingerprint,
                   p(sid \<mapsto> \<lparr>pe_fingerprint = fp, pe_key_type = of_type k, pe_blob = of_blob k,
                            pe_stored_at = now\<rparr>)))"

definition sweep_pending :: "gotime \<Rightarrow> pending_map \<Rightarrow> pending_map" where
  "sweep_pending now p = keep_rows (\<lambda>e. \<not> pending_enroll_ttl < time_sub now (pe_stored_at e)) p"

definition enroll_instruction :: "string \<Rightarrow> string \<Rightarrow> string" where
  "enroll_instruction fingerprint link =
     ''Unknown SSH key '' @ fingerprint @ ''.'' @ [CHR 0x0A] @ ''Enroll: '' @ link @ [CHR 0x0A]
       @ ''Then retry your SSH command.'' @ [CHR 0x0A]"

text \<open>The second component of the answer is the instruction put to the client, if any.\<close>

definition keyboard_interactive_callback ::
    "string \<Rightarrow> (string \<Rightarrow> string \<Rightarrow> string \<Rightarrow> 't \<Rightarrow> string result \<times> 't) \<Rightarrow> gotime \<Rightarrow> string
     \<Rightarrow> pending_map \<times> 't \<Rightarrow> (permissions result \<times> string option) \<times> pending_map \<times> 't" where
  "keyboard_interactive_callback auth_host mint now sid s =
     (let p = sweep_pending now (fst s)
      in case p sid of
           None \<Rightarrow> ((Inl (Message (''publickey authentication required '' @ em_dash @ '' offer a key first'')), None),
                    p, snd s)
         | Some e \<Rightarrow>
             (case mint (pe_fingerprint e) (pe_key_type e) (pe_blob e) (snd s) of
                (Inl err, t) \<Rightarrow> ((Inl (Wrap ''sshproxy: mint token'' err), None), p(sid := None), t)
              | (Inr token, t) \<Rightarrow>
                  ((Inl (Message (''enrollment required '' @ em_dash @ '' visit the URL above and retry SSH'')),
                    Some (enroll_instruction (pe_fingerprint e) (enroll_url auth_host token))),
                   p(sid := None), t)))"

section \<open>After the handshake\<close>

definition roles_intersect :: "string list \<Rightarrow> string list \<Rightarrow> bool" where
  "roles_intersect roles allowed =
     (if roles = [] \<or> allowed = [] then False else list_ex (\<lambda>r. r \<in> set allowed) roles)"

datatype refusal =
    MissingPermissions
  | MissingIdentity
  | BadUserId string
  | UserLookupFailed err
  | RoleDenied int
  | NoForwarder

record auth_conn =
  ac_port :: int
  ac_target :: ssh_target
  ac_user :: user
  ac_fingerprint :: string
  ac_client_addr :: string

text \<open>
  The part of \<open>handleConn\<close> that decides: the outer \<open>None\<close> is a connection without permissions, the
  inner one permissions without extensions.
\<close>

definition conn_identity :: "permissions option \<Rightarrow> refusal + int \<times> string" where
  "conn_identity perms =
     (case perms of
        Some (Some m) \<Rightarrow>
          (let raw = ext_value m ext_user_id; fp = ext_value m ext_fingerprint
           in if raw = [] \<or> fp = [] then Inl MissingIdentity
              else (case atoi raw of None \<Rightarrow> Inl (BadUserId raw) | Some uid \<Rightarrow> Inr (uid, fp)))
      | _ \<Rightarrow> Inl MissingPermissions)"

definition authorise_conn ::
    "(int \<Rightarrow> 's \<Rightarrow> user result) \<Rightarrow> (string \<Rightarrow> 's \<Rightarrow> unit result \<times> 's) \<Rightarrow> bool \<Rightarrow> permissions option
     \<Rightarrow> string \<Rightarrow> ssh_target \<Rightarrow> 's \<Rightarrow> (refusal + auth_conn) \<times> 's" where
  "authorise_conn get_user touch has_forwarder perms addr up s =
     (case conn_identity perms of
        Inl r \<Rightarrow> (Inl r, s)
      | Inr (uid, fp) \<Rightarrow>
          (case get_user uid s of
             Inl e \<Rightarrow> (Inl (UserLookupFailed e), s)
           | Inr u \<Rightarrow>
               if \<not> roles_intersect (us_roles u) (st_roles up) then (Inl (RoleDenied (us_id u)), s)
               else let (_, s') = touch fp s
                    in (if \<not> has_forwarder then Inl NoForwarder
                        else Inr \<lparr>ac_port = st_port up, ac_target = up, ac_user = u,
                                  ac_fingerprint = fp, ac_client_addr = addr\<rparr>, s')))"

section \<open>The registry of live connections\<close>

text \<open>
  A connection is a number; the functions \<open>cancel\<close> and \<open>closeConn\<close> of an entry are the number of
  the connection they act on.  The Go map is an association list in the order of iteration.
\<close>

record session_entry =
  sn_user_id :: int
  sn_email :: string
  sn_port :: int
  sn_client_addr :: string
  sn_connected_at :: gotime
  sn_cancel :: "nat option"
  sn_close_conn :: "nat option"

datatype ssh_effect = CancelContext nat | CloseConn nat | CloseListener int

record ssh_server =
  sv_conns :: "(nat \<times> session_entry) list"
  sv_listeners :: "int list"
  sv_closed :: bool
  sv_pending :: pending_map

definition new_server :: ssh_server where
  "new_server = \<lparr>sv_conns = [], sv_listeners = [], sv_closed = False, sv_pending = (\<lambda>_. None)\<rparr>"

definition register_conn_with ::
    "gotime \<Rightarrow> nat \<Rightarrow> int \<Rightarrow> string \<Rightarrow> nat option \<Rightarrow> ssh_server \<Rightarrow> ssh_server" where
  "register_conn_with now c port addr close_conn sv =
     sv\<lparr>sv_conns := AList.update c
          \<lparr>sn_user_id = 0, sn_email = [], sn_port = port, sn_client_addr = addr, sn_connected_at = now,
           sn_cancel = None, sn_close_conn = close_conn\<rparr> (sv_conns sv)\<rparr>"

definition register_conn :: "gotime \<Rightarrow> nat \<Rightarrow> int \<Rightarrow> string \<Rightarrow> ssh_server \<Rightarrow> ssh_server" where
  "register_conn now c port addr sv = register_conn_with now c port addr (Some c) sv"

definition unregister_conn :: "nat \<Rightarrow> ssh_server \<Rightarrow> ssh_server" where
  "unregister_conn c sv = sv\<lparr>sv_conns := AList.delete c (sv_conns sv)\<rparr>"

definition attach_identity :: "nat \<Rightarrow> int \<Rightarrow> string \<Rightarrow> nat \<Rightarrow> ssh_server \<Rightarrow> ssh_server" where
  "attach_identity c uid email cancel sv =
     sv\<lparr>sv_conns := AList.map_entry c
          (\<lambda>e. e\<lparr>sn_user_id := uid, sn_email := email, sn_cancel := Some cancel\<rparr>) (sv_conns sv)\<rparr>"

text \<open>
  \<open>handleConn\<close> up to the call of the forwarder: what remains is \<open>unregister_conn\<close>, deferred, once
  the forwarder has returned.  A failed handshake (\<open>None\<close>) leaves the server as it is.
\<close>

definition handle_conn ::
    "(int \<Rightarrow> 's \<Rightarrow> user result) \<Rightarrow> (string \<Rightarrow> 's \<Rightarrow> unit result \<times> 's) \<Rightarrow> bool \<Rightarrow> gotime \<Rightarrow> nat \<Rightarrow> string
     \<Rightarrow> ssh_target \<Rightarrow> (string \<times> permissions option) option \<Rightarrow> ssh_server \<times> 's
     \<Rightarrow> auth_conn option \<times> ssh_server \<times> 's" where
  "handle_conn get_user touch has_forwarder now c addr up handshake st =
     (case handshake of
        None \<Rightarrow> (None, st)
      | Some (sid, perms) \<Rightarrow>
          (let sv = fst st;
               sv = register_conn now c (st_port up) addr (sv\<lparr>sv_pending := (sv_pending sv)(sid := None)\<rparr>)
           in case authorise_conn get_user touch has_forwarder perms addr up (snd st) of
                (Inl r, s') \<Rightarrow> (None, unregister_conn c sv, s')
              | (Inr ac, s') \<Rightarrow>
                  (Some ac, attach_identity c (us_id (ac_user ac)) (us_email (ac_user ac)) c sv, s')))"

section \<open>Listeners\<close>

text \<open>\<open>net.JoinHostPort\<close> brackets a host with a colon in it.\<close>

definition join_host_port :: "string \<Rightarrow> string \<Rightarrow> string" where
  "join_host_port host port =
     (if CHR '':'' \<in> set host then ''['' @ host @ '']:'' @ port else host @ '':'' @ port)"

text \<open>
  \<open>Run\<close> binds one listener per upstream in the order of iteration and stops at the first that
  cannot be bound; \<open>listen port\<close> is the error of binding, \<open>closed port\<close> whether \<open>Shutdown\<close> has run
  by then.
\<close>

fun bind_listeners ::
    "(int \<Rightarrow> err option) \<Rightarrow> (int \<Rightarrow> bool) \<Rightarrow> string \<Rightarrow> (int \<times> ssh_target) list \<Rightarrow> ssh_server
     \<Rightarrow> err option \<times> ssh_server" where
  "bind_listeners listen is_closed addr [] sv = (None, sv)"
| "bind_listeners listen is_closed addr ((port, up) # ups) sv =
     (case listen port of
        Some e \<Rightarrow> (if is_closed port then None
                  else Some (Wrap (''sshproxy: listen '' @ join_host_port addr (itoa port)) e), sv)
      | None \<Rightarrow> bind_listeners listen is_closed addr ups (sv\<lparr>sv_listeners := sv_listeners sv @ [port]\<rparr>))"

definition server_run ::
    "(int \<Rightarrow> err option) \<Rightarrow> (int \<Rightarrow> bool) \<Rightarrow> ssh_config \<Rightarrow> ssh_server \<Rightarrow> err option \<times> ssh_server" where
  "server_run listen is_closed cfg sv =
     (if sc_upstreams cfg = [] then (None, sv)
      else if \<not> sc_has_host_key cfg then (Some (Message ''sshproxy: nil HostKey''), sv)
      else bind_listeners listen is_closed
             (if sc_listen_addr cfg = [] then ''0.0.0.0'' else sc_listen_addr cfg) (sc_upstreams cfg) sv)"

text \<open>
  \<open>acceptLoop\<close> over the outcomes of \<open>Accept\<close>: the connections it serves, and whether it has
  returned.  An error carries what the loop then reads: whether the context is cancelled, whether
  the server is closed, whether the error is a timeout.
\<close>

datatype accept_event = AcceptOk nat | AcceptError bool bool bool

fun accept_loop :: "accept_event list \<Rightarrow> nat list \<times> bool" where
  "accept_loop [] = ([], False)"
| "accept_loop (AcceptOk c # evs) = (let (cs, stopped) = accept_loop evs in (c # cs, stopped))"
| "accept_loop (AcceptError cancelled is_closed timeout # evs) =
     (if cancelled then ([], True)
      else if is_closed then ([], True)
      else if timeout then accept_loop evs
      else ([], True))"

text \<open>
  \<open>Shutdown\<close>: what it closes, and its result, given whether the handlers finished in time and the
  error of the context otherwise.
\<close>

definition shutdown :: "bool \<Rightarrow> err \<Rightarrow> ssh_server \<Rightarrow> err option \<times> ssh_effect list \<times> ssh_server" where
  "shutdown in_time ctx_err sv =
     (if in_time then None else Some ctx_err,
      map CloseListener (sv_listeners sv)
        @ map CloseConn (List.map_filter (sn_close_conn \<circ> snd) (sv_conns sv)),
      sv\<lparr>sv_closed := True, sv_listeners := []\<rparr>)"

section \<open>What the server relies on\<close>

text \<open>A number that is printed and parsed again is the same number, if it parses.\<close>

lemma atoi_itoa_Some:
  assumes "atoi (itoa i) = Some j"
  shows "i = j"
proof (cases "i < 0")
  case True
  with assms show ?thesis
    by (auto simp: atoi_def itoa_def digits_value_nat_digits Let_def split: if_splits)
next
  case False
  obtain c cs where c: "nat_digits (nat i) = c # cs"
    by (meson neq_Nil_conv nat_digits_nonempty)
  have "is_digit c" using nat_digits_hd [of "nat i"] c by simp
  then have "c \<noteq> CHR ''-''" "c \<noteq> CHR ''+''" by (auto simp: is_digit_def)
  with False assms c show ?thesis
    using digits_value_nat_digits [of "nat i"] by (auto simp: atoi_def itoa_def Let_def split: if_splits)
qed

locale ssh_stores =
  fixes get_key :: "string \<Rightarrow> 's \<Rightarrow> key result"
    and get_user :: "int \<Rightarrow> 's \<Rightarrow> user result"
    and touch :: "string \<Rightarrow> 's \<Rightarrow> unit result \<times> 's"
    and key_of :: "'s \<Rightarrow> string \<Rightarrow> int option"
    and users_of :: "'s \<Rightarrow> 'u"
  assumes get_key_of: "get_key fp s = Inr k \<Longrightarrow> key_of s fp = Some (ky_user_id k)"
    and get_user_id: "get_user uid s = Inr u \<Longrightarrow> us_id u = uid"
    and touch_keys: "key_of (snd (touch fp s)) = key_of s"
    and touch_users: "users_of (snd (touch fp s)) = users_of s"
begin

lemma callback_accepts:
  assumes "public_key_callback (\<lambda>fp. get_key fp s) now sid k p = (Inr perms, p')"
  obtains uid where "perms = Some [ext_user_id \<mapsto> itoa uid, ext_fingerprint \<mapsto> of_fingerprint k]"
    and "key_of s (of_fingerprint k) = Some uid" and "p' = p(sid := None)"
  using assms get_key_of
  by (auto simp: public_key_callback_def Let_def split: sum.splits if_splits)

lemma authorise_accepts:
  assumes "authorise_conn get_user touch fwd perms addr up s = (Inr ac, s')"
  obtains uid m where "perms = Some (Some m)" and "atoi (ext_value m ext_user_id) = Some uid"
    and "ac_fingerprint ac = ext_value m ext_fingerprint" and "get_user uid s = Inr (ac_user ac)"
    and "us_id (ac_user ac) = uid" and "roles_intersect (us_roles (ac_user ac)) (st_roles up)"
    and "ac_target ac = up" and "s' = snd (touch (ac_fingerprint ac) s)" and "fwd"
  using assms get_user_id
  by (auto simp: authorise_conn_def conn_identity_def Let_def
      split: option.splits sum.splits if_splits prod.splits)

lemma authorise_frame:
  assumes "authorise_conn get_user touch fwd perms addr up s = (r, s')"
  shows "key_of s' = key_of s \<and> users_of s' = users_of s"
  using assms touch_keys touch_users
  by (auto simp: authorise_conn_def Let_def split: option.splits sum.splits if_splits prod.splits)
     (metis snd_conv)+

end

text \<open>The database model provides the interface.\<close>

lemma key_get_owner: "key_get f fp d = Inr k \<Longrightarrow> key_owner d fp = Some (ky_user_id k)"
  by (auto simp: key_get_def key_owner_def key_abs_def decode_key_def simp flip: find_index_by
      split: option.splits)

lemma key_touch_frame:
  "key_owner (snd (key_touch_last_used now tf fp d)) = key_owner d"
  "users (snd (key_touch_last_used now tf fp d)) = users d"
  by (cases "key_touch_last_used now tf fp d",
      auto simp: key_owner_def key_abs_stamp option.map_comp comp_def fun_eq_iff dest!: key_touch_cases)+

interpretation sh: ssh_stores "key_get f" "user_get g" "key_touch_last_used now tf" key_owner users
  for f g now tf
  by unfold_locales (auto simp: key_get_owner user_get_id key_touch_frame)

section \<open>Pending enrollments\<close>

lemma callback_unknown:
  assumes "get_key (of_fingerprint k) = Inl e" and "err_is e KeyNotFound"
  shows "public_key_callback get_key now sid k p =
     (Inl unknown_fingerprint,
      p(sid \<mapsto> \<lparr>pe_fingerprint = of_fingerprint k, pe_key_type = of_type k, pe_blob = of_blob k,
               pe_stored_at = now\<rparr>))"
  using assms by (simp add: public_key_callback_def Let_def)

lemma callback_other_session:
  "sid' \<noteq> sid \<Longrightarrow> snd (public_key_callback get_key now sid' k p) sid = p sid"
  by (auto simp: public_key_callback_def Let_def split: sum.split)

lemma prompt_never_authenticates:
  "isl (fst (fst (keyboard_interactive_callback auth_host mint now sid s)))"
  by (auto simp: keyboard_interactive_callback_def Let_def split: option.split prod.split sum.split)

text \<open>The offers the listener sees, of any number of connections, in order.\<close>

fun offer_keys ::
    "(string \<Rightarrow> key result) \<Rightarrow> (gotime \<times> string \<times> offered_key) list \<Rightarrow> pending_map \<Rightarrow> pending_map" where
  "offer_keys get_key [] p = p"
| "offer_keys get_key ((now, sid, k) # offers) p =
     offer_keys get_key offers (snd (public_key_callback get_key now sid k p))"

lemma offer_keys_append:
  "offer_keys get_key (xs @ ys) p = offer_keys get_key ys (offer_keys get_key xs p)"
  by (induction xs arbitrary: p) auto

lemma offer_keys_other:
  "\<forall>(t, sid', k) \<in> set offers. sid' \<noteq> sid \<Longrightarrow> offer_keys get_key offers p sid = p sid"
  by (induction offers arbitrary: p) (auto simp: callback_other_session)

text \<open>
  The enrollment link a client is shown is for the last unknown key it offered.  A client offers
  keys, the last of which is unknown, and falls through to keyboard-interactive within the lifetime
  of the record, while any number of other connections offer keys of their own: the client is not
  let in, it is shown the link of a fresh token, the token stands for the key that was offered last,
  and the record is gone.
\<close>

theorem prompt_enrolls_last_key:
  assumes "get_key (of_fingerprint k) = Inl e" and "err_is e KeyNotFound"
    and others: "\<forall>(t, sid', k') \<in> set later. sid' \<noteq> sid"
    and "now - at \<le> pending_enroll_ttl" and "at - now \<le> 2 ^ 63"
    and "enroll_random_token rnd = Inr tok"
    and run: "keyboard_interactive_callback auth_host (token_mint t1 t2 rnd) now sid
           (offer_keys get_key (earlier @ (at, sid, k) # later) p, ts) = ((r, shown), p', ts')"
  shows "isl r \<and> p' sid = None
         \<and> shown = Some (enroll_instruction (of_fingerprint k) (enroll_url auth_host tok))
         \<and> ts' tok = Some \<lparr>en_fingerprint = of_fingerprint k, en_key_type = of_type k,
                           en_public_key = of_blob k, en_expires_at = t2 + default_ttl\<rparr>"
proof -
  let ?e = "\<lparr>pe_fingerprint = of_fingerprint k, pe_key_type = of_type k, pe_blob = of_blob k, pe_stored_at = at\<rparr>"
  have "offer_keys get_key (earlier @ (at, sid, k) # later) p sid = Some ?e"
    using offer_keys_other [OF others] assms(1,2) by (simp add: offer_keys_append callback_unknown)
  moreover have "\<not> pending_enroll_ttl < time_sub now at"
    using assms(4,5) by (auto simp: time_sub_def pending_enroll_ttl_def seconds_def)
  ultimately have "sweep_pending now (offer_keys get_key (earlier @ (at, sid, k) # later) p) sid = Some ?e"
    by (simp add: sweep_pending_def keep_rows_def)
  with run assms(6) show ?thesis
    by (auto simp: keyboard_interactive_callback_def Let_def token_mint_def)
qed

lemma prompt_enrolls_last_key_witness:
  "let get_key = (\<lambda>fp. key_get None fp example_key_db);
       k = \<lparr>of_fingerprint = ''SHA256:new'', of_type = ''ssh-ed25519'', of_blob = ''n''\<rparr>;
       p = offer_keys get_key
             ([(seconds 1, ''s1'', k\<lparr>of_fingerprint := ''SHA256:old''\<rparr>)] @ (seconds 2, ''s1'', k)
               # [(seconds 3, ''s2'', k\<lparr>of_fingerprint := ''SHA256:z''\<rparr>)]) (\<lambda>_. None)
   in snd (fst (keyboard_interactive_callback ''auth.forgeutah.tech''
            (token_mint (seconds 4) (seconds 4) (Inr ''abc'')) (seconds 4) ''s1'' (p, (\<lambda>_. None)))) =
        Some (enroll_instruction ''SHA256:new'' (enroll_url ''auth.forgeutah.tech'' (b64_encode ''abc'')))"
proof -
  let ?k = "\<lparr>of_fingerprint = ''SHA256:new'', of_type = ''ssh-ed25519'', of_blob = ''n''\<rparr>"
  let ?run = "keyboard_interactive_callback ''auth.forgeutah.tech''
      (token_mint (seconds 4) (seconds 4) (Inr ''abc'')) (seconds 4) ''s1''
      (offer_keys (\<lambda>fp. key_get None fp example_key_db)
         ([(seconds 1, ''s1'', ?k\<lparr>of_fingerprint := ''SHA256:old''\<rparr>)] @ (seconds 2, ''s1'', ?k)
           # [(seconds 3, ''s2'', ?k\<lparr>of_fingerprint := ''SHA256:z''\<rparr>)]) (\<lambda>_. None), (\<lambda>_. None))"
  have "key_get None (of_fingerprint ?k) example_key_db = Inl (Sentinel KeyNotFound)" by code_simp
  then have unknown: "(\<lambda>fp. key_get None fp example_key_db) (of_fingerprint ?k) = Inl (Sentinel KeyNotFound)" .
  from prompt_enrolls_last_key [where get_key = "\<lambda>fp. key_get None fp example_key_db", OF unknown, of "[(seconds 3, ''s2'', ?k\<lparr>of_fingerprint := ''SHA256:z''\<rparr>)]"
      "''s1''" "seconds 4" "seconds 2" "Inr ''abc''" "b64_encode ''abc''" "''auth.forgeutah.tech''"
      "seconds 4" "seconds 4" "[(seconds 1, ''s1'', ?k\<lparr>of_fingerprint := ''SHA256:old''\<rparr>)]" "\<lambda>_. None" "\<lambda>_. None"
      "fst (fst ?run)" "snd (fst ?run)" "fst (snd ?run)" "snd (snd ?run)"]
  show ?thesis
    by (simp add: seconds_def pending_enroll_ttl_def enroll_random_token_def random_id_def Let_def)
qed

end
