(* ===== verification/SshSessions.thy ===== *)
theory SshSessions
  imports SshServer
begin

text \<open>
  \<open>internal/sshproxy/sessions.go\<close>, and the server as a whole: its registry, its database and the
  handlers of its connections as a step relation in which every call that takes a lock or reads a
  store is one step, so that the handlers, the other components and the operator's commands interleave.
\<close>

section \<open>Operator's view\<close>

record session_info =
  si_user_id :: int
  si_email :: string
  si_port :: int
  si_client_addr :: string
  si_connected_at :: gotime

definition list_sessions :: "ssh_server \<Rightarrow> session_info list" where
  "list_sessions sv =
     map (\<lambda>(_, e). \<lparr>si_user_id = sn_user_id e, si_email = sn_email e, si_port = sn_port e,
                    si_client_addr = sn_client_addr e, si_connected_at = sn_connected_at e\<rparr>)
       (filter (\<lambda>(_, e). sn_email e \<noteq> []) (sv_conns sv))"

fun teardown :: "nat option \<times> nat option \<Rightarrow> ssh_effect list" where
  "teardown (cancel, close_conn) =
     (case cancel of None \<Rightarrow> [] | Some c \<Rightarrow> [CancelContext c])
       @ (case close_conn of None \<Rightarrow> [] | Some c \<Rightarrow> [CloseConn c])"

definition force_close :: "(session_entry \<Rightarrow> bool) \<Rightarrow> ssh_server \<Rightarrow> nat \<times> ssh_effect list" where
  "force_close P sv =
     (let victims = map (\<lambda>(_, e). (sn_cancel e, sn_close_conn e))
                      (filter (\<lambda>(_, e). sn_cancel e \<noteq> None \<and> P e) (sv_conns sv))
      in (length victims, concat (map teardown victims)))"

definition force_close_by_email :: "string \<Rightarrow> ssh_server \<Rightarrow> nat \<times> ssh_effect list" where
  "force_close_by_email email sv =
     (if email = [] then (0, []) else force_close (\<lambda>e. sn_email e = email) sv)"

definition force_close_by_user :: "int \<Rightarrow> ssh_server \<Rightarrow> nat \<times> ssh_effect list" where
  "force_close_by_user uid sv =
     (if uid = 0 then (0, []) else force_close (\<lambda>e. sn_user_id e = uid) sv)"

section \<open>The server with its connections\<close>

text \<open>
  Where the handler of a connection is: in the handshake, registered, past the role check, or inside
  the forwarder.  The handler that has returned, or was never started, has no phase.
\<close>

datatype phase =
    Handshaking ssh_target string string
  | Registered ssh_target string string permissions
  | Authorised string auth_conn
  | Forwarding string auth_conn

text \<open>
  \<open>sw_past\<close> is every state the database has had, \<open>sw_answers\<close> what the public-key callback has
  accepted: both are history, which no step reads, but for the contract of the library: a handshake
  that succeeds carries the permissions its own callback returned for a key.
\<close>

record ssh_world =
  sw_server :: ssh_server
  sw_db :: db
  sw_past :: "db list"
  sw_phase :: "nat \<Rightarrow> phase option"
  sw_answers :: "(string \<times> offered_key \<times> permissions) list"
  sw_tokens :: token_store

definition put_db :: "db \<Rightarrow> ssh_world \<Rightarrow> ssh_world" where
  "put_db d w = w\<lparr>sw_db := d, sw_past := d # sw_past w\<rparr>"

definition put_phase :: "nat \<Rightarrow> phase option \<Rightarrow> ssh_world \<Rightarrow> ssh_world" where
  "put_phase c ph w = w\<lparr>sw_phase := (sw_phase w)(c := ph)\<rparr>"

definition put_server :: "ssh_server \<Rightarrow> ssh_world \<Rightarrow> ssh_world" where
  "put_server sv w = w\<lparr>sw_server := sv\<rparr>"

lemmas put_defs = put_db_def put_phase_def put_server_def

inductive ssh_step :: "(int \<times> ssh_target) list \<Rightarrow> ssh_world \<Rightarrow> ssh_world \<Rightarrow> bool" for ups where
  other_writes: "ssh_step ups w (put_db d w)"
| accept: "sw_phase w c = None \<Longrightarrow> (port, up) \<in> set ups
    \<Longrightarrow> ssh_step ups w (put_phase c (Some (Handshaking up addr sid)) w)"
| offer: "sw_phase w c = Some (Handshaking up addr sid)
    \<Longrightarrow> public_key_callback (\<lambda>fp. key_get f fp (sw_db w)) now sid k (sv_pending (sw_server w)) = (r, p)
    \<Longrightarrow> ssh_step ups w (w\<lparr>sw_server := (sw_server w)\<lparr>sv_pending := p\<rparr>,
          sw_answers := (case r of Inl _ \<Rightarrow> sw_answers w | Inr perms \<Rightarrow> (sid, k, perms) # sw_answers w)\<rparr>)"
| prompt: "sw_phase w c = Some (Handshaking up addr sid)
    \<Longrightarrow> keyboard_interactive_callback auth_host (token_mint t1 t2 rnd) now sid
          (sv_pending (sw_server w), sw_tokens w) = (r, p, ts)
    \<Longrightarrow> ssh_step ups w (w\<lparr>sw_server := (sw_server w)\<lparr>sv_pending := p\<rparr>, sw_tokens := ts\<rparr>)"
| handshake_fails: "sw_phase w c = Some (Handshaking up addr sid)
    \<Longrightarrow> ssh_step ups w (put_phase c None w)"
| handshake: "sw_phase w c = Some (Handshaking up addr sid) \<Longrightarrow> (sid, k, perms) \<in> set (sw_answers w)
    \<Longrightarrow> sv = (sw_server w)\<lparr>sv_pending := (sv_pending (sw_server w))(sid := None)\<rparr>
    \<Longrightarrow> ssh_step ups w (put_phase c (Some (Registered up addr sid perms))
          (put_server (register_conn now c (st_port up) addr sv) w))"
| refuse: "sw_phase w c = Some (Registered up addr sid perms)
    \<Longrightarrow> authorise_conn (user_get g) (key_touch_last_used now tf) fwd (Some perms) addr up (sw_db w) = (Inl r, d)
    \<Longrightarrow> ssh_step ups w (put_phase c None (put_server (unregister_conn c (sw_server w)) (put_db d w)))"
| authorise: "sw_phase w c = Some (Registered up addr sid perms)
    \<Longrightarrow> authorise_conn (user_get g) (key_touch_last_used now tf) fwd (Some perms) addr up (sw_db w) = (Inr ac, d)
    \<Longrightarrow> ssh_step ups w (put_phase c (Some (Authorised sid ac)) (put_db d w))"
| attach: "sw_phase w c = Some (Authorised sid ac)
    \<Longrightarrow> ssh_step ups w (put_phase c (Some (Forwarding sid ac))
          (put_server (attach_identity c (us_id (ac_user ac)) (us_email (ac_user ac)) c (sw_server w)) w))"
| finish: "sw_phase w c = Some (Forwarding sid ac)
    \<Longrightarrow> ssh_step ups w (put_phase c None (put_server (unregister_conn c (sw_server w)) w))"
| stop: "shutdown in_time e (sw_server w) = (r, effects, sv) \<Longrightarrow> ssh_step ups w (put_server sv w)"

definition initial_world :: "db \<Rightarrow> ssh_world" where
  "initial_world d =
     \<lparr>sw_server = new_server, sw_db = d, sw_past = [d], sw_phase = (\<lambda>_. None), sw_answers = [],
      sw_tokens = (\<lambda>_. None)\<rparr>"

inductive ssh_reach :: "(int \<times> ssh_target) list \<Rightarrow> ssh_world \<Rightarrow> bool" for ups where
  start: "ssh_reach ups (initial_world d)"
| step: "ssh_reach ups w \<Longrightarrow> ssh_step ups w w' \<Longrightarrow> ssh_reach ups w'"

section \<open>Invariant\<close>

text \<open>What a connection that passed the role check stands for.\<close>

definition genuine :: "(int \<times> ssh_target) list \<Rightarrow> ssh_world \<Rightarrow> string \<Rightarrow> auth_conn \<Rightarrow> bool" where
  "genuine ups w sid ac \<longleftrightarrow>
     (\<exists>k perms. (sid, k, perms) \<in> set (sw_answers w) \<and> of_fingerprint k = ac_fingerprint ac)
     \<and> (\<exists>d \<in> set (sw_past w). key_owner d (ac_fingerprint ac) = Some (us_id (ac_user ac)))
     \<and> (\<exists>d \<in> set (sw_past w). user_get None (us_id (ac_user ac)) d = Inr (ac_user ac))
     \<and> roles_intersect (us_roles (ac_user ac)) (st_roles (ac_target ac))
     \<and> ac_target ac \<in> snd ` set ups"

definition answer_ok :: "db list \<Rightarrow> string \<times> offered_key \<times> permissions \<Rightarrow> bool" where
  "answer_ok past a \<longleftrightarrow> (case a of (sid, k, perms) \<Rightarrow>
     \<exists>uid. perms = Some [ext_user_id \<mapsto> itoa uid, ext_fingerprint \<mapsto> of_fingerprint k]
       \<and> (\<exists>d \<in> set past. key_owner d (of_fingerprint k) = Some uid))"

definition blank_entry :: "nat \<Rightarrow> session_entry \<Rightarrow> bool" where
  "blank_entry c e \<longleftrightarrow> sn_cancel e = None \<and> sn_close_conn e = Some c \<and> sn_email e = [] \<and> sn_user_id e = 0"

text \<open>What the registry holds for a connection, by the phase of its handler.\<close>

definition entry_ok :: "nat \<Rightarrow> phase option \<Rightarrow> session_entry option \<Rightarrow> bool" where
  "entry_ok c ph en \<longleftrightarrow>
     (case ph of
        Some (Registered up addr sid perms) \<Rightarrow> (\<exists>e. en = Some e \<and> blank_entry c e)
      | Some (Authorised sid ac) \<Rightarrow> (\<exists>e. en = Some e \<and> blank_entry c e)
      | Some (Forwarding sid ac) \<Rightarrow>
          (\<exists>e. en = Some e \<and> sn_cancel e = Some c \<and> sn_close_conn e = Some c
             \<and> sn_email e = us_email (ac_user ac) \<and> sn_user_id e = us_id (ac_user ac))
      | _ \<Rightarrow> en = None)"

definition phase_ok :: "(int \<times> ssh_target) list \<Rightarrow> ssh_world \<Rightarrow> phase option \<Rightarrow> bool" where
  "phase_ok ups w ph \<longleftrightarrow>
     (case ph of
        None \<Rightarrow> True
      | Some (Handshaking up addr sid) \<Rightarrow> up \<in> snd ` set ups
      | Some (Registered up addr sid perms) \<Rightarrow>
          up \<in> snd ` set ups \<and> (\<exists>k. (sid, k, perms) \<in> set (sw_answers w))
      | Some (Authorised sid ac) \<Rightarrow> genuine ups w sid ac
      | Some (Forwarding sid ac) \<Rightarrow> genuine ups w sid ac)"

definition ssh_inv :: "(int \<times> ssh_target) list \<Rightarrow> ssh_world \<Rightarrow> bool" where
  "ssh_inv ups w \<longleftrightarrow>
     distinct (map fst (sv_conns (sw_server w)))
     \<and> sw_db w \<in> set (sw_past w)
     \<and> (\<forall>a \<in> set (sw_answers w). answer_ok (sw_past w) a)
     \<and> (\<forall>c. phase_ok ups w (sw_phase w c))
     \<and> (\<forall>c. entry_ok c (sw_phase w c) (map_of (sv_conns (sw_server w)) c))"

lemma genuine_mono:
  "genuine ups w sid ac \<Longrightarrow> set (sw_answers w) \<subseteq> set (sw_answers w') \<Longrightarrow> set (sw_past w) \<subseteq> set (sw_past w')
   \<Longrightarrow> genuine ups w' sid ac"
  by (unfold genuine_def) blast

lemma phase_ok_mono:
  assumes "phase_ok ups w ph" and "set (sw_answers w) \<subseteq> set (sw_answers w')"
    and "set (sw_past w) \<subseteq> set (sw_past w')"
  shows "phase_ok ups w' ph"
  using assms genuine_mono [OF _ assms(2,3)]
  by (auto simp: phase_ok_def split: option.splits phase.splits)

lemma answer_ok_mono: "answer_ok past a \<Longrightarrow> set past \<subseteq> set past' \<Longrightarrow> answer_ok past' a"
  by (auto simp: answer_ok_def split: prod.splits)

text \<open>An invariant step, in the parts the rules need.\<close>

lemma ssh_invI:
  assumes "ssh_inv ups w"
    and "set (sw_answers w) \<subseteq> set (sw_answers w')" and "set (sw_past w) \<subseteq> set (sw_past w')"
    and "sw_db w' \<in> set (sw_past w')"
    and "\<And>a. a \<in> set (sw_answers w') \<Longrightarrow> a \<in> set (sw_answers w) \<or> answer_ok (sw_past w') a"
    and "\<And>c. sw_phase w' c = sw_phase w c \<or> phase_ok ups w' (sw_phase w' c)"
    and "distinct (map fst (sv_conns (sw_server w')))"
    and "\<And>c. entry_ok c (sw_phase w' c) (map_of (sv_conns (sw_server w')) c)"
  shows "ssh_inv ups w'"
proof -
  have "answer_ok (sw_past w') a" if "a \<in> set (sw_answers w')" for a
    using assms(1) assms(5) [OF that] answer_ok_mono [OF _ assms(3), of a] by (auto simp: ssh_inv_def)
  moreover have "phase_ok ups w' (sw_phase w' c)" for c
    using assms(1) assms(6) [of c] phase_ok_mono [OF _ assms(2,3)] by (auto simp: ssh_inv_def)
  ultimately show ?thesis using assms by (simp add: ssh_inv_def)
qed

text \<open>Registry operations, as maps.\<close>

lemma registry_maps [simp]:
  "map_of (sv_conns (register_conn_with now c port addr cl sv)) =
     (map_of (sv_conns sv))(c \<mapsto> \<lparr>sn_user_id = 0, sn_email = [], sn_port = port, sn_client_addr = addr,
        sn_connected_at = now, sn_cancel = None, sn_close_conn = cl\<rparr>)"
  "map_of (sv_conns (unregister_conn c sv)) = (map_of (sv_conns sv))(c := None)"
  "map_of (sv_conns (attach_identity c uid email cancel sv)) =
     (map_of (sv_conns sv))(c := map_option (\<lambda>e. e\<lparr>sn_user_id := uid, sn_email := email, sn_cancel := Some cancel\<rparr>)
        (map_of (sv_conns sv) c))"
  by (auto simp: register_conn_with_def unregister_conn_def attach_identity_def update_conv delete_conv
      map_of_map_entry fun_eq_iff split: option.split)

lemma registry_distinct [simp]:
  "distinct (map fst (sv_conns sv)) \<Longrightarrow> distinct (map fst (sv_conns (register_conn_with now c port addr cl sv)))"
  "distinct (map fst (sv_conns sv)) \<Longrightarrow> distinct (map fst (sv_conns (unregister_conn c sv)))"
  "distinct (map fst (sv_conns sv)) \<Longrightarrow> distinct (map fst (sv_conns (attach_identity c uid email cancel sv)))"
  by (simp_all add: register_conn_with_def unregister_conn_def attach_identity_def distinct_update
      distinct_delete distinct_map_entry)

lemma ssh_inv_start: "ssh_inv ups (initial_world d)"
  by (simp add: ssh_inv_def initial_world_def new_server_def phase_ok_def entry_ok_def)

lemma ssh_invD:
  assumes "ssh_inv ups w"
  shows "distinct (map fst (sv_conns (sw_server w)))" "sw_db w \<in> set (sw_past w)"
    "a \<in> set (sw_answers w) \<Longrightarrow> answer_ok (sw_past w) a" "phase_ok ups w (sw_phase w c)"
    "entry_ok c (sw_phase w c) (map_of (sv_conns (sw_server w)) c)"
  using assms by (simp_all add: ssh_inv_def)

text \<open>The role check lets through only what is genuine.\<close>

lemma authorised_genuine:
  assumes inv: "ssh_inv ups w" and "sw_phase w c = Some (Registered up addr sid perms)"
    and ok: "authorise_conn (user_get g) (key_touch_last_used now tf) fwd (Some perms) addr up (sw_db w) = (Inr ac, d)"
  shows "genuine ups w sid ac"
proof -
  from ssh_invD(4) [OF inv, of c] assms(2) obtain k where
    k: "(sid, k, perms) \<in> set (sw_answers w)" and up: "up \<in> snd ` set ups"
    by (auto simp: phase_ok_def)
  from ssh_invD(3) [OF inv k] obtain uid d' where
    perms: "perms = Some [ext_user_id \<mapsto> itoa uid, ext_fingerprint \<mapsto> of_fingerprint k]"
    and owner: "d' \<in> set (sw_past w)" "key_owner d' (of_fingerprint k) = Some uid"
    by (auto simp: answer_ok_def)
  from ok show ?thesis
  proof (rule sh.authorise_accepts)
    fix v m
    assume *: "Some perms = Some (Some m)" "atoi (ext_value m ext_user_id) = Some v"
      "ac_fingerprint ac = ext_value m ext_fingerprint" "user_get g v (sw_db w) = Inr (ac_user ac)"
      "us_id (ac_user ac) = v" "roles_intersect (us_roles (ac_user ac)) (st_roles up)" "ac_target ac = up"
    from *(1) perms have m: "m = [ext_user_id \<mapsto> itoa uid, ext_fingerprint \<mapsto> of_fingerprint k]" by simp
    from *(2,3) have "atoi (itoa uid) = Some v" and fp: "ac_fingerprint ac = of_fingerprint k"
      by (simp_all add: m ext_value_def ext_user_id_def ext_fingerprint_def)
    then have "uid = v" by (simp add: atoi_itoa_Some)
    moreover from *(4) have "user_get None v (sw_db w) = Inr (ac_user ac)"
      by (simp add: user_get_def query_one_def split: option.splits)
    ultimately show ?thesis
      using * fp k up owner ssh_invD(2) [OF inv] by (auto simp: genuine_def)
  qed
qed

text \<open>A step of one handler: it changes the phase and the registry entry of its connection only.\<close>

lemma ssh_inv_one:
  assumes "ssh_inv ups w"
    and "sw_phase w' = (sw_phase w)(c := ph)"
    and "map_of (sv_conns (sw_server w')) = (map_of (sv_conns (sw_server w)))(c := en)"
    and "sw_answers w' = sw_answers w" and "set (sw_past w) \<subseteq> set (sw_past w')" and "sw_db w' \<in> set (sw_past w')"
    and "distinct (map fst (sv_conns (sw_server w')))"
    and "phase_ok ups w' ph" and "entry_ok c ph en"
  shows "ssh_inv ups w'"
  using assms ssh_invD(5) [OF assms(1)] by (intro ssh_invI [OF assms(1)]) auto

lemma ssh_inv_same:
  assumes "ssh_inv ups w"
    and "sw_phase w' = sw_phase w" and "sv_conns (sw_server w') = sv_conns (sw_server w)"
    and "set (sw_answers w) \<subseteq> set (sw_answers w')" and "set (sw_past w) \<subseteq> set (sw_past w')"
    and "sw_db w' \<in> set (sw_past w')"
    and "\<And>a. a \<in> set (sw_answers w') \<Longrightarrow> a \<in> set (sw_answers w) \<or> answer_ok (sw_past w') a"
  shows "ssh_inv ups w'"
  using assms ssh_invD [OF assms(1)] by (intro ssh_invI [OF assms(1)]) auto

lemma ssh_inv_step:
  assumes step: "ssh_step ups w w'" and inv: "ssh_inv ups w"
  shows "ssh_inv ups w'"
proof -
  note I = ssh_invD [OF inv]
  note frame = put_defs register_conn_def
  from step show ?thesis
  proof cases
    case (other_writes d)
    then show ?thesis by (intro ssh_inv_same [OF inv]) (auto simp: frame)
  next
    case (accept c port up addr sid)
    have "phase_ok ups w' (Some (Handshaking up addr sid))" using accept(3) by (force simp: phase_ok_def)
    with accept I(1,2) I(5) [of c] show ?thesis
      by (intro ssh_inv_one [OF inv, of _ c]) (auto simp: frame entry_ok_def)
  next
    case (offer c up addr sid f now k r p)
    have "answer_ok (sw_past w) (sid, k, perms)" if "r = Inr perms" for perms
      by (rule sh.callback_accepts [OF offer(3) [unfolded that]]) (use I(2) in \<open>auto simp: answer_ok_def\<close>)
    with I(2) offer(1) show ?thesis
      by (intro ssh_inv_same [OF inv]) (auto split: sum.splits)
  next
    case (prompt c up addr sid)
    with I(2) show ?thesis by (intro ssh_inv_same [OF inv]) auto
  next
    case (handshake_fails c up addr sid)
    with I(1,2) I(5) [of c] show ?thesis
      by (intro ssh_inv_one [OF inv, of _ c]) (auto simp: frame phase_ok_def entry_ok_def)
  next
    case (handshake c up addr sid k perms sv now)
    have "phase_ok ups w (Some (Registered up addr sid perms))"
      using I(4) [of c] handshake(2,3) by (auto simp: phase_ok_def)
    then have "phase_ok ups w' (Some (Registered up addr sid perms))"
      by (rule phase_ok_mono) (simp_all add: handshake(1) frame)
    with handshake I(1,2) show ?thesis
      by (intro ssh_inv_one [OF inv, of _ c]) (auto simp: frame entry_ok_def blank_entry_def)
  next
    case (refuse c up addr sid perms g now tf fwd r d)
    with I(1,2) show ?thesis
      by (intro ssh_inv_one [OF inv, of _ c]) (auto simp: frame phase_ok_def entry_ok_def)
  next
    case (authorise c up addr sid perms g now tf fwd ac d)
    have "genuine ups w sid ac" by (rule authorised_genuine [OF inv authorise(2,3)])
    then have "genuine ups w' sid ac" by (rule genuine_mono) (auto simp: authorise(1) frame)
    moreover have "entry_ok c (Some (Authorised sid ac)) (map_of (sv_conns (sw_server w)) c)"
      using I(5) [of c] authorise(2) by (simp add: entry_ok_def)
    ultimately show ?thesis
      using authorise(1) I(1)
      by (intro ssh_inv_one [OF inv, of _ c _ "map_of (sv_conns (sw_server w)) c"]) (auto simp: frame phase_ok_def)
  next
    case (attach c sid ac)
    have "genuine ups w sid ac" using I(4) [of c] attach(2) by (simp add: phase_ok_def)
    then have "genuine ups w' sid ac" by (rule genuine_mono) (auto simp: attach(1) frame)
    with attach I(1,2) I(5) [of c] show ?thesis
      by (intro ssh_inv_one [OF inv, of _ c]) (auto simp: frame phase_ok_def entry_ok_def blank_entry_def)
  next
    case (finish c sid ac)
    with I(1,2) show ?thesis
      by (intro ssh_inv_one [OF inv, of _ c]) (auto simp: frame phase_ok_def entry_ok_def)
  next
    case (stop in_time e r effects sv)
    then have "sv_conns sv = sv_conns (sw_server w)" by (auto simp: shutdown_def)
    with stop I(2) show ?thesis by (intro ssh_inv_same [OF inv]) (auto simp: frame)
  qed
qed

lemma ssh_reach_inv: "ssh_reach ups w \<Longrightarrow> ssh_inv ups w"
  by (induction rule: ssh_reach.induct) (auto intro: ssh_inv_start ssh_inv_step)

section \<open>A handler that is not interrupted\<close>

text \<open>\<open>handle_conn\<close> is the run of the steps of one handler in a row.\<close>

lemma handle_conn_path:
  assumes "sw_phase w c = Some (Handshaking up addr sid)" and "(sid, k, perms) \<in> set (sw_answers w)"
    and "handle_conn (user_get g) (key_touch_last_used now tf) fwd t c addr up (Some (sid, Some perms))
           (sw_server w, sw_db w) = (out, sv, d)"
  obtains w' where "(ssh_step ups)\<^sup>*\<^sup>* w w'" and "sw_server w' = sv" and "sw_db w' = d"
    and "sw_phase w' = (sw_phase w)(c := map_option (Forwarding sid) out)"
proof -
  let ?sv = "(sw_server w)\<lparr>sv_pending := (sv_pending (sw_server w))(sid := None)\<rparr>"
  let ?w1 = "put_phase c (Some (Registered up addr sid perms))
      (put_server (register_conn t c (st_port up) addr ?sv) w)"
  have s1: "ssh_step ups w ?w1" by (rule ssh_step.handshake [OF assms(1,2) refl])
  have p1: "sw_phase ?w1 c = Some (Registered up addr sid perms)" by (simp add: put_defs)
  obtain r d' where a: "authorise_conn (user_get g) (key_touch_last_used now tf) fwd (Some perms) addr up (sw_db w)
      = (r, d')" by (cases "authorise_conn (user_get g) (key_touch_last_used now tf) fwd (Some perms) addr up (sw_db w)")
  then have a1: "authorise_conn (user_get g) (key_touch_last_used now tf) fwd (Some perms) addr up (sw_db ?w1)
      = (r, d')" by (simp add: put_defs)
  show thesis
  proof (cases r)
    case (Inl x)
    have "ssh_step ups ?w1 (put_phase c None (put_server (unregister_conn c (sw_server ?w1)) (put_db d' ?w1)))"
      by (rule ssh_step.refuse [OF p1 a1 [unfolded Inl]])
    with s1 have "(ssh_step ups)\<^sup>*\<^sup>* w (put_phase c None (put_server (unregister_conn c (sw_server ?w1)) (put_db d' ?w1)))"
      by (blast intro: converse_rtranclp_into_rtranclp r_into_rtranclp)
    then show thesis
      by (rule that) (use assms(3) a Inl in \<open>auto simp: handle_conn_def put_defs Let_def fun_eq_iff\<close>)
  next
    case (Inr ac)
    let ?w2 = "put_phase c (Some (Authorised sid ac)) (put_db d' ?w1)"
    let ?w3 = "put_phase c (Some (Forwarding sid ac))
          (put_server (attach_identity c (us_id (ac_user ac)) (us_email (ac_user ac)) c (sw_server ?w2)) ?w2)"
    have "ssh_step ups ?w1 ?w2" by (rule ssh_step.authorise [OF p1 a1 [unfolded Inr]])
    moreover have "sw_phase ?w2 c = Some (Authorised sid ac)" by (simp add: put_defs)
    then have "ssh_step ups ?w2 ?w3" by (rule ssh_step.attach)
    ultimately have "(ssh_step ups)\<^sup>*\<^sup>* w ?w3"
      using s1 by (blast intro: converse_rtranclp_into_rtranclp r_into_rtranclp)
    then show thesis
      by (rule that) (use assms(3) a Inr in \<open>auto simp: handle_conn_def put_defs Let_def fun_eq_iff\<close>)
  qed
qed

lemma ssh_reach_steps: "(ssh_step ups)\<^sup>*\<^sup>* w w' \<Longrightarrow> ssh_reach ups w \<Longrightarrow> ssh_reach ups w'"
  by (induction rule: rtranclp_induct) (auto intro: ssh_reach.step)

text \<open>A client with a registered key and an allowed role gets through.\<close>

lemma client_admitted:
  fixes k :: offered_key and rec :: key and u :: user
  assumes "ssh_reach ups w" and "sw_phase w c = None" and "(port, up) \<in> set ups"
    and key: "key_get None (of_fingerprint k) (sw_db w) = Inr rec" "ky_fingerprint rec = of_fingerprint k"
    and user: "user_get None (ky_user_id rec) (sw_db w) = Inr u"
    and "roles_intersect (us_roles u) (st_roles up)"
    and "of_fingerprint k \<noteq> []" and "- (2 ^ 63) \<le> ky_user_id rec" and "ky_user_id rec < 2 ^ 63"
  obtains w' ac where "ssh_reach ups w'" and "sw_phase w' = (sw_phase w)(c \<mapsto> Forwarding sid ac)"
    and "ac_user ac = u" and "ac_fingerprint ac = of_fingerprint k" and "ac_target ac = up"
proof -
  let ?w1 = "put_phase c (Some (Handshaking up [] sid)) w"
  let ?perms = "Some [ext_user_id \<mapsto> itoa (ky_user_id rec), ext_fingerprint \<mapsto> of_fingerprint k] :: permissions"
  let ?p = "(sv_pending (sw_server w))(sid := None)"
  let ?w2 = "?w1\<lparr>sw_server := (sw_server ?w1)\<lparr>sv_pending := ?p\<rparr>, sw_answers := (sid, k, ?perms) # sw_answers ?w1\<rparr>"
  have p1: "sw_phase ?w1 c = Some (Handshaking up [] sid)" by (simp add: put_defs)
  have "public_key_callback (\<lambda>fp. key_get None fp (sw_db ?w1)) 0 sid k (sv_pending (sw_server ?w1)) = (Inr ?perms, ?p)"
    using key by (simp add: public_key_callback_def Let_def put_defs)
  from ssh_step.offer [OF p1 this, of ups] have "ssh_step ups ?w1 ?w2" by simp
  then have r2: "ssh_reach ups ?w2"
    using assms(1) ssh_step.accept [OF assms(2,3)] by (blast intro: ssh_reach.step)
  obtain out sv d where h: "handle_conn (user_get None) (key_touch_last_used 0 no_fault) True 0 c [] up (Some (sid, Some ?perms))
      (sw_server ?w2, sw_db ?w2) = (out, sv, d)" by (metis prod_cases3)
  have "\<exists>ac. out = Some ac \<and> ac_user ac = u \<and> ac_fingerprint ac = of_fingerprint k \<and> ac_target ac = up"
    using h assms(6-10) by (auto simp: handle_conn_def authorise_conn_def conn_identity_def Let_def put_defs
        ext_value_def ext_user_id_def ext_fingerprint_def atoi_itoa split: prod.splits)
  then obtain ac where ac: "out = Some ac" "ac_user ac = u" "ac_fingerprint ac = of_fingerprint k" "ac_target ac = up"
    by blast
  have "sw_phase ?w2 c = Some (Handshaking up [] sid)" and "(sid, k, ?perms) \<in> set (sw_answers ?w2)"
    by (simp_all add: put_defs)
  then obtain w' where "(ssh_step ups)\<^sup>*\<^sup>* ?w2 w'" and "sw_server w' = sv" and "sw_db w' = d"
    and "sw_phase w' = (sw_phase ?w2)(c := map_option (Forwarding sid) out)"
    by (rule handle_conn_path [OF _ _ h])
  then have "ssh_reach ups w'" and "sw_phase w' = (sw_phase w)(c \<mapsto> Forwarding sid ac)"
    using r2 by (simp_all add: ac(1) put_defs ssh_reach_steps)
  then show thesis using ac(2-4) by (rule that)
qed

text \<open>The example: the key of the example database, offered on a port its owner may use.\<close>

definition example_upstreams_ssh :: "(int \<times> ssh_target) list" where
  "example_upstreams_ssh =
     [(2222, \<lparr>st_port = 2222, st_target = empty_url\<lparr>u_scheme := ''ssh'', u_host := ''box:22''\<rparr>, st_roles = [''dev'']\<rparr>)]"

lemma example_session:
  obtains w ac where "ssh_reach example_upstreams_ssh w"
    and "sw_phase w = [7 \<mapsto> Forwarding ''s1'' ac]" and "us_id (ac_user ac) = 1"
    and "us_email (ac_user ac) = ''ada@example.org''"
proof -
  let ?k = "\<lparr>of_fingerprint = ''SHA256:x'', of_type = ''ssh-ed25519'', of_blob = ''blob''\<rparr>"
  have "map_sum id (\<lambda>r. (ky_fingerprint r, ky_user_id r)) (key_get None (of_fingerprint ?k) example_key_db)
      = Inr (''SHA256:x'', 1)" by code_simp
  then obtain rec where key: "key_get None (of_fingerprint ?k) example_key_db = Inr rec"
    "ky_fingerprint rec = of_fingerprint ?k" "ky_user_id rec = 1"
    by (cases "key_get None (of_fingerprint ?k) example_key_db") auto
  have "map_sum id (\<lambda>u. (us_id u, roles_intersect (us_roles u) [''dev''], us_email u)) (user_get None 1 example_key_db)
      = Inr (1, True, ''ada@example.org'')" by code_simp
  then obtain u where user: "user_get None (ky_user_id rec) example_key_db = Inr u" "us_id u = 1"
    "roles_intersect (us_roles u) [''dev'']" "us_email u = ''ada@example.org''" using key(3)
    by (cases "user_get None 1 example_key_db") auto
  let ?up = "snd (hd example_upstreams_ssh)"
  have up: "(2222, ?up) \<in> set example_upstreams_ssh" "st_roles ?up = [''dev'']"
    by (simp_all add: example_upstreams_ssh_def)
  show thesis
    using client_admitted [OF ssh_reach.start [of _ example_key_db], of 7 2222 ?up example_upstreams_ssh ?k rec u "''s1''"]
      key user up that by (auto simp: initial_world_def)
qed

section \<open>Properties\<close>

text \<open>
  Only an authorised user reaches an upstream.  However handshakes, role changes, key changes and
  other connections interleave, when a connection is inside the forwarder the key its own handshake
  offered is the one it acts under, at some moment that key was registered to the user it acts for,
  at some moment the database held that user with the roles checked, one of these is allowed on the
  upstream, and the upstream is a configured one.
\<close>

theorem ssh_forward_authorised:
  assumes "ssh_reach ups w" and "sw_phase w c = Some (Forwarding sid ac)"
  shows "(\<exists>k perms. (sid, k, perms) \<in> set (sw_answers w) \<and> of_fingerprint k = ac_fingerprint ac)
         \<and> (\<exists>d \<in> set (sw_past w). key_owner d (ac_fingerprint ac) = Some (us_id (ac_user ac)))
         \<and> (\<exists>d \<in> set (sw_past w). user_get None (us_id (ac_user ac)) d = Inr (ac_user ac))
         \<and> set (us_roles (ac_user ac)) \<inter> set (st_roles (ac_target ac)) \<noteq> {}
         \<and> ac_target ac \<in> snd ` set ups"
proof -
  have g: "genuine ups w sid ac"
    using ssh_invD(4) [OF ssh_reach_inv [OF assms(1)], of c] assms(2) by (simp add: phase_ok_def)
  then have "roles_intersect (us_roles (ac_user ac)) (st_roles (ac_target ac))" by (simp add: genuine_def)
  then have "set (us_roles (ac_user ac)) \<inter> set (st_roles (ac_target ac)) \<noteq> {}"
    by (auto simp: roles_intersect_def list_ex_iff split: if_splits)
  with g show ?thesis by (simp add: genuine_def)
qed

lemma ssh_forward_authorised_witness:
  "\<exists>w ac. ssh_reach example_upstreams_ssh w \<and> sw_phase w 7 = Some (Forwarding ''s1'' ac)
     \<and> us_id (ac_user ac) = 1 \<and> set (us_roles (ac_user ac)) \<inter> set (st_roles (ac_target ac)) \<noteq> {}"
proof (rule example_session)
  fix w ac
  assume "ssh_reach example_upstreams_ssh w" and "sw_phase w = [7 \<mapsto> Forwarding ''s1'' ac]" and "us_id (ac_user ac) = 1"
  then show ?thesis using ssh_forward_authorised [of example_upstreams_ssh w 7 "''s1''" ac]
    by (intro exI [of _ w] exI [of _ ac]) auto
qed

lemma registered_entry:
  assumes "ssh_reach ups w"
  shows "(c, e) \<in> set (sv_conns (sw_server w)) \<longleftrightarrow> map_of (sv_conns (sw_server w)) c = Some e"
    and "entry_ok c (sw_phase w c) (map_of (sv_conns (sw_server w)) c)"
    and "distinct (map fst (sv_conns (sw_server w)))"
  using ssh_invD(1,5) [OF ssh_reach_inv [OF assms]] by simp_all

lemma forwarding_entry:
  assumes "ssh_reach ups w"
  shows "(\<exists>sid ac. sw_phase w c = Some (Forwarding sid ac) \<and> P (us_id (ac_user ac)) (us_email (ac_user ac))) \<longleftrightarrow>
    (\<exists>e. (c, e) \<in> set (sv_conns (sw_server w)) \<and> sn_cancel e \<noteq> None \<and> P (sn_user_id e) (sn_email e))"
  using registered_entry(1,2) [OF assms, of c]
  by (auto simp: entry_ok_def blank_entry_def split: option.splits phase.splits)

lemma set_map_filter: "y \<in> set (List.map_filter f xs) \<longleftrightarrow> (\<exists>x \<in> set xs. f x = Some y)"
  by (force simp: List.map_filter_def)

lemma entry_handles:
  assumes "ssh_reach ups w" and "(c, e) \<in> set (sv_conns (sw_server w))"
  shows "sn_close_conn e = Some c" and "sn_cancel e = None \<or> sn_cancel e = Some c"
  using registered_entry(1,2) [OF assms(1), of c] assms(2)
  by (auto simp: entry_ok_def blank_entry_def split: option.splits phase.splits)

lemma teardown_set:
  assumes "\<And>c e. (c, e) \<in> set es \<Longrightarrow> set (teardown (g e, h e)) = {CancelContext c, CloseConn c}"
  shows "set (concat (map teardown (map (\<lambda>(_, e). (g e, h e)) es)))
    = CancelContext ` fst ` set es \<union> CloseConn ` fst ` set es"
proof -
  have "set (concat (map teardown (map (\<lambda>(_, e). (g e, h e)) es)))
      = (\<Union>x\<in>set es. set (teardown (g (snd x), h (snd x))))" by (simp add: split_beta)
  also have "\<dots> = (\<Union>x\<in>set es. {CancelContext (fst x), CloseConn (fst x)})"
    using assms by (intro SUP_cong) auto
  also have "\<dots> = CancelContext ` fst ` set es \<union> CloseConn ` fst ` set es" by auto
  finally show ?thesis .
qed

text \<open>
  C32. Removing a user takes down exactly that user's sessions: the command cancels and closes every
  connection that is being forwarded for the user, touches no other, and reports their number.
\<close>

theorem force_close_exact:
  assumes "ssh_reach ups w" and "uid \<noteq> 0" and "force_close_by_user uid (sw_server w) = (n, effects)"
  defines "mine \<equiv> {c. \<exists>sid ac. sw_phase w c = Some (Forwarding sid ac) \<and> us_id (ac_user ac) = uid}"
  shows "set effects = CancelContext ` mine \<union> CloseConn ` mine \<and> n = card mine"
proof -
  let ?hit = "filter (\<lambda>(_, e). sn_cancel e \<noteq> None \<and> sn_user_id e = uid) (sv_conns (sw_server w))"
  have "c \<in> mine \<longleftrightarrow> (\<exists>e. (c, e) \<in> set ?hit)" for c
    unfolding mine_def using forwarding_entry [OF assms(1), of c "\<lambda>u _. u = uid"] by simp
  then have s: "mine = fst ` set ?hit" by (fastforce simp: image_iff)
  have "distinct (map fst ?hit)"
    using registered_entry(3) [OF assms(1)] by (simp add: distinct_map_filter)
  from distinct_card [OF this] have "card mine = length ?hit" by (simp only: s set_map length_map)
  then have "n = card mine"
    using assms(2,3) by (simp add: force_close_by_user_def force_close_def Let_def)
  have "set (concat (map teardown (map (\<lambda>(_, e). (sn_cancel e, sn_close_conn e)) ?hit)))
      = CancelContext ` mine \<union> CloseConn ` mine" unfolding s
  proof (rule teardown_set)
    show "set (teardown (sn_cancel e, sn_close_conn e)) = {CancelContext c, CloseConn c}"
      if "(c, e) \<in> set ?hit" for c e
      using that entry_handles [OF assms(1), of c e] by auto
  qed
  then have "set effects = CancelContext ` mine \<union> CloseConn ` mine"
    using assms(2,3) unfolding force_close_by_user_def force_close_def Let_def
    by (simp only: if_False prod.inject)
  with \<open>n = card mine\<close> show ?thesis by simp
qed

lemma force_close_exact_witness:
  "\<exists>w. ssh_reach example_upstreams_ssh w \<and> fst (force_close_by_user 1 (sw_server w)) = 1
     \<and> set (snd (force_close_by_user 1 (sw_server w))) = {CancelContext 7, CloseConn 7}"
proof (rule example_session)
  fix w ac
  assume w: "ssh_reach example_upstreams_ssh w" "sw_phase w = [7 \<mapsto> Forwarding ''s1'' ac]" "us_id (ac_user ac) = 1"
  then have "{c. \<exists>sid ac. sw_phase w c = Some (Forwarding sid ac) \<and> us_id (ac_user ac) = 1} = {7}" by auto
  with force_close_exact [OF w(1), where uid = 1 and n = "fst (force_close_by_user 1 (sw_server w))"
      and effects = "snd (force_close_by_user 1 (sw_server w))"] w(1)
  show ?thesis by (intro exI [of _ w]) (simp add: insert_commute)
qed

text \<open>
  Shutdown leaves no listener and no registered connection open: it closes every listener that
  was bound, and exactly the connections whose handshake has completed, authorised or not.
\<close>

theorem shutdown_closes:
  assumes "ssh_reach ups w" and "shutdown in_time e (sw_server w) = (r, effects, sv)"
  shows "{c. CloseConn c \<in> set effects} =
           {c. \<exists>ph. sw_phase w c = Some ph \<and> (\<forall>up addr sid. ph \<noteq> Handshaking up addr sid)}
         \<and> {p. CloseListener p \<in> set effects} = set (sv_listeners (sw_server w))
         \<and> sv_listeners sv = [] \<and> sv_closed sv \<and> (r = None \<longleftrightarrow> in_time)"
proof -
  have "c \<in> set (List.map_filter (sn_close_conn \<circ> snd) (sv_conns (sw_server w)))
      \<longleftrightarrow> (\<exists>x. (c, x) \<in> set (sv_conns (sw_server w)))" for c
    unfolding set_map_filter using entry_handles(1) [OF assms(1)] by force
  then have "CloseConn c \<in> set effects \<longleftrightarrow> (\<exists>x. (c, x) \<in> set (sv_conns (sw_server w)))" for c
    using assms(2) by (auto simp: shutdown_def image_iff)
  moreover have "(\<exists>x. (c, x) \<in> set (sv_conns (sw_server w))) \<longleftrightarrow>
      (\<exists>ph. sw_phase w c = Some ph \<and> (\<forall>up addr sid. ph \<noteq> Handshaking up addr sid))" for c
    using registered_entry(1,2) [OF assms(1), of c]
    by (auto simp: entry_ok_def blank_entry_def split: option.splits phase.splits)
  ultimately have "{c. CloseConn c \<in> set effects} =
      {c. \<exists>ph. sw_phase w c = Some ph \<and> (\<forall>up addr sid. ph \<noteq> Handshaking up addr sid)}"
    by blast
  moreover have "{p. CloseListener p \<in> set effects} = set (sv_listeners (sw_server w))"
    and "sv_listeners sv = [] \<and> sv_closed sv \<and> (r = None \<longleftrightarrow> in_time)"
    using assms(2) by (auto simp: shutdown_def split: if_splits)
  ultimately show ?thesis by simp
qed

lemma shutdown_closes_witness:
  "\<exists>w. ssh_reach example_upstreams_ssh w
     \<and> {c. CloseConn c \<in> set (fst (snd (shutdown True (Message []) (sw_server w))))} = {7}"
proof (rule example_session)
  fix w ac
  assume w: "ssh_reach example_upstreams_ssh w" "sw_phase w = [7 \<mapsto> Forwarding ''s1'' ac]" "us_id (ac_user ac) = 1"
  then have "{c. \<exists>ph. sw_phase w c = Some ph \<and> (\<forall>up addr sid. ph \<noteq> Handshaking up addr sid)} = {7}" by auto
  with shutdown_closes [OF w(1), where in_time = True and e = "Message []"
      and r = "fst (shutdown True (Message []) (sw_server w))"
      and effects = "fst (snd (shutdown True (Message []) (sw_server w)))"
      and sv = "snd (snd (shutdown True (Message []) (sw_server w)))"] w(1)
  show ?thesis by (intro exI [of _ w]) simp
qed

text \<open>
  A connection that is still in its handshake is not in the registry, so shutdown does not close it;
  the handler goes on until the client gives up.
\<close>

lemma shutdown_misses_handshake:
  "\<exists>w. ssh_reach example_upstreams_ssh w \<and> (\<exists>up addr sid. sw_phase w 7 = Some (Handshaking up addr sid))
     \<and> (\<forall>in_time e. CloseConn 7 \<notin> set (fst (snd (shutdown in_time e (sw_server w)))))"
proof -
  let ?up = "snd (hd example_upstreams_ssh)"
  let ?w = "put_phase 7 (Some (Handshaking ?up ''10.0.0.9'' ''s1'')) (initial_world example_db)"
  have "ssh_reach example_upstreams_ssh ?w"
    by (rule ssh_reach.step [OF ssh_reach.start ssh_step.accept])
      (auto simp: initial_world_def example_upstreams_ssh_def)
  moreover have "sv_conns (sw_server ?w) = []" by (simp add: put_defs initial_world_def new_server_def)
  ultimately show ?thesis
    by (intro exI [of _ ?w]) (auto simp: shutdown_def set_map_filter put_defs)
qed

end
