(* ===== verification/GoFiles.thy ===== *)
theory GoFiles
  imports Prelude
begin

text \<open>
  Files as the \<open>os\<close> package shows them: a map from paths to mode and contents.  Every call may fail,
  with the failure given as an input, and a write that fails may leave a partial file.
\<close>

record os_file =
  fl_mode :: int
  fl_content :: string

type_synonym file_system = "string \<Rightarrow> os_file option"

text \<open>The file modes 0600 and 0644.\<close>

abbreviation mode_600 :: int where "mode_600 \<equiv> 6 * 8 ^ 2"
abbreviation mode_644 :: int where "mode_644 \<equiv> 6 * 8 ^ 2 + 4 * 8 + 4"

text \<open>\<open>os.WriteFile\<close> truncates a file that exists and keeps its mode; the mode is for a new file.\<close>

definition write_file ::
    "(err \<times> string option) option \<Rightarrow> string \<Rightarrow> string \<Rightarrow> int \<Rightarrow> file_system \<Rightarrow> err option \<times> file_system" where
  "write_file fault path content mode fs =
     (let m = (case fs path of None \<Rightarrow> mode | Some f \<Rightarrow> fl_mode f)
      in case fault of
           None \<Rightarrow> (None, fs(path \<mapsto> \<lparr>fl_mode = m, fl_content = content\<rparr>))
         | Some (e, None) \<Rightarrow> (Some e, fs)
         | Some (e, Some part) \<Rightarrow> (Some e, fs(path \<mapsto> \<lparr>fl_mode = m, fl_content = part\<rparr>)))"

end
