(* ===== verification/SshCa.thy ===== *)
theory SshCa
  imports GoFiles "HOL-Library.Word"
begin

unbundle bit_operations_syntax

text \<open>
  \<open>internal/sshca\<close>: the key files of the SSH side, and the short-lived user certificates.

  The SSH and Ed25519 libraries are the record \<open>key_lib\<close>: parsing a private key file, generating a
  key pair from random bytes and writing its halves, and building signers.
\<close>

section \<open>Key files\<close>

record ('key, 'signer) key_lib =
  kl_parse :: "string \<Rightarrow> 'signer result"
  kl_generate :: "string \<Rightarrow> 'key result"
  kl_private_pem :: "'key \<Rightarrow> string result"
  kl_authorized_line :: "'key \<Rightarrow> string result"
  kl_signer :: "'key \<Rightarrow> 'signer result"

text \<open>What a start meets: the random bytes it reads, and the failures of the file system.\<close>

record io_fault =
  io_random :: string
  io_stat :: "err option"
  io_read :: "err option"
  io_mkdir :: "err option"
  io_write_key :: "(err \<times> string option) option"
  io_write_pub :: "(err \<times> string option) option"

definition no_io_fault :: io_fault where
  "no_io_fault = \<lparr>io_random = [], io_stat = None, io_read = None, io_mkdir = None, io_write_key = None, io_write_pub = None\<rparr>"

text \<open>\<open>generate\<close>; \<open>filepath.Dir\<close> is never empty, so the directory is always made.\<close>

definition generate_key ::
    "('key, 'signer) key_lib \<Rightarrow> io_fault \<Rightarrow> string \<Rightarrow> string \<Rightarrow> file_system \<Rightarrow> 'signer result \<times> file_system" where
  "generate_key lib f dir path fs =
     (case io_mkdir f of
        Some e \<Rightarrow> (Inl (Wrap (''sshca: mkdir '' @ dir) e), fs)
      | None \<Rightarrow>
     (case kl_generate lib (io_random f) of
        Inl e \<Rightarrow> (Inl (Wrap ''sshca: generate ed25519'' e), fs)
      | Inr k \<Rightarrow>
     (case kl_private_pem lib k of
        Inl e \<Rightarrow> (Inl (Wrap ''sshca: marshal private key'' e), fs)
      | Inr pem \<Rightarrow>
     (case write_file (io_write_key f) path pem mode_600 fs of
        (Some e, fs1) \<Rightarrow> (Inl (Wrap (''sshca: write '' @ path) e), fs1)
      | (None, fs1) \<Rightarrow>
     (case kl_authorized_line lib k of
        Inl e \<Rightarrow> (Inl (Wrap ''sshca: ssh.NewPublicKey'' e), fs1)
      | Inr line \<Rightarrow>
     (case write_file (io_write_pub f) (path @ ''.pub'') line mode_644 fs1 of
        (Some e, fs2) \<Rightarrow> (Inl (Wrap (''sshca: write '' @ path @ ''.pub'') e), fs2)
      | (None, fs2) \<Rightarrow>
     (case kl_signer lib k of
        Inl e \<Rightarrow> (Inl (Wrap ''sshca: signer from key'' e), fs2)
      | Inr s \<Rightarrow> (Inr s, fs2))))))))"

definition mode_too_permissive :: "int \<Rightarrow> bool" where
  "mode_too_permissive mode \<longleftrightarrow> mode AND NOT mode_600 \<noteq> 0"

text \<open>\<open>LoadOrGenerate\<close>; the first component tells whether it logs a warning about the mode.\<close>

definition load_or_generate ::
    "('key, 'signer) key_lib \<Rightarrow> io_fault \<Rightarrow> string \<Rightarrow> string \<Rightarrow> file_system
     \<Rightarrow> bool \<times> 'signer result \<times> file_system" where
  "load_or_generate lib f dir path fs =
     (if path = [] then (False, Inl (Message ''sshca: empty key path''), fs)
      else case io_stat f of
        Some e \<Rightarrow> (False, Inl (Wrap (''sshca: stat '' @ path) e), fs)
      | None \<Rightarrow>
     (case fs path of
        None \<Rightarrow> (False, generate_key lib f dir path fs)
      | Some file \<Rightarrow>
          (mode_too_permissive (fl_mode file),
           (case io_read f of
              Some e \<Rightarrow> Inl (Wrap (''sshca: read '' @ path) e)
            | None \<Rightarrow>
           (case kl_parse lib (fl_content file) of
              Inl e \<Rightarrow> Inl (Wrap (''sshca: parse '' @ path) e)
            | Inr s \<Rightarrow> Inr s)), fs)))"

section \<open>Certificates\<close>

definition valid_before_skew :: duration where
  "valid_before_skew = seconds 30"

record certificate =
  ce_user_cert :: bool
  ce_key_id :: string
  ce_principals :: "string list"
  ce_valid_after :: "64 word"
  ce_valid_before :: "64 word"
  ce_extensions :: "(string \<times> string) list"

text \<open>
  The ephemeral key, its two forms, and the signatures, by their errors; \<open>cancelled\<close> is the error of
  the context.
\<close>

record mint_fault =
  mf_generate :: "err option"
  mf_signer :: "err option"
  mf_public :: "err option"
  mf_sign :: "err option"
  mf_cert_signer :: "err option"

definition no_mint_fault :: mint_fault where
  "no_mint_fault = \<lparr>mf_generate = None, mf_signer = None, mf_public = None, mf_sign = None, mf_cert_signer = None\<rparr>"

definition user_certificate :: "string \<Rightarrow> duration \<Rightarrow> gotime \<Rightarrow> certificate" where
  "user_certificate who ttl t =
     \<lparr>ce_user_cert = True, ce_key_id = who, ce_principals = [who],
      ce_valid_after = word_of_int (unix (t - valid_before_skew)),
      ce_valid_before = word_of_int (unix (t + ttl)),
      ce_extensions = [(''permit-pty'', [])]\<rparr>"

definition cert_mint ::
    "mint_fault \<Rightarrow> err option \<Rightarrow> bool \<Rightarrow> string \<Rightarrow> duration \<Rightarrow> gotime \<Rightarrow> certificate result" where
  "cert_mint f cancelled has_ca who ttl now =
     (if \<not> has_ca then Inl (Sentinel InvalidCA)
      else if who = [] then Inl (Message ''sshca: empty principal'')
      else if ttl \<le> 0 then Inl (Message ''sshca: ttl must be > 0'')
      else case cancelled of Some e \<Rightarrow> Inl e
      | None \<Rightarrow>
     (case mf_generate f of Some e \<Rightarrow> Inl (Wrap ''sshca: generate ephemeral key'' e)
      | None \<Rightarrow>
     (case mf_signer f of Some e \<Rightarrow> Inl (Wrap ''sshca: new ephemeral signer'' e)
      | None \<Rightarrow>
     (case mf_public f of Some e \<Rightarrow> Inl (Wrap ''sshca: ssh public key'' e)
      | None \<Rightarrow>
     (case mf_sign f of Some e \<Rightarrow> Inl (Wrap ''sshca: sign cert'' e)
      | None \<Rightarrow>
     (case mf_cert_signer f of Some e \<Rightarrow> Inl (Wrap ''sshca: new cert signer'' e)
      | None \<Rightarrow> Inr (user_certificate who ttl now)))))))"

text \<open>A verifier accepts a certificate at a time within its window, the end excluded.\<close>

definition cert_valid_at :: "certificate \<Rightarrow> gotime \<Rightarrow> bool" where
  "cert_valid_at c t \<longleftrightarrow> uint (ce_valid_after c) \<le> unix t \<and> unix t < uint (ce_valid_before c)"

section \<open>Properties\<close>

lemma cert_mint_Inr:
  "cert_mint f cancelled has_ca who ttl now = Inr c \<Longrightarrow>
     has_ca \<and> who \<noteq> [] \<and> 0 < ttl \<and> c = user_certificate who ttl now"
  by (auto simp: cert_mint_def split: if_splits option.splits)

lemma uint_unix:
  assumes "0 \<le> t" and "t < 2 ^ 63"
  shows "uint (word_of_int (unix t) :: 64 word) = unix t"
proof -
  have "0 \<le> unix t" using assms by (simp add: unix_def)
  moreover have "unix t \<le> t" using assms unfolding unix_def by simp
  ultimately show ?thesis using assms by (simp add: uint_word_of_int)
qed

text \<open>
  C33. A certificate speaks for one principal only and not for long: it names whom it was
  asked for and nothing else, permits a terminal only, is accepted from half a minute before it is
  made until the lifetime has passed, and is refused before and after.
\<close>

theorem cert_mint_window:
  assumes "cert_mint f cancelled has_ca who ttl now = Inr c"
    and "valid_before_skew \<le> now" and "now + ttl < 2 ^ 63"
  shows "ce_principals c = [who] \<and> ce_key_id c = who \<and> who \<noteq> [] \<and> ce_user_cert c
         \<and> ce_extensions c = [(''permit-pty'', [])]
         \<and> (cert_valid_at c t \<longleftrightarrow> unix (now - valid_before_skew) \<le> unix t \<and> unix t < unix (now + ttl))
         \<and> (now - valid_before_skew \<le> t \<and> t \<le> now + ttl - nanos_per_sec \<longrightarrow> cert_valid_at c t)
         \<and> (now + ttl \<le> t \<longrightarrow> \<not> cert_valid_at c t)"
proof -
  from cert_mint_Inr [OF assms(1)]
  have c: "c = user_certificate who ttl now" and ttl: "0 < ttl" and p: "who \<noteq> []" by auto
  have skew: "0 \<le> now - valid_before_skew" "0 \<le> now"
    using assms(2) by (simp_all add: valid_before_skew_def seconds_def)
  have valid: "cert_valid_at c t \<longleftrightarrow> unix (now - valid_before_skew) \<le> unix t \<and> unix t < unix (now + ttl)"
    using uint_unix [of "now - valid_before_skew"] uint_unix [of "now + ttl"] skew ttl assms(3)
    by (simp add: c cert_valid_at_def user_certificate_def valid_before_skew_def seconds_def)
  moreover have "cert_valid_at c t" if "now - valid_before_skew \<le> t" "t \<le> now + ttl - nanos_per_sec"
  proof -
    have "unix t \<le> unix (now + ttl - nanos_per_sec)" using that(2) by (rule unix_mono)
    also have "\<dots> = unix (now + ttl) - 1"
      using div_mult_self1 [of nanos_per_sec "now + ttl" "-1"] by (simp add: unix_def)
    finally show ?thesis using valid unix_mono [OF that(1)] by simp
  qed
  moreover have "\<not> cert_valid_at c t" if "now + ttl \<le> t"
    using valid unix_mono [OF that] by simp
  ultimately show ?thesis using p by (simp add: c user_certificate_def)
qed

lemma cert_mint_window_witness:
  "\<not> cert_valid_at (user_certificate ''ada@example.org'' (seconds 120) (seconds 1700000000)) (seconds 1700000120)"
proof -
  have "cert_mint no_mint_fault None True ''ada@example.org'' (seconds 120) (seconds 1700000000) =
      Inr (user_certificate ''ada@example.org'' (seconds 120) (seconds 1700000000))"
    by (simp add: cert_mint_def no_mint_fault_def seconds_def)
  from cert_mint_window [OF this] show ?thesis
    by (simp add: seconds_def valid_before_skew_def)
qed

text \<open>
  C34. The proxy keeps its key: when the file is missing a key is generated, and the start that
  follows, with nothing else written to the file and whatever random bytes it would draw, loads the very
  signer the first start used, with no warning about its mode.  A key that is there is never replaced,
  whatever goes wrong.
\<close>

theorem key_survives_restart:
  assumes "\<And>k pem. kl_private_pem lib k = Inr pem \<Longrightarrow> kl_parse lib pem = kl_signer lib k"
    and "fs path = None" and "load_or_generate lib f dir path fs = (warned, Inr s, fs')"
    and "io_stat g = None" and "io_read g = None"
  shows "load_or_generate lib g dir path fs' = (False, Inr s, fs')
         \<and> (\<forall>h fs''. fs'' path \<noteq> None \<longrightarrow> snd (snd (load_or_generate lib h dir path fs'')) = fs'')"
proof -
  have "path \<noteq> path @ ''.pub''" by simp
  have gen: "path \<noteq> []" "generate_key lib f dir path fs = (Inr s, fs')"
    using assms(2,3) by (auto simp: load_or_generate_def split: if_splits option.splits)
  then obtain k pem where "kl_private_pem lib k = Inr pem" "kl_signer lib k = Inr s"
    "fs' path = Some \<lparr>fl_mode = mode_600, fl_content = pem\<rparr>"
    using assms(2)
    by (auto simp: generate_key_def write_file_def Let_def split: option.splits sum.splits prod.splits if_splits)
  then have "load_or_generate lib g dir path fs' = (False, Inr s, fs')"
    using gen(1) assms(1,4,5) by (simp add: load_or_generate_def mode_too_permissive_def)
  moreover have "snd (snd (load_or_generate lib h dir path fs'')) = fs''" if "fs'' path \<noteq> None" for h fs''
    using that by (auto simp: load_or_generate_def split: option.split)
  ultimately show ?thesis by blast
qed

text \<open>
  A library whose private key is its random bytes: the file holds them after a tag.
\<close>

definition example_key_lib :: "(string, string) key_lib" where
  "example_key_lib =
     \<lparr>kl_parse = (\<lambda>s. case s of [] \<Rightarrow> Inl (Message ''ssh: no key found'') | c # cs \<Rightarrow> Inr cs),
      kl_generate = Inr, kl_private_pem = (\<lambda>k. Inr (CHR ''P'' # k)),
      kl_authorized_line = (\<lambda>k. Inr (''ssh-ed25519 '' @ k)), kl_signer = Inr\<rparr>"

definition first_start :: io_fault where
  "first_start = no_io_fault\<lparr>io_random := ''k1''\<rparr>"

definition second_start :: io_fault where
  "second_start = no_io_fault\<lparr>io_random := ''k2''\<rparr>"

lemma key_survives_restart_witness:
  "let (_, r, fs) = load_or_generate example_key_lib first_start ''/data/ssh'' ''/data/ssh/ca'' (\<lambda>_. None)
   in r = Inr ''k1'' \<and> fst (snd (load_or_generate example_key_lib second_start ''/data/ssh'' ''/data/ssh/ca'' fs)) = r
      \<and> fst (snd (load_or_generate example_key_lib second_start ''/data/ssh'' ''/data/ssh/ca'' (\<lambda>_. None))) \<noteq> r"
proof -
  let ?r = "load_or_generate example_key_lib first_start ''/data/ssh'' ''/data/ssh/ca'' (\<lambda>_. None)"
  have "fst (snd ?r) = Inr ''k1''" and "\<not> fst ?r"
    and new: "fst (snd (load_or_generate example_key_lib second_start ''/data/ssh'' ''/data/ssh/ca'' (\<lambda>_. None)))
      = Inr ''k2''" by code_simp+
  then obtain fs where r: "?r = (False, Inr ''k1'', fs)" by (cases ?r) auto
  have "load_or_generate example_key_lib second_start ''/data/ssh'' ''/data/ssh/ca'' fs = (False, Inr ''k1'', fs)"
    by (rule key_survives_restart [OF _ _ r, THEN conjunct1])
      (auto simp: example_key_lib_def second_start_def no_io_fault_def)
  with r new show ?thesis by simp
qed

text \<open>
  A generation that fails at the public half leaves the private one: the next start succeeds and the
  public file, which the operator is to copy, is still missing.
\<close>

lemma public_half_stays_missing:
  "let (_, r, fs) = load_or_generate example_key_lib (first_start\<lparr>io_write_pub := Some (Message ''disk full'', None)\<rparr>)
         ''/data/ssh'' ''/data/ssh/ca'' (\<lambda>_. None);
       (_, r', fs') = load_or_generate example_key_lib second_start ''/data/ssh'' ''/data/ssh/ca'' fs
   in isl r \<and> r' = Inr ''k1'' \<and> fs' ''/data/ssh/ca.pub'' = None"
  by code_simp

end
