(* ===== verification/Forward.thy ===== *)
theory Forward
  imports SshServer SshCa "HOL-Library.Sublist"
begin

text \<open>
  \<open>internal/sshproxy/forward.go\<close>: opening the connection to the upstream as the user, what is
  forwarded between the two ends and what is declined, and the teardown of one channel, whose six
  goroutines are a step relation.

  The SSH library is outside: the outcomes of dialling, of the handshake, of opening and accepting a
  channel are arguments; what the peers send, answer and take is steps of the peers.  Of the library
  the steps use what it documents: \<open>SendRequest\<close> waits for the answer if one is wanted, a write waits
  for the peer's window, and both fail once the peer's channel is closed.
\<close>

section \<open>Opening the upstream connection\<close>

definition dial_timeout :: duration where
  "dial_timeout = seconds 10"

definition cert_ttl :: duration where
  "cert_ttl = seconds 120"

record client_config =
  cc_user :: string
  cc_cert :: certificate
  cc_timeout :: duration
  cc_crypto :: crypto_algs

definition upstream_client_config :: "string \<Rightarrow> certificate \<Rightarrow> client_config" where
  "upstream_client_config who cert =
     \<lparr>cc_user = who, cc_cert = cert, cc_timeout = dial_timeout,
      cc_crypto =
        \<lparr>ca_key_exchanges =
           [''sntrup761x25519-sha512@openssh.com'', ''curve25519-sha256'', ''curve25519-sha256@libssh.org''],
         ca_ciphers =
           [''chacha20-poly1305@openssh.com'', ''aes256-gcm@openssh.com'', ''aes128-gcm@openssh.com''],
         ca_macs = [''hmac-sha2-256-etm@openssh.com'', ''hmac-sha2-512-etm@openssh.com'']\<rparr>\<rparr>"

text \<open>
  \<open>Handle\<close> until both connections stand: the configuration and the address of the client, or the
  error it returns.  \<open>dial\<close> and \<open>shake\<close> are the errors of the two network calls.
\<close>

definition open_upstream ::
    "mint_fault \<Rightarrow> err option \<Rightarrow> gotime \<Rightarrow> (string \<Rightarrow> err option) \<Rightarrow> (string \<Rightarrow> client_config \<Rightarrow> err option)
     \<Rightarrow> auth_conn \<Rightarrow> (client_config \<times> string) result" where
  "open_upstream f cancelled now dial shake ac =
     (let who = us_email (ac_user ac); addr = u_host (st_target (ac_target ac))
      in if who = [] then
           Inl (Message (''sshproxy: empty user email '' @ em_dash @ '' refusing to mint upstream cert without principal''))
         else case cert_mint f cancelled True who cert_ttl now of
           Inl e \<Rightarrow> Inl (Wrap ''mint upstream cert'' e)
         | Inr cert \<Rightarrow>
        (case dial addr of
           Some e \<Rightarrow> Inl (Wrap ''dial upstream'' e)
         | None \<Rightarrow>
        (let cfg = upstream_client_config who cert
         in case shake addr cfg of
              Some e \<Rightarrow> Inl (Wrap ''upstream handshake'' e)
            | None \<Rightarrow> Inr (cfg, addr))))"

section \<open>Requests and channels\<close>

record chan_request =
  cr_type :: string
  cr_want_reply :: bool
  cr_payload :: string

datatype open_failure = OpenRefused nat string | OpenFailed err

datatype open_action =
    RejectChannel nat string
  | CloseUpstreamChannel
  | StartProxy

definition unknown_channel_type :: nat where "unknown_channel_type = 3"
definition connection_failed :: nat where "connection_failed = 2"

definition forwarded_type :: "string \<Rightarrow> bool" where
  "forwarded_type ch_type \<longleftrightarrow> ch_type = ''session'' \<or> ch_type = ''direct-tcpip''"

text \<open>\<open>handleChannel\<close>; \<open>opening\<close> is the failure to open the channel upstream, \<open>accepting\<close> that of accepting it.\<close>

definition handle_channel :: "string \<Rightarrow> open_failure option \<Rightarrow> err option \<Rightarrow> open_action" where
  "handle_channel ch_type opening accepting =
     (if \<not> forwarded_type ch_type
      then RejectChannel unknown_channel_type ''channel type not supported''
      else case opening of
        Some (OpenRefused reason msg) \<Rightarrow> RejectChannel reason msg
      | Some (OpenFailed e) \<Rightarrow> RejectChannel connection_failed ''upstream rejected channel''
      | None \<Rightarrow> (case accepting of Some e \<Rightarrow> CloseUpstreamChannel | None \<Rightarrow> StartProxy))"

text \<open>
  \<open>forwardGlobalRequests\<close>: the requests sent on, and the replies given, in order, until the far side
  fails.
\<close>

datatype global_action = SendOn chan_request | Answer bool string

definition answer_if :: "chan_request \<Rightarrow> bool \<Rightarrow> string \<Rightarrow> global_action list" where
  "answer_if r ok payload = (if cr_want_reply r then [Answer ok payload] else [])"

definition reverse_forward :: "chan_request \<Rightarrow> bool" where
  "reverse_forward r \<longleftrightarrow> cr_type r = ''tcpip-forward'' \<or> cr_type r = ''cancel-tcpip-forward''"

fun forward_global_requests ::
    "(chan_request \<Rightarrow> (bool \<times> string) result) \<Rightarrow> chan_request list \<Rightarrow> global_action list" where
  "forward_global_requests send [] = []"
| "forward_global_requests send (r # rs) =
     (if reverse_forward r
      then answer_if r False [] @ forward_global_requests send rs
      else case send r of
        Inl e \<Rightarrow> SendOn r # answer_if r False []
      | Inr (ok, payload) \<Rightarrow> SendOn r # answer_if r ok payload @ forward_global_requests send rs)"

definition agent_request :: "chan_request \<Rightarrow> bool" where
  "agent_request r \<longleftrightarrow> cr_type r = ''auth-agent-req@openssh.com''"

section \<open>One channel\<close>

text \<open>
  The state of \<open>proxyChannel\<close>.  Of each peer: the requests and bytes it has sent that no goroutine has
  taken, whether it has sent end-of-file, the bytes it is ready to take (its window), whether it is gone,
  so that sending to it fails (\<open>left\<close>), and whether the end of its channel has come in, so that reading
  and waiting for it end (\<open>closed\<close>).  A channel that closes is both; when a connection breaks the first
  comes before the second.  Of the goroutines: where the two request loops are, which copies have
  returned, and the stage of the teardown.  Then what has been delivered: requests and bytes to the
  client, requests and bytes to the upstream, and the replies.  The fields \<open>sent\<close> are history:
  everything the peer has sent so far.

  The client's request loop holds the reply lock from \<open>Forwarding\<close> until it has replied.
\<close>

datatype request_loop =
    Waiting
  | Taken chan_request
  | Forwarding chan_request
  | AwaitingUpstream chan_request
  | Answered chan_request bool
  | LoopDone

datatype relay_loop =
    RelayIdle
  | AwaitingClient chan_request
  | ClientAnswered chan_request bool
  | RelayDone

datatype stage = AwaitUpstream | DrainUpstream | Closing | AwaitDrain | Returned

record chan_state =
  up_reqs :: "chan_request list"
  up_out :: string
  up_err :: string
  up_eof :: bool
  up_window :: nat
  up_left :: bool
  up_closed :: bool
  cl_reqs :: "chan_request list"
  cl_out :: string
  cl_err :: string
  cl_eof :: bool
  cl_window :: nat
  cl_left :: bool
  cl_closed :: bool
  req_loop :: request_loop
  up_loop :: relay_loop
  out_done :: bool
  err_done :: bool
  in_done :: bool
  in_err_done :: bool
  chan_stage :: stage
  to_client_reqs :: "chan_request list"
  to_client_out :: string
  to_client_err :: string
  to_up_reqs :: "chan_request list"
  to_up_out :: string
  to_up_err :: string
  to_up_eof :: bool
  replies :: "(chan_request \<times> bool) list"
  up_replies :: "(chan_request \<times> bool) list"
  handled :: "chan_request list"
  sent_reqs :: "chan_request list"
  sent_out :: string
  sent_err :: string
  sent_cl_reqs :: "chan_request list"

definition chan_start :: chan_state where
  "chan_start =
     \<lparr>up_reqs = [], up_out = [], up_err = [], up_eof = False, up_window = 0, up_left = False, up_closed = False,
      cl_reqs = [], cl_out = [], cl_err = [], cl_eof = False, cl_window = 0, cl_left = False, cl_closed = False,
      req_loop = Waiting, up_loop = RelayIdle, out_done = False, err_done = False, in_done = False,
      in_err_done = False, chan_stage = AwaitUpstream,
      to_client_reqs = [], to_client_out = [], to_client_err = [], to_up_reqs = [], to_up_out = [],
      to_up_err = [], to_up_eof = False, replies = [], up_replies = [], handled = [],
      sent_reqs = [], sent_out = [], sent_err = [], sent_cl_reqs = []\<rparr>"

fun holds_lock :: "request_loop \<Rightarrow> bool" where
  "holds_lock (Forwarding r) = True"
| "holds_lock (AwaitingUpstream r) = True"
| "holds_lock (Answered r ok) = True"
| "holds_lock _ = False"

definition past_close :: "chan_state \<Rightarrow> bool" where
  "past_close s \<longleftrightarrow> chan_stage s = AwaitDrain \<or> chan_stage s = Returned"

text \<open>Sending to the client fails: it is gone, has closed the channel, or the proxy has.\<close>

definition client_deaf :: "chan_state \<Rightarrow> bool" where
  "client_deaf s \<longleftrightarrow> cl_left s \<or> cl_closed s \<or> past_close s"

text \<open>
  What the peers do.  After its close a peer sends nothing and answers nothing.  \<open>up_breaks\<close> and
  \<open>client_breaks\<close> are the loss of the connection before its end has come in; \<open>client_acks\<close> is the
  client's answer to the close of the proxy, \<open>client_leaves\<close> a close of its own.
\<close>

inductive peer_step :: "chan_state \<Rightarrow> chan_state \<Rightarrow> bool" where
  up_request: "\<not> up_closed s
    \<Longrightarrow> peer_step s (s\<lparr>up_reqs := up_reqs s @ [r], sent_reqs := sent_reqs s @ [r]\<rparr>)"
| up_writes: "\<not> up_closed s \<Longrightarrow> \<not> up_eof s
    \<Longrightarrow> peer_step s (s\<lparr>up_out := up_out s @ b, sent_out := sent_out s @ b\<rparr>)"
| up_writes_err: "\<not> up_closed s \<Longrightarrow> \<not> up_eof s
    \<Longrightarrow> peer_step s (s\<lparr>up_err := up_err s @ b, sent_err := sent_err s @ b\<rparr>)"
| up_answers: "req_loop s = AwaitingUpstream r \<Longrightarrow> \<not> up_closed s
    \<Longrightarrow> peer_step s (s\<lparr>req_loop := Answered r ok\<rparr>)"
| up_takes: "peer_step s (s\<lparr>up_window := up_window s + n\<rparr>)"
| up_ends: "peer_step s (s\<lparr>up_eof := True\<rparr>)"
| up_breaks: "peer_step s (s\<lparr>up_left := True\<rparr>)"
| up_closes: "peer_step s (s\<lparr>up_left := True, up_closed := True\<rparr>)"
| client_request: "\<not> cl_closed s
    \<Longrightarrow> peer_step s (s\<lparr>cl_reqs := cl_reqs s @ [r], sent_cl_reqs := sent_cl_reqs s @ [r]\<rparr>)"
| client_writes: "\<not> cl_closed s \<Longrightarrow> \<not> cl_eof s \<Longrightarrow> peer_step s (s\<lparr>cl_out := cl_out s @ b\<rparr>)"
| client_writes_err: "\<not> cl_closed s \<Longrightarrow> \<not> cl_eof s \<Longrightarrow> peer_step s (s\<lparr>cl_err := cl_err s @ b\<rparr>)"
| client_answers: "up_loop s = AwaitingClient r \<Longrightarrow> \<not> cl_closed s
    \<Longrightarrow> peer_step s (s\<lparr>up_loop := ClientAnswered r ok\<rparr>)"
| client_takes: "peer_step s (s\<lparr>cl_window := cl_window s + n\<rparr>)"
| client_ends: "peer_step s (s\<lparr>cl_eof := True\<rparr>)"
| client_breaks: "\<not> past_close s \<Longrightarrow> peer_step s (s\<lparr>cl_left := True\<rparr>)"
| client_leaves: "\<not> past_close s \<Longrightarrow> peer_step s (s\<lparr>cl_left := True, cl_closed := True\<rparr>)"
| client_acks: "past_close s \<Longrightarrow> peer_step s (s\<lparr>cl_closed := True\<rparr>)"

text \<open>
  What the goroutines do.  A request that wants a reply parks its loop, with the reply lock held for one
  of the client, until the peer answers or its channel closes; a byte is written when the window has
  room.  A request or a write to a peer that is gone fails, a write that waits for room when the channel
  closes; the copy loops end at the first failure, the request loops go on.
\<close>

inductive proxy_step :: "chan_state \<Rightarrow> chan_state \<Rightarrow> bool" where
  take_request: "req_loop s = Waiting \<Longrightarrow> cl_reqs s = r # rs
    \<Longrightarrow> proxy_step s (s\<lparr>cl_reqs := rs, req_loop := Taken r\<rparr>)"
| lock_reply: "req_loop s = Taken r
    \<Longrightarrow> proxy_step s (s\<lparr>req_loop := Forwarding r\<rparr>)"
| decline_agent: "req_loop s = Forwarding r \<Longrightarrow> agent_request r
    \<Longrightarrow> proxy_step s (s\<lparr>req_loop := Answered r False\<rparr>)"
| forward_request: "req_loop s = Forwarding r \<Longrightarrow> \<not> agent_request r \<Longrightarrow> \<not> up_left s
    \<Longrightarrow> proxy_step s (s\<lparr>req_loop := (if cr_want_reply r then AwaitingUpstream r else Answered r False),
          to_up_reqs := to_up_reqs s @ [r]\<rparr>)"
| forward_fails: "req_loop s = Forwarding r \<Longrightarrow> \<not> agent_request r \<Longrightarrow> up_left s
    \<Longrightarrow> proxy_step s (s\<lparr>req_loop := Answered r False\<rparr>)"
| forward_unanswered: "req_loop s = AwaitingUpstream r \<Longrightarrow> up_closed s
    \<Longrightarrow> proxy_step s (s\<lparr>req_loop := Answered r False\<rparr>)"
| reply: "req_loop s = Answered r ok
    \<Longrightarrow> proxy_step s (s\<lparr>req_loop := Waiting, handled := handled s @ [r],
          replies := replies s @ (if cr_want_reply r \<and> \<not> past_close s then [(r, ok)] else [])\<rparr>)"
| loop_ends: "req_loop s = Waiting \<Longrightarrow> cl_reqs s = [] \<Longrightarrow> cl_closed s
    \<Longrightarrow> proxy_step s (s\<lparr>req_loop := LoopDone\<rparr>)"
| relay_request: "up_loop s = RelayIdle \<Longrightarrow> up_reqs s = r # rs \<Longrightarrow> \<not> client_deaf s
    \<Longrightarrow> proxy_step s (s\<lparr>up_reqs := rs, to_client_reqs := to_client_reqs s @ [r],
          up_loop := (if cr_want_reply r then AwaitingClient r else RelayIdle)\<rparr>)"
| relay_fails: "up_loop s = RelayIdle \<Longrightarrow> up_reqs s = r # rs \<Longrightarrow> client_deaf s
    \<Longrightarrow> proxy_step s (s\<lparr>up_reqs := rs,
          up_replies := up_replies s @ (if cr_want_reply r \<and> \<not> up_closed s then [(r, False)] else [])\<rparr>)"
| relay_answered: "up_loop s = ClientAnswered r ok
    \<Longrightarrow> proxy_step s (s\<lparr>up_loop := RelayIdle,
          up_replies := up_replies s @ (if \<not> up_closed s then [(r, ok)] else [])\<rparr>)"
| relay_unanswered: "up_loop s = AwaitingClient r \<Longrightarrow> cl_closed s
    \<Longrightarrow> proxy_step s (s\<lparr>up_loop := RelayIdle,
          up_replies := up_replies s @ (if \<not> up_closed s then [(r, False)] else [])\<rparr>)"
| relay_ends: "up_loop s = RelayIdle \<Longrightarrow> up_reqs s = [] \<Longrightarrow> up_closed s
    \<Longrightarrow> proxy_step s (s\<lparr>up_loop := RelayDone\<rparr>)"
| copy_out: "up_out s = b # bs \<Longrightarrow> \<not> out_done s \<Longrightarrow> 0 < cl_window s \<Longrightarrow> \<not> client_deaf s
    \<Longrightarrow> proxy_step s (s\<lparr>up_out := bs, to_client_out := to_client_out s @ [b], cl_window := cl_window s - 1\<rparr>)"
| copy_out_fails: "up_out s \<noteq> [] \<Longrightarrow> \<not> out_done s \<Longrightarrow> client_deaf s \<Longrightarrow> cl_closed s \<or> 0 < cl_window s
    \<Longrightarrow> proxy_step s (s\<lparr>out_done := True\<rparr>)"
| copy_out_ends: "up_out s = [] \<Longrightarrow> \<not> out_done s \<Longrightarrow> up_eof s \<or> up_closed s
    \<Longrightarrow> proxy_step s (s\<lparr>out_done := True\<rparr>)"
| copy_err: "up_err s = b # bs \<Longrightarrow> \<not> err_done s \<Longrightarrow> 0 < cl_window s \<Longrightarrow> \<not> client_deaf s
    \<Longrightarrow> proxy_step s (s\<lparr>up_err := bs, to_client_err := to_client_err s @ [b], cl_window := cl_window s - 1\<rparr>)"
| copy_err_fails: "up_err s \<noteq> [] \<Longrightarrow> \<not> err_done s \<Longrightarrow> client_deaf s \<Longrightarrow> cl_closed s \<or> 0 < cl_window s
    \<Longrightarrow> proxy_step s (s\<lparr>err_done := True\<rparr>)"
| copy_err_ends: "up_err s = [] \<Longrightarrow> \<not> err_done s \<Longrightarrow> up_eof s \<or> up_closed s
    \<Longrightarrow> proxy_step s (s\<lparr>err_done := True\<rparr>)"
| copy_in: "cl_out s = b # bs \<Longrightarrow> \<not> in_done s \<Longrightarrow> 0 < up_window s \<Longrightarrow> \<not> up_left s
    \<Longrightarrow> proxy_step s (s\<lparr>cl_out := bs, to_up_out := to_up_out s @ [b], up_window := up_window s - 1\<rparr>)"
| copy_in_fails: "cl_out s \<noteq> [] \<Longrightarrow> \<not> in_done s \<Longrightarrow> up_left s \<Longrightarrow> up_closed s \<or> 0 < up_window s
    \<Longrightarrow> proxy_step s (s\<lparr>in_done := True, to_up_eof := True\<rparr>)"
| copy_in_ends: "cl_out s = [] \<Longrightarrow> \<not> in_done s \<Longrightarrow> cl_eof s \<or> cl_closed s
    \<Longrightarrow> proxy_step s (s\<lparr>in_done := True, to_up_eof := True\<rparr>)"
| copy_in_err: "cl_err s = b # bs \<Longrightarrow> \<not> in_err_done s \<Longrightarrow> 0 < up_window s \<Longrightarrow> \<not> up_left s
    \<Longrightarrow> proxy_step s (s\<lparr>cl_err := bs, to_up_err := to_up_err s @ [b], up_window := up_window s - 1\<rparr>)"
| copy_in_err_fails: "cl_err s \<noteq> [] \<Longrightarrow> \<not> in_err_done s \<Longrightarrow> up_left s \<Longrightarrow> up_closed s \<or> 0 < up_window s
    \<Longrightarrow> proxy_step s (s\<lparr>in_err_done := True\<rparr>)"
| copy_in_err_ends: "cl_err s = [] \<Longrightarrow> \<not> in_err_done s \<Longrightarrow> cl_eof s \<or> cl_closed s
    \<Longrightarrow> proxy_step s (s\<lparr>in_err_done := True\<rparr>)"
| upstream_over: "chan_stage s = AwaitUpstream \<Longrightarrow> up_loop s = RelayDone
    \<Longrightarrow> proxy_step s (s\<lparr>chan_stage := DrainUpstream\<rparr>)"
| drained: "chan_stage s = DrainUpstream \<Longrightarrow> out_done s \<Longrightarrow> err_done s
    \<Longrightarrow> proxy_step s (s\<lparr>chan_stage := Closing\<rparr>)"
| close_both: "chan_stage s = Closing \<Longrightarrow> \<not> holds_lock (req_loop s)
    \<Longrightarrow> proxy_step s (s\<lparr>chan_stage := AwaitDrain\<rparr>)"
| proxy_returns: "chan_stage s = AwaitDrain \<Longrightarrow> req_loop s = LoopDone \<Longrightarrow> up_loop s = RelayDone
    \<Longrightarrow> in_done s \<Longrightarrow> in_err_done s \<Longrightarrow> proxy_step s (s\<lparr>chan_stage := Returned\<rparr>)"

inductive chan_reach :: "chan_state \<Rightarrow> bool" where
  start: "chan_reach chan_start"
| peer: "chan_reach s \<Longrightarrow> peer_step s s' \<Longrightarrow> chan_reach s'"
| proxy: "chan_reach s \<Longrightarrow> proxy_step s s' \<Longrightarrow> chan_reach s'"

section \<open>Invariants\<close>

text \<open>From the upstream to the client: nothing is lost while the client has not left.\<close>

definition down_inv :: "chan_state \<Rightarrow> bool" where
  "down_inv s \<longleftrightarrow>
     (chan_stage s \<noteq> AwaitUpstream \<longrightarrow> up_loop s = RelayDone)
     \<and> (up_loop s = RelayDone \<longrightarrow> up_reqs s = [] \<and> up_closed s)
     \<and> (chan_stage s \<noteq> AwaitUpstream \<and> chan_stage s \<noteq> DrainUpstream \<longrightarrow> out_done s \<and> err_done s)
     \<and> (cl_closed s \<longrightarrow> cl_left s \<or> past_close s)
     \<and> (\<not> cl_left s \<longrightarrow>
          to_client_reqs s @ up_reqs s = sent_reqs s
          \<and> to_client_out s @ up_out s = sent_out s \<and> to_client_err s @ up_err s = sent_err s
          \<and> (out_done s \<longrightarrow> up_out s = [] \<and> (up_eof s \<or> up_closed s))
          \<and> (err_done s \<longrightarrow> up_err s = [] \<and> (up_eof s \<or> up_closed s)))"

lemma down_inv_start: "down_inv chan_start"
  by (simp add: down_inv_def chan_start_def)

lemma down_inv_peer: "peer_step s s' \<Longrightarrow> down_inv s \<Longrightarrow> down_inv s'"
  by (induction rule: peer_step.induct) (auto simp: down_inv_def past_close_def)

lemma down_inv_proxy: "proxy_step s s' \<Longrightarrow> down_inv s \<Longrightarrow> down_inv s'"
  by (induction rule: proxy_step.induct; simp add: down_inv_def client_deaf_def past_close_def; (argo | auto)?)

text \<open>From the client to the upstream: the requests, in order.\<close>

fun in_hand :: "request_loop \<Rightarrow> chan_request list" where
  "in_hand (Taken r) = [r]"
| "in_hand (Forwarding r) = [r]"
| "in_hand (AwaitingUpstream r) = [r]"
| "in_hand (Answered r ok) = [r]"
| "in_hand _ = []"

text \<open>The request in hand once it has been sent on or declined.\<close>

fun passed_on :: "request_loop \<Rightarrow> chan_request list" where
  "passed_on (AwaitingUpstream r) = [r]"
| "passed_on (Answered r ok) = [r]"
| "passed_on _ = []"

fun honest_answer :: "request_loop \<Rightarrow> bool" where
  "honest_answer (AwaitingUpstream r) = (\<not> agent_request r)"
| "honest_answer (Answered r ok) = (agent_request r \<longrightarrow> \<not> ok)"
| "honest_answer _ = True"

definition forwardable :: "chan_request list \<Rightarrow> chan_request list" where
  "forwardable rs = filter (\<lambda>r. \<not> agent_request r) rs"

text \<open>\<open>settled\<close>: what was handled, and replied to, by the time the channels were closed.\<close>

definition settled :: "chan_state \<Rightarrow> chan_request list \<Rightarrow> bool" where
  "settled s rs \<longleftrightarrow> map fst (replies s) = filter cr_want_reply rs \<and> prefix (to_up_reqs s) (forwardable rs)
     \<and> prefix rs (handled s)"

definition up_inv :: "chan_state \<Rightarrow> bool" where
  "up_inv s \<longleftrightarrow>
     sent_cl_reqs s = handled s @ in_hand (req_loop s) @ cl_reqs s
     \<and> (\<not> past_close s \<longrightarrow> map fst (replies s) = filter cr_want_reply (handled s))
     \<and> (\<not> up_left s \<longrightarrow> to_up_reqs s = forwardable (handled s @ passed_on (req_loop s)))
     \<and> prefix (to_up_reqs s) (forwardable (handled s @ passed_on (req_loop s)))
     \<and> honest_answer (req_loop s)
     \<and> (\<forall>(r, ok) \<in> set (replies s). agent_request r \<longrightarrow> \<not> ok)
     \<and> (chan_stage s \<noteq> AwaitUpstream \<longrightarrow> up_closed s)
     \<and> (up_loop s = RelayDone \<longrightarrow> up_closed s) \<and> (up_closed s \<longrightarrow> up_left s)
     \<and> (req_loop s = LoopDone \<longrightarrow> cl_reqs s = [] \<and> cl_closed s)
     \<and> (past_close s \<longrightarrow> (\<exists>rs. settled s rs))"

lemma up_inv_start: "up_inv chan_start"
  by (simp add: up_inv_def chan_start_def forwardable_def past_close_def)

lemma up_inv_peer: "peer_step s s' \<Longrightarrow> up_inv s \<Longrightarrow> up_inv s'"
  by (induction rule: peer_step.induct) (auto simp: up_inv_def past_close_def settled_def)

lemma forwardable_simps [simp]:
  "forwardable [] = []" "forwardable (xs @ ys) = forwardable xs @ forwardable ys"
  "forwardable [r] = (if agent_request r then [] else [r])"
  by (simp_all add: forwardable_def)

lemma up_inv_proxy: "proxy_step s s' \<Longrightarrow> up_inv s \<Longrightarrow> up_inv s'"
proof (induction rule: proxy_step.induct)
  case (reply s r ok)
  then show ?case
    by (cases "chan_stage s") (simp_all add: up_inv_def past_close_def settled_def, auto intro: prefix_prefix)
next
  case (close_both s)
  then have "settled (s\<lparr>chan_stage := AwaitDrain\<rparr>) (handled s)"
    by (cases "req_loop s") (auto simp: up_inv_def past_close_def settled_def)
  with close_both show ?case by (auto simp: up_inv_def past_close_def)
qed (auto simp: up_inv_def past_close_def settled_def)

lemma chan_reach_inv: "chan_reach s \<Longrightarrow> down_inv s \<and> up_inv s"
  by (induction rule: chan_reach.induct)
    (auto intro: down_inv_start up_inv_start down_inv_peer up_inv_peer down_inv_proxy up_inv_proxy)

section \<open>Termination\<close>

fun loop_weight :: "request_loop \<Rightarrow> nat" where
  "loop_weight (Taken r) = 5"
| "loop_weight (Forwarding r) = 4"
| "loop_weight (AwaitingUpstream r) = 3"
| "loop_weight (Answered r ok) = 2"
| "loop_weight Waiting = 1"
| "loop_weight LoopDone = 0"

fun relay_weight_of :: "relay_loop \<Rightarrow> nat" where
  "relay_weight_of (AwaitingClient r) = 2"
| "relay_weight_of (ClientAnswered r ok) = 2"
| "relay_weight_of RelayIdle = 1"
| "relay_weight_of RelayDone = 0"

fun stage_weight :: "stage \<Rightarrow> nat" where
  "stage_weight AwaitUpstream = 4"
| "stage_weight DrainUpstream = 3"
| "stage_weight Closing = 2"
| "stage_weight AwaitDrain = 1"
| "stage_weight Returned = 0"

definition chan_weight :: "chan_state \<Rightarrow> nat" where
  "chan_weight s =
     5 * length (cl_reqs s) + loop_weight (req_loop s) + stage_weight (chan_stage s)
     + 2 * length (up_reqs s) + relay_weight_of (up_loop s)
     + length (up_out s) + of_bool (\<not> out_done s) + length (up_err s) + of_bool (\<not> err_done s)
     + length (cl_out s) + of_bool (\<not> in_done s) + length (cl_err s) + of_bool (\<not> in_err_done s)"

lemma proxy_step_weight: "proxy_step s s' \<Longrightarrow> chan_weight s' < chan_weight s"
  by (induction rule: proxy_step.induct) (auto simp: chan_weight_def)

lemma loop_step:
  "holds_lock (req_loop s) \<Longrightarrow> up_closed s \<Longrightarrow> \<exists>t. proxy_step s t"
  by (cases "req_loop s") (auto intro: proxy_step.intros, metis proxy_step.intros(3-5))

text \<open>What a channel at rest still waits for, per goroutine.\<close>

lemma rest_relay:
  assumes "\<not> (\<exists>t. proxy_step s t)"
  shows "up_loop s = RelayDone \<or> (\<exists>r. up_loop s = AwaitingClient r \<and> \<not> cl_closed s)
    \<or> (up_loop s = RelayIdle \<and> up_reqs s = [] \<and> \<not> up_closed s)"
proof (cases "up_loop s")
  case RelayIdle
  with assms show ?thesis by (cases "up_reqs s") (auto dest: relay_request relay_fails relay_ends)
next
  case (AwaitingClient r)
  with assms show ?thesis by (blast intro: relay_unanswered)
next
  case (ClientAnswered r ok)
  with assms show ?thesis by (blast intro: relay_answered)
qed simp

lemma rest_requests:
  assumes "\<not> (\<exists>t. proxy_step s t)"
  shows "req_loop s = LoopDone \<or> (\<exists>r. req_loop s = AwaitingUpstream r \<and> \<not> up_closed s)
    \<or> (req_loop s = Waiting \<and> cl_reqs s = [] \<and> \<not> cl_closed s)"
proof (cases "req_loop s")
  case Waiting
  with assms show ?thesis by (cases "cl_reqs s") (auto dest: take_request loop_ends)
next
  case (Forwarding r)
  with assms show ?thesis using decline_agent forward_request forward_fails by blast
next
  case (AwaitingUpstream r)
  with assms show ?thesis by (blast intro: forward_unanswered)
qed (use assms in \<open>blast intro: lock_reply reply\<close>)+

lemma rest_copies:
  assumes "\<not> (\<exists>t. proxy_step s t)" and "up_closed s"
  shows "out_done s \<or> (up_out s \<noteq> [] \<and> cl_window s = 0 \<and> \<not> cl_closed s)"
    and "err_done s \<or> (up_err s \<noteq> [] \<and> cl_window s = 0 \<and> \<not> cl_closed s)"
proof -
  have deaf: "client_deaf s" if "cl_closed s" using that by (simp add: client_deaf_def)
  show "out_done s \<or> (up_out s \<noteq> [] \<and> cl_window s = 0 \<and> \<not> cl_closed s)"
    using assms deaf by (metis copy_out copy_out_ends copy_out_fails neq_Nil_conv not_gr_zero)
  show "err_done s \<or> (up_err s \<noteq> [] \<and> cl_window s = 0 \<and> \<not> cl_closed s)"
    using assms deaf by (metis copy_err copy_err_ends copy_err_fails neq_Nil_conv not_gr_zero)
qed

lemma rest_inputs:
  assumes "\<not> (\<exists>t. proxy_step s t)" and "up_closed s" and "up_left s" and "cl_closed s"
  shows "in_done s" and "in_err_done s"
  using assms by (metis copy_in_ends copy_in_fails, metis copy_in_err_ends copy_in_err_fails)

text \<open>What the client owes in each stage of the teardown: an answer, room for the output, its close.\<close>

lemma rest_stage:
  assumes "\<not> (\<exists>t. proxy_step s t)" and "up_closed s" and "up_left s"
  shows "chan_stage s = Returned
    \<or> (\<not> cl_closed s
       \<and> (chan_stage s = AwaitUpstream \<and> (\<exists>r. up_loop s = AwaitingClient r)
          \<or> chan_stage s = DrainUpstream \<and> cl_window s = 0 \<and> (up_out s \<noteq> [] \<or> up_err s \<noteq> [])
          \<or> chan_stage s = AwaitDrain))"
proof (cases "chan_stage s")
  case AwaitUpstream
  with assms(1) have "up_loop s \<noteq> RelayDone" by (blast intro: upstream_over)
  with AwaitUpstream rest_relay [OF assms(1)] assms(2) show ?thesis by auto
next
  case DrainUpstream
  with assms(1) have "\<not> (out_done s \<and> err_done s)" by (blast intro: drained)
  with DrainUpstream rest_copies [OF assms(1,2)] show ?thesis by blast
next
  case Closing
  have "\<not> holds_lock (req_loop s)" using loop_step assms(1,2) by blast
  with Closing assms(1) show ?thesis by (blast intro: close_both)
next
  case AwaitDrain
  have False if "cl_closed s"
  proof -
    have "req_loop s = LoopDone" "up_loop s = RelayDone"
      using rest_requests [OF assms(1)] rest_relay [OF assms(1)] assms(2) that by auto
    with AwaitDrain rest_inputs [OF assms that] assms(1) show False by (blast intro: proxy_returns)
  qed
  with AwaitDrain show ?thesis by blast
qed simp

lemma proxy_step_keeps:
  "proxy_step s t \<Longrightarrow> cl_closed t = cl_closed s \<and> up_closed t = up_closed s \<and> up_left t = up_left s
     \<and> (chan_stage s = Returned \<longrightarrow> chan_stage t = Returned)"
  by (induction rule: proxy_step.induct) auto

lemma proxy_steps_keep:
  "proxy_step\<^sup>*\<^sup>* s t \<Longrightarrow> cl_closed t = cl_closed s \<and> up_closed t = up_closed s \<and> up_left t = up_left s"
  by (induction rule: rtranclp_induct) (auto dest: proxy_step_keeps)

section \<open>An example\<close>

text \<open>
  A channel on which the client asks for agent forwarding and is refused, and the upstream reports an
  exit status, writes one byte and closes.
\<close>

definition agent_req :: chan_request where
  "agent_req = \<lparr>cr_type = ''auth-agent-req@openssh.com'', cr_want_reply = True, cr_payload = []\<rparr>"

definition exit_req :: chan_request where
  "exit_req = \<lparr>cr_type = ''exit-status'', cr_want_reply = False, cr_payload = [CHR 0x00]\<rparr>"

definition example_channel :: "nat \<Rightarrow> chan_state" where
  "example_channel n = foldl (\<lambda>s f. f s) chan_start (take n
     [\<lambda>s. s\<lparr>cl_reqs := [agent_req], sent_cl_reqs := [agent_req]\<rparr>,
      \<lambda>s. s\<lparr>cl_reqs := [], req_loop := Taken agent_req\<rparr>,
      \<lambda>s. s\<lparr>req_loop := Forwarding agent_req\<rparr>,
      \<lambda>s. s\<lparr>req_loop := Answered agent_req False\<rparr>,
      \<lambda>s. s\<lparr>req_loop := Waiting, handled := [agent_req], replies := [(agent_req, False)]\<rparr>,
      \<lambda>s. s\<lparr>up_reqs := [exit_req], sent_reqs := [exit_req]\<rparr>,
      \<lambda>s. s\<lparr>up_out := ''h'', sent_out := ''h''\<rparr>,
      \<lambda>s. s\<lparr>up_left := True, up_closed := True\<rparr>,
      \<lambda>s. s\<lparr>up_reqs := [], to_client_reqs := [exit_req]\<rparr>,
      \<lambda>s. s\<lparr>up_loop := RelayDone\<rparr>,
      \<lambda>s. s\<lparr>err_done := True\<rparr>,
      \<lambda>s. s\<lparr>chan_stage := DrainUpstream\<rparr>,
      \<lambda>s. s\<lparr>cl_window := 1\<rparr>,
      \<lambda>s. s\<lparr>up_out := [], to_client_out := ''h'', cl_window := 0\<rparr>,
      \<lambda>s. s\<lparr>out_done := True\<rparr>,
      \<lambda>s. s\<lparr>chan_stage := Closing\<rparr>,
      \<lambda>s. s\<lparr>chan_stage := AwaitDrain\<rparr>])"

lemma example_channel_reach: "chan_reach (example_channel 12)" "chan_reach (example_channel 17)"
proof -
  note ex = example_channel_def chan_start_def agent_req_def exit_req_def agent_request_def past_close_def client_deaf_def
  have r0: "chan_reach (example_channel 0)" using chan_reach.start by (simp add: example_channel_def)
  have r1: "chan_reach (example_channel 1)"
    using chan_reach.peer [OF r0 client_request [of "example_channel 0" "agent_req"]] by (simp add: ex)
  have r2: "chan_reach (example_channel 2)"
    using chan_reach.proxy [OF r1 take_request [of "example_channel 1" "agent_req" "[]"]] by (simp add: ex)
  have r3: "chan_reach (example_channel 3)"
    using chan_reach.proxy [OF r2 lock_reply [of "example_channel 2" "agent_req"]] by (simp add: ex)
  have r4: "chan_reach (example_channel 4)"
    using chan_reach.proxy [OF r3 decline_agent [of "example_channel 3" "agent_req"]] by (simp add: ex)
  have r5: "chan_reach (example_channel 5)"
    using chan_reach.proxy [OF r4 reply [of "example_channel 4" "agent_req" "False"]] by (simp add: ex)
  have r6: "chan_reach (example_channel 6)"
    using chan_reach.peer [OF r5 up_request [of "example_channel 5" "exit_req"]] by (simp add: ex)
  have r7: "chan_reach (example_channel 7)"
    using chan_reach.peer [OF r6 up_writes [of "example_channel 6" "''h''"]] by (simp add: ex)
  have r8: "chan_reach (example_channel 8)"
    using chan_reach.peer [OF r7 up_closes [of "example_channel 7"]] by (simp add: ex)
  have r9: "chan_reach (example_channel 9)"
    using chan_reach.proxy [OF r8 relay_request [of "example_channel 8" "exit_req" "[]"]] by (simp add: ex)
  have r10: "chan_reach (example_channel 10)"
    using chan_reach.proxy [OF r9 relay_ends [of "example_channel 9"]] by (simp add: ex)
  have r11: "chan_reach (example_channel 11)"
    using chan_reach.proxy [OF r10 copy_err_ends [of "example_channel 10"]] by (simp add: ex)
  have r12: "chan_reach (example_channel 12)"
    using chan_reach.proxy [OF r11 upstream_over [of "example_channel 11"]] by (simp add: ex)
  have r13: "chan_reach (example_channel 13)"
    using chan_reach.peer [OF r12 client_takes [of "example_channel 12" "1"]] by (simp add: ex)
  have r14: "chan_reach (example_channel 14)"
    using chan_reach.proxy [OF r13 copy_out [of "example_channel 13" "CHR ''h''" "[]"]] by (simp add: ex)
  have r15: "chan_reach (example_channel 15)"
    using chan_reach.proxy [OF r14 copy_out_ends [of "example_channel 14"]] by (simp add: ex)
  have r16: "chan_reach (example_channel 16)"
    using chan_reach.proxy [OF r15 drained [of "example_channel 15"]] by (simp add: ex)
  have r17: "chan_reach (example_channel 17)"
    using chan_reach.proxy [OF r16 close_both [of "example_channel 16"]] by (simp add: ex)
  show "chan_reach (example_channel 12)" "chan_reach (example_channel 17)" by (rule r12 r17)+
qed

section \<open>Properties\<close>

text \<open>
  C29. The teardown loses nothing of what the upstream sent.  However the goroutines and the peers
  interleave, once the proxy has closed the channels the client has been given every request (the exit
  status among them), every byte of output and every byte of error output, in order, unless the client
  had closed the channel itself before.
\<close>

theorem channel_no_truncation:
  assumes "chan_reach s" and "past_close s" and "\<not> cl_left s"
  shows "to_client_reqs s = sent_reqs s \<and> to_client_out s = sent_out s \<and> to_client_err s = sent_err s"
proof -
  have inv: "down_inv s" using chan_reach_inv [OF assms(1)] by blast
  moreover have "chan_stage s \<noteq> AwaitUpstream" "chan_stage s \<noteq> DrainUpstream"
    using assms(2) by (auto simp: past_close_def)
  ultimately show ?thesis using assms(3) unfolding down_inv_def by (metis append_Nil2)
qed

lemma channel_no_truncation_witness:
  "to_client_reqs (example_channel 17) = [exit_req] \<and> to_client_out (example_channel 17) = ''h''"
proof -
  have "past_close (example_channel 17)" and "\<not> cl_left (example_channel 17)"
    and "sent_reqs (example_channel 17) = [exit_req]" and "sent_out (example_channel 17) = ''h''"
    by (simp_all add: example_channel_def chan_start_def past_close_def)
  with channel_no_truncation [OF example_channel_reach(2)] show ?thesis by simp
qed

text \<open>
  C31. No reply is cut off, and the agent stays with the client.  Of the requests of the client, in order,
  those that were settled when the proxy closed were all answered if they asked for it, nothing else
  reached the upstream, a request to forward the authentication agent never did and was refused.
\<close>

theorem channel_replies:
  assumes "chan_reach s"
  shows "(past_close s \<longrightarrow> (\<exists>rs rest. sent_cl_reqs s = rs @ rest
            \<and> map fst (replies s) = filter cr_want_reply rs \<and> prefix (to_up_reqs s) (forwardable rs)))
         \<and> (\<forall>r \<in> set (to_up_reqs s). r \<in> set (sent_cl_reqs s) \<and> \<not> agent_request r)
         \<and> (\<forall>(r, ok) \<in> set (replies s). agent_request r \<longrightarrow> \<not> ok)"
proof -
  have inv: "up_inv s" using chan_reach_inv [OF assms] by blast
  then have sent: "prefix (handled s) (sent_cl_reqs s)" by (simp add: up_inv_def)
  have "\<exists>rs rest. sent_cl_reqs s = rs @ rest
      \<and> map fst (replies s) = filter cr_want_reply rs \<and> prefix (to_up_reqs s) (forwardable rs)" if "past_close s"
  proof -
    from inv that obtain rs where "settled s rs" by (auto simp: up_inv_def)
    moreover from this sent have "prefix rs (sent_cl_reqs s)"
      unfolding settled_def using prefix_order.trans by blast
    ultimately show ?thesis unfolding settled_def prefix_def [of rs] by blast
  qed
  moreover have "r \<in> set (sent_cl_reqs s) \<and> \<not> agent_request r" if "r \<in> set (to_up_reqs s)" for r
  proof -
    from inv that have "r \<in> set (forwardable (handled s @ passed_on (req_loop s)))"
      unfolding up_inv_def using set_mono_prefix by blast
    with inv show ?thesis by (cases "req_loop s") (auto simp: up_inv_def forwardable_def split: if_splits)
  qed
  ultimately show ?thesis using inv by (simp add: up_inv_def)
qed

lemma channel_replies_witness:
  "sent_cl_reqs (example_channel 17) = [agent_req] \<and> agent_req \<notin> set (to_up_reqs (example_channel 17))"
proof -
  have "sent_cl_reqs (example_channel 17) = [agent_req]"
    by (simp add: example_channel_def chan_start_def)
  moreover have "agent_request agent_req" by (simp add: agent_request_def agent_req_def)
  ultimately show ?thesis using channel_replies [OF example_channel_reach(2)] by blast
qed

text \<open>
  C30. The teardown ends, or waits for the client.  The goroutines cannot run for ever by themselves.
  Once the upstream's close has come in they come to rest with \<open>proxyChannel\<close> returned, or with the
  client's channel still open and waiting for the client alone: for the answer to a request of the
  upstream, for room to write what the upstream had sent, or, with both channels closed by the proxy, for
  its close.  So once the close of the client has come in too, \<open>proxyChannel\<close> returns.
\<close>

theorem channel_teardown_ends:
  shows "wfp (\<lambda>t s. proxy_step s t)
     \<and> (chan_reach s \<and> up_closed s \<and> proxy_step\<^sup>*\<^sup>* s t \<and> \<not> (\<exists>u. proxy_step t u) \<longrightarrow>
          chan_stage t = Returned
          \<or> (\<not> cl_closed s
             \<and> (chan_stage t = AwaitUpstream \<and> (\<exists>r. up_loop t = AwaitingClient r)
                \<or> chan_stage t = DrainUpstream \<and> cl_window t = 0 \<and> (up_out t \<noteq> [] \<or> up_err t \<noteq> [])
                \<or> chan_stage t = AwaitDrain)))"
proof -
  have "wfp (\<lambda>t s. proxy_step s t)"
    by (rule wfp_subset [OF wfp_if_convertible_to_nat [of "\<lambda>t s. chan_weight t < chan_weight s" chan_weight]])
      (auto dest: proxy_step_weight)
  moreover have "up_left s" if "chan_reach s" "up_closed s"
    using chan_reach_inv [OF that(1)] that(2) by (simp add: up_inv_def)
  ultimately show ?thesis using rest_stage [of t] proxy_steps_keep [of s t] by metis
qed

lemma channel_teardown_ends_witness:
  "chan_stage (example_channel 17) = Returned
   \<or> (\<not> cl_closed (example_channel 17) \<and> chan_stage (example_channel 17) = AwaitDrain)"
proof -
  note ex = example_channel_def chan_start_def
  have "\<not> (\<exists>u. proxy_step (example_channel 17) u)" by (auto simp: ex elim: proxy_step.cases)
  moreover have "up_closed (example_channel 17)" "chan_stage (example_channel 17) = AwaitDrain" by (simp_all add: ex)
  ultimately show ?thesis
    using channel_teardown_ends [of "example_channel 17" "example_channel 17"] example_channel_reach(2) by auto
qed

text \<open>
  The comment on the second stage says that the upstream's close makes both copies return promptly; with
  a client that takes no output the teardown rests there.
\<close>

lemma stalled_client_holds_drain:
  "\<exists>s. chan_reach s \<and> up_closed s \<and> chan_stage s = DrainUpstream \<and> \<not> out_done s \<and> \<not> (\<exists>t. proxy_step s t)"
proof (intro exI conjI)
  note ex = example_channel_def chan_start_def
  show "chan_reach (example_channel 12)" by (rule example_channel_reach)
  show "up_closed (example_channel 12)" "chan_stage (example_channel 12) = DrainUpstream"
    "\<not> out_done (example_channel 12)" by (simp_all add: ex)
  show "\<not> (\<exists>t. proxy_step (example_channel 12) t)" by (auto simp: ex elim: proxy_step.cases)
qed

text \<open>A certificate goes to the upstream only for a user with an address, and is for that address.\<close>

lemma open_upstream_identity:
  assumes "open_upstream f cancelled now dial shake ac = Inr (cfg, addr)"
  shows "us_email (ac_user ac) \<noteq> []" and "cc_user cfg = us_email (ac_user ac)"
    and "cc_cert cfg = user_certificate (us_email (ac_user ac)) cert_ttl now"
    and "addr = u_host (st_target (ac_target ac))" and "dial addr = None" and "shake addr cfg = None"
  using assms by (auto simp: open_upstream_def Let_def upstream_client_config_def
      split: if_splits sum.splits option.splits dest!: cert_mint_Inr)

text \<open>
  When a request cannot be sent on, the loop is over: the requests behind it get no answer.
\<close>

lemma global_loop_stops_answering:
  "r \<noteq> r' \<Longrightarrow> cr_want_reply r \<Longrightarrow> cr_type r = ''keepalive@openssh.com''
   \<Longrightarrow> forward_global_requests (\<lambda>_. Inl e) [r, r'] = [SendOn r, Answer False []]"
  by (simp add: answer_if_def reverse_forward_def)

text \<open>Requests to listen on the upstream's side are answered with a refusal and go nowhere.\<close>

lemma global_requests_no_listen:
  "SendOn r \<in> set (forward_global_requests send rs)
   \<Longrightarrow> r \<in> set rs \<and> cr_type r \<noteq> ''tcpip-forward'' \<and> cr_type r \<noteq> ''cancel-tcpip-forward''"
  by (induction send rs rule: forward_global_requests.induct)
    (auto simp: answer_if_def reverse_forward_def split: if_splits sum.splits prod.splits)

end
