(* ===== verification/Relay.thy ===== *)
theory Relay
  imports Forward
begin

text \<open>
  A session of \<open>ChannelForwarder.Handle\<close> once both connections stand: the goroutine that closes them
  when the session is cancelled, the loop of the client's global requests, the wait for the upstream,
  the pump that opens the channels, the goroutines of every channel, and the order in which \<open>Handle\<close>
  waits for them.  The goroutines and the peers interleave freely; each channel is a state of
  \<open>Forward\<close> and takes that theory's steps.

  Of the SSH library the steps use what it documents.  A connection that is closed, by either side,
  first fails to send (\<open>down\<close>).  Its end comes in behind what the peer had sent: the requests and the new
  channels of a connection must be serviced, or it hangs.  With the end (\<open>closed\<close>) the channels over it,
  its Go channels and its \<open>Wait\<close> end too.  The buffers of the library may let the end come in
  earlier; that is a step of the environment, on which nothing can rely.
\<close>

section \<open>The state of a session\<close>

datatype relay_stage = Selecting | AwaitPump | AwaitChannels | AwaitGlobals | HandleReturned

text \<open>The goroutine on the end of the session closes the upstream and then the client.\<close>

datatype closer = CloserWaiting | UpstreamClosed | CloserDone

text \<open>
  The loop of the global requests and the pump: at the head of the range, with what they have taken,
  with what they have sent on and await the answer of, with the answer, and at the end.
\<close>

datatype global_loop =
    GlobalsReady
  | GlobalsTaken chan_request
  | GlobalsSent chan_request
  | GlobalsTold chan_request "bool \<times> string"
  | GlobalsOver

datatype pump =
    PumpReady
  | PumpTaken string
  | PumpSent string
  | PumpOpened string "open_failure option"
  | PumpDone

record relay =
  rl_stage :: relay_stage
  rl_cancelled :: bool
  rl_closer :: closer
  rl_up_down :: bool
  rl_up_closed :: bool
  rl_cl_down :: bool
  rl_cl_closed :: bool
  rl_incoming :: "string list"
  rl_chans :: "chan_state list"
  rl_pump :: pump
  rl_globals :: "chan_request list"
  rl_global_acts :: "global_action list"
  rl_global_loop :: global_loop
  rl_up_wait_done :: bool

definition relay_start :: relay where
  "relay_start =
     \<lparr>rl_stage = Selecting, rl_cancelled = False, rl_closer = CloserWaiting, rl_up_down = False,
      rl_up_closed = False, rl_cl_down = False, rl_cl_closed = False, rl_incoming = [], rl_chans = [],
      rl_pump = PumpReady, rl_globals = [], rl_global_acts = [], rl_global_loop = GlobalsReady,
      rl_up_wait_done = False\<rparr>"

text \<open>A connection that is closed takes its side of every channel with it; so does its end when it comes in.\<close>

definition chan_client_left :: "chan_state \<Rightarrow> chan_state" where
  "chan_client_left c = (if past_close c then c else c\<lparr>cl_left := True\<rparr>)"

definition chan_client_gone :: "chan_state \<Rightarrow> chan_state" where
  "chan_client_gone c = (chan_client_left c)\<lparr>cl_closed := True\<rparr>"

definition hang_up_client :: "relay \<Rightarrow> relay" where
  "hang_up_client s = s\<lparr>rl_cl_down := True, rl_chans := map chan_client_left (rl_chans s)\<rparr>"

definition hang_up_upstream :: "relay \<Rightarrow> relay" where
  "hang_up_upstream s = s\<lparr>rl_up_down := True, rl_chans := map (\<lambda>c. c\<lparr>up_left := True\<rparr>) (rl_chans s)\<rparr>"

definition end_client :: "relay \<Rightarrow> relay" where
  "end_client s = s\<lparr>rl_cl_closed := True, rl_chans := map chan_client_gone (rl_chans s)\<rparr>"

definition end_upstream :: "relay \<Rightarrow> relay" where
  "end_upstream s =
     s\<lparr>rl_up_closed := True, rl_chans := map (\<lambda>c. c\<lparr>up_left := True, up_closed := True\<rparr>) (rl_chans s)\<rparr>"

section \<open>Steps\<close>

text \<open>What the peers, the server that cancels the context of the session, and the buffers of the library do.\<close>

inductive relay_peer :: "relay \<Rightarrow> relay \<Rightarrow> bool" where
  server_cancels: "relay_peer s (s\<lparr>rl_cancelled := True\<rparr>)"
| client_opens: "\<not> rl_cl_closed s \<Longrightarrow> relay_peer s (s\<lparr>rl_incoming := rl_incoming s @ [ty]\<rparr>)"
| client_asks: "\<not> rl_cl_closed s \<Longrightarrow> relay_peer s (s\<lparr>rl_globals := rl_globals s @ [r]\<rparr>)"
| upstream_tells: "rl_global_loop s = GlobalsSent r \<Longrightarrow> \<not> rl_up_closed s
    \<Longrightarrow> relay_peer s (s\<lparr>rl_global_loop := GlobalsTold r a\<rparr>)"
| upstream_opens: "rl_pump s = PumpSent ty \<Longrightarrow> \<not> rl_up_closed s
    \<Longrightarrow> relay_peer s (s\<lparr>rl_pump := PumpOpened ty opn\<rparr>)"
| client_goes: "relay_peer s (hang_up_client s)"
| upstream_goes: "relay_peer s (hang_up_upstream s)"
| client_end_early: "rl_cl_down s \<Longrightarrow> relay_peer s (end_client s)"
| upstream_end_early: "rl_up_down s \<Longrightarrow> relay_peer s (end_upstream s)"
| channel_peer: "i < length (rl_chans s) \<Longrightarrow> peer_step (rl_chans s ! i) c
    \<Longrightarrow> relay_peer s (s\<lparr>rl_chans := (rl_chans s)[i := c]\<rparr>)"

definition new_channels :: "open_action \<Rightarrow> relay \<Rightarrow> chan_state list" where
  "new_channels act s =
     (if act = StartProxy
      then [chan_start\<lparr>up_left := rl_up_down s, up_closed := rl_up_closed s, cl_left := rl_cl_down s\<rparr>] else [])"

text \<open>The requests forwarded by \<open>forward_global_requests\<close> for one request and its outcome.\<close>

definition global_outcome :: "chan_request \<Rightarrow> (bool \<times> string) result \<Rightarrow> relay \<Rightarrow> relay" where
  "global_outcome r answer s =
     s\<lparr>rl_global_acts := rl_global_acts s @ forward_global_requests (\<lambda>_. answer) [r],
       rl_global_loop := (if isl answer \<and> \<not> reverse_forward r then GlobalsOver else GlobalsReady)\<rparr>"

text \<open>
  What the goroutines of the session and of the library do.  Nothing can be sent over a connection that is
  down; what awaits an answer fails when the end of the connection comes in; an accept fails once it has.
  The first request that cannot be sent on ends the loop of the global requests.
\<close>

inductive relay_step :: "relay \<Rightarrow> relay \<Rightarrow> bool" where
  close_upstream: "rl_cancelled s \<Longrightarrow> rl_closer s = CloserWaiting
    \<Longrightarrow> relay_step s ((hang_up_upstream s)\<lparr>rl_closer := UpstreamClosed\<rparr>)"
| close_client: "rl_closer s = UpstreamClosed
    \<Longrightarrow> relay_step s ((hang_up_client s)\<lparr>rl_closer := CloserDone\<rparr>)"
| client_end: "rl_cl_down s \<Longrightarrow> \<not> rl_cl_closed s \<Longrightarrow> rl_globals s = [] \<Longrightarrow> rl_incoming s = []
    \<Longrightarrow> list_all (\<lambda>c. cl_reqs c = []) (rl_chans s) \<Longrightarrow> relay_step s (end_client s)"
| upstream_end: "rl_up_down s \<Longrightarrow> \<not> rl_up_closed s
    \<Longrightarrow> list_all (\<lambda>c. up_reqs c = []) (rl_chans s) \<Longrightarrow> relay_step s (end_upstream s)"
| global_take: "rl_global_loop s = GlobalsReady \<Longrightarrow> rl_globals s = r # rs
    \<Longrightarrow> relay_step s (s\<lparr>rl_globals := rs, rl_global_loop := GlobalsTaken r\<rparr>)"
| global_declined: "rl_global_loop s = GlobalsTaken r \<Longrightarrow> reverse_forward r
    \<Longrightarrow> relay_step s (global_outcome r answer s)"
| global_sent: "rl_global_loop s = GlobalsTaken r \<Longrightarrow> \<not> reverse_forward r \<Longrightarrow> \<not> rl_up_down s \<Longrightarrow> cr_want_reply r
    \<Longrightarrow> relay_step s (s\<lparr>rl_global_loop := GlobalsSent r\<rparr>)"
| global_unasked: "rl_global_loop s = GlobalsTaken r \<Longrightarrow> \<not> reverse_forward r \<Longrightarrow> \<not> rl_up_down s
    \<Longrightarrow> \<not> cr_want_reply r \<Longrightarrow> relay_step s (global_outcome r (Inr (False, [])) s)"
| global_unsent: "rl_global_loop s = GlobalsTaken r \<Longrightarrow> \<not> reverse_forward r \<Longrightarrow> rl_up_down s
    \<Longrightarrow> relay_step s (global_outcome r (Inl e) s)"
| global_told: "rl_global_loop s = GlobalsTold r a \<Longrightarrow> relay_step s (global_outcome r (Inr a) s)"
| global_untold: "rl_global_loop s = GlobalsSent r \<Longrightarrow> rl_up_closed s
    \<Longrightarrow> relay_step s (global_outcome r (Inl e) s)"
| globals_end: "rl_global_loop s = GlobalsReady \<Longrightarrow> rl_globals s = [] \<Longrightarrow> rl_cl_closed s
    \<Longrightarrow> relay_step s (s\<lparr>rl_global_loop := GlobalsOver\<rparr>)"
| upstream_waited: "rl_up_closed s \<Longrightarrow> \<not> rl_up_wait_done s
    \<Longrightarrow> relay_step s (s\<lparr>rl_up_wait_done := True\<rparr>)"
| pump_take: "rl_pump s = PumpReady \<Longrightarrow> rl_incoming s = ty # tys
    \<Longrightarrow> relay_step s (s\<lparr>rl_incoming := tys, rl_pump := PumpTaken ty\<rparr>)"
| pump_declined: "rl_pump s = PumpTaken ty \<Longrightarrow> \<not> forwarded_type ty
    \<Longrightarrow> relay_step s (s\<lparr>rl_chans := rl_chans s @ new_channels (handle_channel ty opn acc) s, rl_pump := PumpReady\<rparr>)"
| pump_sent: "rl_pump s = PumpTaken ty \<Longrightarrow> forwarded_type ty \<Longrightarrow> \<not> rl_up_down s
    \<Longrightarrow> relay_step s (s\<lparr>rl_pump := PumpSent ty\<rparr>)"
| pump_unsent: "rl_pump s = PumpTaken ty \<Longrightarrow> forwarded_type ty \<Longrightarrow> rl_up_down s
    \<Longrightarrow> relay_step s (s\<lparr>rl_pump := PumpOpened ty (Some (OpenFailed e))\<rparr>)"
| pump_untold: "rl_pump s = PumpSent ty \<Longrightarrow> rl_up_closed s
    \<Longrightarrow> relay_step s (s\<lparr>rl_pump := PumpOpened ty (Some (OpenFailed e))\<rparr>)"
| pump_opened: "rl_pump s = PumpOpened ty opn \<Longrightarrow> acc = None \<longrightarrow> \<not> rl_cl_closed s
    \<Longrightarrow> relay_step s (s\<lparr>rl_chans := rl_chans s @ new_channels (handle_channel ty opn acc) s, rl_pump := PumpReady\<rparr>)"
| pump_ends: "rl_pump s = PumpReady \<Longrightarrow> rl_incoming s = [] \<Longrightarrow> rl_cl_closed s
    \<Longrightarrow> relay_step s (s\<lparr>rl_pump := PumpDone\<rparr>)"
| channel_step: "i < length (rl_chans s) \<Longrightarrow> proxy_step (rl_chans s ! i) c
    \<Longrightarrow> relay_step s (s\<lparr>rl_chans := (rl_chans s)[i := c]\<rparr>)"
| select_cancelled: "rl_stage s = Selecting \<Longrightarrow> rl_cancelled s
    \<Longrightarrow> relay_step s (s\<lparr>rl_stage := AwaitPump\<rparr>)"
| select_client: "rl_stage s = Selecting \<Longrightarrow> rl_cl_closed s
    \<Longrightarrow> relay_step s (s\<lparr>rl_stage := AwaitPump, rl_cancelled := True\<rparr>)"
| pump_waited: "rl_stage s = AwaitPump \<Longrightarrow> rl_pump s = PumpDone
    \<Longrightarrow> relay_step s (s\<lparr>rl_stage := AwaitChannels\<rparr>)"
| channels_waited: "rl_stage s = AwaitChannels \<Longrightarrow> list_all (\<lambda>c. chan_stage c = Returned) (rl_chans s)
    \<Longrightarrow> relay_step s (s\<lparr>rl_stage := AwaitGlobals\<rparr>)"
| globals_waited: "rl_stage s = AwaitGlobals \<Longrightarrow> rl_global_loop s = GlobalsOver \<Longrightarrow> rl_up_wait_done s
    \<Longrightarrow> relay_step s ((hang_up_upstream s)\<lparr>rl_stage := HandleReturned, rl_cancelled := True\<rparr>)"

inductive relay_reach :: "relay \<Rightarrow> bool" where
  start: "relay_reach relay_start"
| peer: "relay_reach s \<Longrightarrow> relay_peer s t \<Longrightarrow> relay_reach t"
| step: "relay_reach s \<Longrightarrow> relay_step s t \<Longrightarrow> relay_reach t"

section \<open>The order of the waits\<close>

text \<open>How many waits \<open>Handle\<close> still has before it; a stage is later if it has fewer.\<close>

fun relay_stage_weight :: "relay_stage \<Rightarrow> nat" where
  "relay_stage_weight Selecting = 4"
| "relay_stage_weight AwaitPump = 3"
| "relay_stage_weight AwaitChannels = 2"
| "relay_stage_weight AwaitGlobals = 1"
| "relay_stage_weight HandleReturned = 0"

instantiation relay_stage :: linorder
begin

definition less_eq_relay_stage :: "relay_stage \<Rightarrow> relay_stage \<Rightarrow> bool" where
  "less_eq_relay_stage a b \<longleftrightarrow> relay_stage_weight b \<le> relay_stage_weight a"

definition less_relay_stage :: "relay_stage \<Rightarrow> relay_stage \<Rightarrow> bool" where
  "less_relay_stage a b \<longleftrightarrow> relay_stage_weight b < relay_stage_weight a"

instance
proof
  fix a b c :: relay_stage
  show "a < b \<longleftrightarrow> a \<le> b \<and> \<not> b \<le> a" by (auto simp: less_eq_relay_stage_def less_relay_stage_def)
  show "a \<le> a" by (simp add: less_eq_relay_stage_def)
  show "a \<le> b \<Longrightarrow> b \<le> c \<Longrightarrow> a \<le> c" by (simp add: less_eq_relay_stage_def)
  show "a \<le> b \<Longrightarrow> b \<le> a \<Longrightarrow> a = b" by (cases a; cases b) (simp_all add: less_eq_relay_stage_def)
  show "a \<le> b \<or> b \<le> a" by (auto simp: less_eq_relay_stage_def)
qed

end

lemma relay_stage_le [simp]:
  "HandleReturned \<le> a \<longleftrightarrow> a = HandleReturned" "Selecting \<le> a"
  "AwaitChannels \<le> a \<longleftrightarrow> a \<in> {AwaitChannels, AwaitGlobals, HandleReturned}"
  "AwaitGlobals \<le> a \<longleftrightarrow> a \<in> {AwaitGlobals, HandleReturned}"
  "AwaitPump \<le> a \<longleftrightarrow> a \<noteq> Selecting"
  by (cases a; simp add: less_eq_relay_stage_def)+

section \<open>Invariants\<close>

lemmas connection_defs = hang_up_client_def hang_up_upstream_def end_client_def end_upstream_def

lemma chan_client_simps [simp]:
  "cl_closed (chan_client_left c) = cl_closed c" "cl_closed (chan_client_gone c)"
  "up_closed (chan_client_left c) = up_closed c" "up_closed (chan_client_gone c) = up_closed c"
  "chan_stage (chan_client_left c) = chan_stage c" "chan_stage (chan_client_gone c) = chan_stage c"
  "chan_weight (chan_client_left c) = chan_weight c" "chan_weight (chan_client_gone c) = chan_weight c"
  "chan_weight (c\<lparr>up_left := a, up_closed := b\<rparr>) = chan_weight c" "chan_weight (c\<lparr>up_left := a\<rparr>) = chan_weight c"
  by (simp_all add: chan_client_left_def chan_client_gone_def chan_weight_def)















section \<open>The end of a session\<close>


















section \<open>Properties\<close>





section \<open>Observations\<close>

text \<open>
  The end of the upstream ends no session: after it has gone the goroutines may come to rest with
  \<open>Handle\<close> still in its select, and only the client or the server moves it on.
\<close>

lemma upstream_gone_keeps_session:
  "\<exists>s. relay_reach s \<and> rl_up_closed s \<and> rl_stage s = Selecting \<and> \<not> (\<exists>t. relay_step s t)"
proof -
  let ?e = "relay_start\<lparr>rl_up_down := True, rl_up_closed := True\<rparr>"
  let ?s = "?e\<lparr>rl_up_wait_done := True\<rparr>"
  have "hang_up_upstream relay_start = relay_start\<lparr>rl_up_down := True\<rparr>"
    and e: "end_upstream (relay_start\<lparr>rl_up_down := True\<rparr>) = ?e"
    by (simp_all add: connection_defs relay_start_def)
  then have "relay_reach (relay_start\<lparr>rl_up_down := True\<rparr>)"
    by (metis relay_reach.intros(1,2) upstream_goes)
  moreover have "relay_step (relay_start\<lparr>rl_up_down := True\<rparr>) ?e"
    unfolding e [symmetric] by (rule upstream_end) (simp_all add: relay_start_def)
  moreover have "relay_step ?e ?s" by (rule upstream_waited) (simp_all add: relay_start_def)
  ultimately have "relay_reach ?s" by (metis relay_reach.step)
  moreover have "\<not> relay_step ?s t" for t
  proof
    assume "relay_step ?s t"
    then show False by cases (simp_all add: relay_start_def)
  qed
  ultimately show ?thesis
    by (intro exI [of _ ?s]) (simp add: relay_start_def)
qed

text \<open>
  A loop of the global requests that gives up leaves what is behind unserviced, and with it the end of
  the client: a session that the server has cancelled and closed on both sides may rest before the end
  of its pump for ever.
\<close>

definition keepalive_req :: chan_request where
  "keepalive_req = \<lparr>cr_type = ''keepalive@openssh.com'', cr_want_reply = True, cr_payload = []\<rparr>"

definition example_abandoned :: "nat \<Rightarrow> relay" where
  "example_abandoned n = foldl (\<lambda>s f. f s) relay_start (take n
     [\<lambda>s. s\<lparr>rl_globals := [keepalive_req]\<rparr>,
      \<lambda>s. s\<lparr>rl_globals := [keepalive_req, keepalive_req]\<rparr>,
      \<lambda>s. s\<lparr>rl_cancelled := True\<rparr>,
      \<lambda>s. s\<lparr>rl_up_down := True, rl_closer := UpstreamClosed\<rparr>,
      \<lambda>s. s\<lparr>rl_cl_down := True, rl_closer := CloserDone\<rparr>,
      \<lambda>s. s\<lparr>rl_up_closed := True\<rparr>,
      \<lambda>s. s\<lparr>rl_up_wait_done := True\<rparr>,
      \<lambda>s. s\<lparr>rl_stage := AwaitPump\<rparr>,
      \<lambda>s. s\<lparr>rl_globals := [keepalive_req], rl_global_loop := GlobalsTaken keepalive_req\<rparr>,
      \<lambda>s. s\<lparr>rl_global_acts := [SendOn keepalive_req, Answer False []], rl_global_loop := GlobalsOver\<rparr>])"

lemma example_abandoned_reach: "relay_reach (example_abandoned 10)"
proof -
  note ex = example_abandoned_def relay_start_def keepalive_req_def reverse_forward_def connection_defs global_outcome_def answer_if_def
  have "relay_reach (example_abandoned 0)" using relay_reach.start by (simp add: example_abandoned_def)
  then have "relay_reach (example_abandoned 1)"
    using relay_reach.peer [OF _ client_asks [of "example_abandoned 0" keepalive_req]] by (simp add: ex)
  then have "relay_reach (example_abandoned 2)"
    using relay_reach.peer [OF _ client_asks [of "example_abandoned 1" keepalive_req]] by (simp add: ex)
  then have "relay_reach (example_abandoned 3)"
    using relay_reach.peer [OF _ server_cancels [of "example_abandoned 2"]] by (simp add: ex)
  then have "relay_reach (example_abandoned 4)"
    using relay_reach.step [OF _ close_upstream [of "example_abandoned 3"]] by (simp add: ex)
  then have "relay_reach (example_abandoned 5)"
    using relay_reach.step [OF _ close_client [of "example_abandoned 4"]] by (simp add: ex)
  then have "relay_reach (example_abandoned 6)"
    using relay_reach.step [OF _ upstream_end [of "example_abandoned 5"]] by (simp add: ex)
  then have "relay_reach (example_abandoned 7)"
    using relay_reach.step [OF _ upstream_waited [of "example_abandoned 6"]] by (simp add: ex)
  then have "relay_reach (example_abandoned 8)"
    using relay_reach.step [OF _ select_cancelled [of "example_abandoned 7"]] by (simp add: ex)
  then have "relay_reach (example_abandoned 9)"
    using relay_reach.step [OF _ global_take [of "example_abandoned 8" keepalive_req "[keepalive_req]"]] by (simp add: ex)
  then have "relay_reach (example_abandoned 10)"
    using relay_reach.step [OF _ global_unsent [of "example_abandoned 9" keepalive_req "Message []"]] by (simp add: ex)
  then show ?thesis .
qed

lemma abandoned_requests_hang:
  "\<exists>s. relay_reach s \<and> rl_closer s = CloserDone \<and> rl_stage s = AwaitPump \<and> rl_globals s \<noteq> []
     \<and> \<not> (\<exists>t. relay_step s t)"
proof (intro exI conjI)
  note ex = example_abandoned_def relay_start_def
  show "relay_reach (example_abandoned 10)" by (rule example_abandoned_reach)
  show "rl_closer (example_abandoned 10) = CloserDone" "rl_stage (example_abandoned 10) = AwaitPump"
    "rl_globals (example_abandoned 10) \<noteq> []" by (simp_all add: ex)
  show "\<not> (\<exists>t. relay_step (example_abandoned 10) t)"
  proof
    assume "\<exists>t. relay_step (example_abandoned 10) t"
    then obtain t where "relay_step (example_abandoned 10) t" ..
    then show False by cases (simp_all add: ex)
  qed
qed

text \<open>
  Requests that cross hold up both ends: each connection has a request behind one that awaits the
  answer of the other.
\<close>

definition example_crossed :: "nat \<Rightarrow> relay" where
  "example_crossed n = foldl (\<lambda>s f. f s) relay_start (take n
     [\<lambda>s. s\<lparr>rl_incoming := [''session'']\<rparr>,
      \<lambda>s. s\<lparr>rl_incoming := [], rl_pump := PumpTaken ''session''\<rparr>,
      \<lambda>s. s\<lparr>rl_pump := PumpSent ''session''\<rparr>,
      \<lambda>s. s\<lparr>rl_pump := PumpOpened ''session'' None\<rparr>,
      \<lambda>s. s\<lparr>rl_pump := PumpReady, rl_chans := [chan_start]\<rparr>,
      \<lambda>s. s\<lparr>rl_chans := [(hd (rl_chans s))\<lparr>up_reqs := [keepalive_req], sent_reqs := [keepalive_req]\<rparr>]\<rparr>,
      \<lambda>s. s\<lparr>rl_chans := [(hd (rl_chans s))\<lparr>up_reqs := [keepalive_req, keepalive_req], sent_reqs := [keepalive_req, keepalive_req]\<rparr>]\<rparr>,
      \<lambda>s. s\<lparr>rl_chans := [(hd (rl_chans s))\<lparr>cl_reqs := [keepalive_req], sent_cl_reqs := [keepalive_req]\<rparr>]\<rparr>,
      \<lambda>s. s\<lparr>rl_chans := [(hd (rl_chans s))\<lparr>cl_reqs := [keepalive_req, keepalive_req], sent_cl_reqs := [keepalive_req, keepalive_req]\<rparr>]\<rparr>,
      \<lambda>s. s\<lparr>rl_chans := [(hd (rl_chans s))\<lparr>cl_reqs := [keepalive_req], req_loop := Taken keepalive_req\<rparr>]\<rparr>,
      \<lambda>s. s\<lparr>rl_chans := [(hd (rl_chans s))\<lparr>req_loop := Forwarding keepalive_req\<rparr>]\<rparr>,
      \<lambda>s. s\<lparr>rl_chans := [(hd (rl_chans s))\<lparr>req_loop := AwaitingUpstream keepalive_req, to_up_reqs := [keepalive_req]\<rparr>]\<rparr>,
      \<lambda>s. s\<lparr>rl_chans := [(hd (rl_chans s))\<lparr>up_reqs := [keepalive_req], to_client_reqs := [keepalive_req], up_loop := AwaitingClient keepalive_req\<rparr>]\<rparr>,
      \<lambda>s. s\<lparr>rl_cancelled := True\<rparr>,
      \<lambda>s. s\<lparr>rl_up_down := True, rl_closer := UpstreamClosed, rl_chans := [(hd (rl_chans s))\<lparr>up_left := True\<rparr>]\<rparr>,
      \<lambda>s. s\<lparr>rl_cl_down := True, rl_closer := CloserDone, rl_chans := [(hd (rl_chans s))\<lparr>cl_left := True\<rparr>]\<rparr>,
      \<lambda>s. s\<lparr>rl_stage := AwaitPump\<rparr>])"

lemma example_crossed_reach: "relay_reach (example_crossed 17)"
proof -
  note ex = example_crossed_def relay_start_def chan_start_def keepalive_req_def agent_request_def connection_defs
    client_deaf_def past_close_def chan_client_left_def handle_channel_def forwarded_type_def new_channels_def
  have "relay_reach (example_crossed 0)" using relay_reach.start by (simp add: example_crossed_def)
  then have "relay_reach (example_crossed 1)"
    using relay_reach.peer [OF _ client_opens [of "example_crossed 0" "''session''"]] by (simp add: ex)
  then have "relay_reach (example_crossed 2)"
    using relay_reach.step [OF _ pump_take [of "example_crossed 1" "''session''" "[]"]] by (simp add: ex)
  then have "relay_reach (example_crossed 3)"
    using relay_reach.step [OF _ pump_sent [of "example_crossed 2" "''session''"]] by (simp add: ex)
  then have "relay_reach (example_crossed 4)"
    using relay_reach.peer [OF _ upstream_opens [of "example_crossed 3" "''session''" None]] by (simp add: ex)
  then have "relay_reach (example_crossed 5)"
    using relay_reach.step [OF _ pump_opened [of "example_crossed 4" "''session''" None None]] by (simp add: ex)
  then have "relay_reach (example_crossed 6)"
    using relay_reach.peer [OF _ channel_peer [of 0 "example_crossed 5", OF _ up_request [of "rl_chans (example_crossed 5) ! 0" keepalive_req]]] by (simp add: ex)
  then have "relay_reach (example_crossed 7)"
    using relay_reach.peer [OF _ channel_peer [of 0 "example_crossed 6", OF _ up_request [of "rl_chans (example_crossed 6) ! 0" keepalive_req]]] by (simp add: ex)
  then have "relay_reach (example_crossed 8)"
    using relay_reach.peer [OF _ channel_peer [of 0 "example_crossed 7", OF _ client_request [of "rl_chans (example_crossed 7) ! 0" keepalive_req]]] by (simp add: ex)
  then have "relay_reach (example_crossed 9)"
    using relay_reach.peer [OF _ channel_peer [of 0 "example_crossed 8", OF _ client_request [of "rl_chans (example_crossed 8) ! 0" keepalive_req]]] by (simp add: ex)
  then have "relay_reach (example_crossed 10)"
    using relay_reach.step [OF _ channel_step [of 0 "example_crossed 9", OF _ take_request [of "rl_chans (example_crossed 9) ! 0" keepalive_req "[keepalive_req]"]]] by (simp add: ex)
  then have "relay_reach (example_crossed 11)"
    using relay_reach.step [OF _ channel_step [of 0 "example_crossed 10", OF _ lock_reply [of "rl_chans (example_crossed 10) ! 0" keepalive_req]]] by (simp add: ex)
  then have "relay_reach (example_crossed 12)"
    using relay_reach.step [OF _ channel_step [of 0 "example_crossed 11", OF _ forward_request [of "rl_chans (example_crossed 11) ! 0" keepalive_req]]] by (simp add: ex)
  then have "relay_reach (example_crossed 13)"
    using relay_reach.step [OF _ channel_step [of 0 "example_crossed 12", OF _ relay_request [of "rl_chans (example_crossed 12) ! 0" keepalive_req "[keepalive_req]"]]] by (simp add: ex)
  then have "relay_reach (example_crossed 14)"
    using relay_reach.peer [OF _ server_cancels [of "example_crossed 13"]] by (simp add: ex)
  then have "relay_reach (example_crossed 15)"
    using relay_reach.step [OF _ close_upstream [of "example_crossed 14"]] by (simp add: ex)
  then have "relay_reach (example_crossed 16)"
    using relay_reach.step [OF _ close_client [of "example_crossed 15"]] by (simp add: ex)
  then have "relay_reach (example_crossed 17)"
    using relay_reach.step [OF _ select_cancelled [of "example_crossed 16"]] by (simp add: ex)
  then show ?thesis .
qed

lemma crossed_requests_hang:
  "\<exists>s. relay_reach s \<and> rl_closer s = CloserDone \<and> rl_stage s = AwaitPump \<and> rl_global_loop s = GlobalsReady
     \<and> \<not> (\<exists>t. relay_step s t)"
proof (intro exI conjI)
  note ex = example_crossed_def relay_start_def
  show "relay_reach (example_crossed 17)" by (rule example_crossed_reach)
  show "rl_closer (example_crossed 17) = CloserDone" "rl_stage (example_crossed 17) = AwaitPump"
    "rl_global_loop (example_crossed 17) = GlobalsReady" by (simp_all add: ex)
  have "\<not> proxy_step (hd (rl_chans (example_crossed 17))) c" for c
  proof
    assume "proxy_step (hd (rl_chans (example_crossed 17))) c"
    then show False by cases (simp_all add: ex chan_start_def)
  qed
  then show "\<not> (\<exists>t. relay_step (example_crossed 17) t)"
  proof (intro notI, elim exE)
    fix t
    assume chan: "\<And>c. \<not> proxy_step (hd (rl_chans (example_crossed 17))) c" and "relay_step (example_crossed 17) t"
    from this(2) show False
    proof cases
      case (channel_step i c)
      then have "i = 0" by (simp add: ex)
      with channel_step chan [of c] show False by (simp add: ex)
    qed (simp_all add: ex chan_start_def)
  qed
qed

end
