(* ===== verification/Bastion.thy ===== *)
theory Bastion
  imports SshSessions Relay
begin

text \<open>
  The SSH side from end to end: the identity a connection proved in its handshake
  (\<open>internal/sshproxy/server.go\<close>) is the one the upstream is shown (\<open>forward.go\<close>, \<open>internal/sshca\<close>).
\<close>

section \<open>The certificate of a forwarded connection\<close>

text \<open>What the upstream is shown is the certificate of the address the user has, valid for two minutes.\<close>

lemma upstream_certificate:
  assumes "open_upstream f cancelled now dial shake ac = Inr (cfg, addr)"
  shows "us_email (ac_user ac) \<noteq> [] \<and> cc_user cfg = us_email (ac_user ac)
     \<and> ce_principals (cc_cert cfg) = [us_email (ac_user ac)] \<and> ce_extensions (cc_cert cfg) = [(''permit-pty'', [])]
     \<and> ce_valid_before (cc_cert cfg) = word_of_int (unix (now + cert_ttl))
     \<and> addr = u_host (st_target (ac_target ac))"
  using open_upstream_identity [OF assms] by (simp add: user_certificate_def)

section \<open>Properties\<close>

text \<open>
  C8. Only an authorised user reaches an upstream, and only as himself.  However handshakes, role
  changes, key changes and other connections interleave, when a connection is inside the forwarder the key
  its own handshake offered is the one it acts under, at some moment that key was registered to the user it acts for,
  at some moment the database held that user with the roles checked, one of these is allowed on the
  upstream, and the upstream is a configured one; and whenever the forwarder then opens the connection to
  the upstream, it goes to the target of that upstream, under the user's address as login name and as the
  only principal of a certificate that permits a terminal and nothing else.
\<close>

theorem ssh_identity_end_to_end:
  assumes "ssh_reach ups w" and "sw_phase w c = Some (phase.Forwarding sid ac)"
  shows "\<exists>k perms port up.
     (sid, k, perms) \<in> set (sw_answers w) \<and> of_fingerprint k = ac_fingerprint ac
     \<and> (\<exists>d \<in> set (sw_past w). key_owner d (of_fingerprint k) = Some (us_id (ac_user ac)))
     \<and> (\<exists>d \<in> set (sw_past w). user_get None (us_id (ac_user ac)) d = Inr (ac_user ac))
     \<and> (port, up) \<in> set ups \<and> set (us_roles (ac_user ac)) \<inter> set (st_roles up) \<noteq> {}
     \<and> (\<forall>f cancelled now dial shake cfg addr. open_upstream f cancelled now dial shake ac = Inr (cfg, addr) \<longrightarrow>
          addr = u_host (st_target up) \<and> cc_user cfg = us_email (ac_user ac) \<and> us_email (ac_user ac) \<noteq> []
          \<and> ce_principals (cc_cert cfg) = [us_email (ac_user ac)]
          \<and> ce_extensions (cc_cert cfg) = [(''permit-pty'', [])]
          \<and> ce_valid_before (cc_cert cfg) = word_of_int (unix (now + cert_ttl)))"
proof -
  from ssh_forward_authorised [OF assms] obtain k perms port where
    "(sid, k, perms) \<in> set (sw_answers w)" "of_fingerprint k = ac_fingerprint ac" "(port, ac_target ac) \<in> set ups"
    by auto
  with ssh_forward_authorised [OF assms] upstream_certificate show ?thesis
    by (intro exI [of _ k] exI [of _ perms] exI [of _ port] exI [of _ "ac_target ac"]) auto
qed

lemma ssh_identity_end_to_end_witness:
  "\<exists>w ac cfg. ssh_reach example_upstreams_ssh w \<and> sw_phase w 7 = Some (phase.Forwarding ''s1'' ac)
     \<and> open_upstream no_mint_fault None (seconds 5000) (\<lambda>_. None) (\<lambda>_ _. None) ac = Inr (cfg, ''box:22'')
     \<and> ce_principals (cc_cert cfg) = [''ada@example.org'']"
proof (rule example_session)
  fix w ac
  assume reach: "ssh_reach example_upstreams_ssh w" and phase: "sw_phase w = [7 \<mapsto> phase.Forwarding ''s1'' ac]"
    and mail: "us_email (ac_user ac) = ''ada@example.org''"
  have c: "sw_phase w 7 = Some (phase.Forwarding ''s1'' ac)" by (simp add: phase)
  obtain cfg addr where opened: "open_upstream no_mint_fault None (seconds 5000) (\<lambda>_. None) (\<lambda>_ _. None) ac = Inr (cfg, addr)"
    using mail by (auto simp: open_upstream_def cert_mint_def no_mint_fault_def cert_ttl_def seconds_def Let_def)
  from ssh_identity_end_to_end [OF reach c] opened obtain port up where
    "(port, up) \<in> set example_upstreams_ssh" "addr = u_host (st_target up)" "ce_principals (cc_cert cfg) = [us_email (ac_user ac)]"
    by blast
  with reach c opened mail show ?thesis by (auto simp: example_upstreams_ssh_def)
qed

section \<open>Observations\<close>

text \<open>
  The principal is the address, and addresses are not unique in the table of users: two users with one
  address are the same login to every upstream.
\<close>

lemma shared_address_shared_login:
  assumes "us_email (ac_user ac) = us_email (ac_user ac')" and "ac_target ac = ac_target ac'"
  shows "open_upstream f cancelled now dial shake ac = open_upstream f cancelled now dial shake ac'"
  using assms by (simp add: open_upstream_def)

end
