(* ===== verification/Onboarding.thy ===== *)
theory Onboarding
  imports Enroll SshServer
begin

text \<open>
  The way of a new SSH key through three components: the SSH server that does not know it
  (\<open>internal/sshproxy\<close>), the enrollment pages (\<open>internal/sshenroll\<close>), and the SSH server again.
\<close>

section \<open>The three steps\<close>

lemma unknown_key_pending:
  assumes "key_abs d (of_fingerprint k) = None"
  shows "public_key_callback (\<lambda>x. key_get None x d) at sid k p =
     (Inl unknown_fingerprint,
      p(sid \<mapsto> \<lparr>pe_fingerprint = of_fingerprint k, pe_key_type = of_type k, pe_blob = of_blob k, pe_stored_at = at\<rparr>))"
  using assms by (simp add: public_key_callback_def Let_def key_get_abs)

lemma pending_key_prompts:
  assumes "p sid = Some e" and "now - pe_stored_at e \<le> pending_enroll_ttl" and "pe_stored_at e \<le> now"
    and "enroll_random_token rnd = Inr tok"
    and "keyboard_interactive_callback auth_host (token_mint t1 t2 rnd) now sid (p, ts) = ((r, shown), p', ts')"
  shows "shown = Some (enroll_instruction (pe_fingerprint e) (enroll_url auth_host tok))
     \<and> ts' tok = Some \<lparr>en_fingerprint = pe_fingerprint e, en_key_type = pe_key_type e,
                       en_public_key = pe_blob e, en_expires_at = t2 + default_ttl\<rparr>"
proof -
  have "\<not> pending_enroll_ttl < time_sub now (pe_stored_at e)"
    using assms(2,3) by (auto simp: time_sub_def pending_enroll_ttl_def seconds_def)
  then have "sweep_pending now p sid = Some e" using assms(1) by (simp add: sweep_pending_def keep_rows_def)
  with assms(4,5) show ?thesis by (auto simp: keyboard_interactive_callback_def Let_def token_mint_def)
qed

lemma key_add_new:
  assumes "key_abs d fp = None" and "user_exists d uid"
  shows "\<exists>kd d'. key_add now no_fault uid fp kt pk label d = (Inr kd, d')
     \<and> key_abs d' fp = Some \<lparr>kr_id = ssh_keys_seq d + 1, kr_user_id = uid, kr_fingerprint = fp,
          kr_key_type = kt, kr_public_key = pk, kr_label = Some label, kr_created_at = unix now, kr_last_used_at = None\<rparr>"
proof -
  have "fp \<notin> set (map kr_fingerprint (ssh_keys d))"
    using assms(1) by (auto simp: key_abs_def index_by_None)
  moreover have "ft_stmt no_fault i = None" for i by (simp add: no_fault_def)
  ultimately show ?thesis
    using assms by (simp add: key_add_def insert_key_def Let_def key_abs_append)
qed

lemma user_get_exists: "user_get f uid d = Inr u \<Longrightarrow> user_exists d uid"
  by (auto simp: user_get_def query_one_def user_exists_def split: option.splits dest!: find_Some_iff_mem)

lemma registered_key_accepted:
  assumes "key_owner d (of_fingerprint k) = Some uid"
  shows "public_key_callback (\<lambda>x. key_get None x d) at sid k p =
     (Inr (Some [ext_user_id \<mapsto> itoa uid, ext_fingerprint \<mapsto> of_fingerprint k]), p(sid := None))"
proof -
  obtain row where row: "key_abs d (of_fingerprint k) = Some row" "kr_user_id row = uid"
    using assms by (auto simp: key_owner_def)
  then have "kr_fingerprint row = of_fingerprint k" by (auto simp: key_abs_def dest: index_by_Some)
  with row show ?thesis by (simp add: public_key_callback_def Let_def key_get_abs decode_key_def)
qed

lemma role_holder_admitted:
  assumes "user_get None uid d = Inr u" and "set (us_roles u) \<inter> set (st_roles up) \<noteq> {}"
    and "- (2 ^ 63) \<le> uid" "uid < 2 ^ 63" and "fp \<noteq> []"
  shows "\<exists>ac d'. authorise_conn (user_get None) touch True
       (Some (Some [ext_user_id \<mapsto> itoa uid, ext_fingerprint \<mapsto> fp])) addr up d = (Inr ac, d')
     \<and> ac_user ac = u \<and> ac_fingerprint ac = fp \<and> ac_target ac = up"
proof -
  have "ext_user_id \<noteq> ext_fingerprint" by code_simp
  then have "conn_identity (Some (Some [ext_user_id \<mapsto> itoa uid, ext_fingerprint \<mapsto> fp])) = Inr (uid, fp)"
    using assms(3-5) by (simp add: conn_identity_def ext_value_def Let_def atoi_itoa)
  moreover have "roles_intersect (us_roles u) (st_roles up)"
    using assms(2) by (auto simp: roles_intersect_def list_ex_iff)
  ultimately show ?thesis using assms(1) by (simp add: authorise_conn_def Let_def case_prod_unfold)
qed

section \<open>Properties\<close>

text \<open>
  C12. A new key gets in.  A client that offers an unknown key and answers the prompt in time is shown
  the link of a token for that key; when a browser with a live session completes the token before it
  expires, in whatever state the database is by then as long as the key is still unregistered and no
  statement fails, the page says that the key is registered and the key is the user's; and from then on,
  as long as the key keeps its owner, every connection that offers the key is authenticated, and admitted as
  that user on each port that allows one of the roles the user has.
\<close>

theorem new_key_gets_in:
  assumes unknown: "key_abs d0 (of_fingerprint k) = None" "of_fingerprint k \<noteq> []"
    and prompt: "public_key_callback (\<lambda>x. key_get None x d0) at sid k p = (r0, p1)"
      "keyboard_interactive_callback auth_host (token_mint t1 t2 rnd) now sid (p1, ts) = ((r, shown), p2, ts1)"
      "at \<le> now" "now - at \<le> pending_enroll_ttl" "enroll_random_token rnd = Inr tok"
    and browser: "ts2 tok = ts1 tok" "t < t2 + default_ttl" "session_read req = Some s"
      "session_get opts t None s d1 = Inr sess" "user_get None (se_user_id sess) d1 = Inr u"
      "- (2 ^ 63) \<le> us_id u" "us_id u < 2 ^ 63" "key_abs d1 (of_fingerprint k) = None"
      "complete_on_db opts (no_enroll_fault t) auth_host tok req w (ts2, d1) = (w', ts3, d2)"
  shows "shown = Some (enroll_instruction (of_fingerprint k) (enroll_url auth_host tok))
     \<and> w' = write_success (of_fingerprint k) (enroll_headers w) \<and> key_owner d2 (of_fingerprint k) = Some (us_id u)
     \<and> (\<forall>d3 t3 sid3 p3 v up addr. key_owner d3 (of_fingerprint k) = key_owner d2 (of_fingerprint k)
            \<and> user_get None (us_id u) d3 = Inr v \<and> set (us_roles v) \<inter> set (st_roles up) \<noteq> {}
          \<longrightarrow> (\<exists>perms p4 ac d4. public_key_callback (\<lambda>x. key_get None x d3) t3 sid3 k p3 = (Inr perms, p4)
                \<and> authorise_conn (user_get None) (key_touch_last_used t3 no_fault) True (Some perms) addr up d3 = (Inr ac, d4)
                \<and> ac_user ac = v \<and> ac_fingerprint ac = of_fingerprint k \<and> ac_target ac = up))"
proof -
  let ?fp = "of_fingerprint k"
  let ?e = "\<lparr>pe_fingerprint = ?fp, pe_key_type = of_type k, pe_blob = of_blob k, pe_stored_at = at\<rparr>"
  have "p1 sid = Some ?e" using prompt(1) unknown_key_pending [OF unknown(1), of at sid p] by auto
  from pending_key_prompts [OF this _ _ prompt(5,2)] prompt(3,4)
  have shown: "shown = Some (enroll_instruction ?fp (enroll_url auth_host tok))"
    and tok: "ts2 tok = Some \<lparr>en_fingerprint = ?fp, en_key_type = of_type k, en_public_key = of_blob k,
                              en_expires_at = t2 + default_ttl\<rparr>"
    using browser(1) by simp_all
  have id: "us_id u = se_user_id sess" using browser(5) by (rule user_get_id)
  let ?label = "''enrolled from '' @ short_user_agent (header_get (rq_header req) ''User-Agent'')"
  obtain kd d' where add: "key_add t no_fault (us_id u) ?fp (of_type k) (of_blob k) ?label d1 = (Inr kd, d')"
    and d': "key_owner d' ?fp = Some (us_id u)"
    using key_add_new [OF browser(8), of "us_id u" t "of_type k" "of_blob k" ?label] user_get_exists [OF browser(5)] id
    by (auto simp: key_owner_def)
  have told: "w' = write_success ?fp (enroll_headers w)" "d2 = d'"
    using browser(9,3-5) add tok browser(2)
    by (simp_all add: complete_on_db_def no_enroll_fault_def handle_complete_def token_consume_def)
  have "\<exists>perms p4 ac d4. public_key_callback (\<lambda>x. key_get None x d3) t3 sid3 k p3 = (Inr perms, p4)
      \<and> authorise_conn (user_get None) (key_touch_last_used t3 no_fault) True (Some perms) addr up d3 = (Inr ac, d4)
      \<and> ac_user ac = v \<and> ac_fingerprint ac = ?fp \<and> ac_target ac = up"
    if "key_owner d3 ?fp = key_owner d2 ?fp" "user_get None (us_id u) d3 = Inr v"
      "set (us_roles v) \<inter> set (st_roles up) \<noteq> {}" for d3 t3 sid3 p3 v up addr
    using registered_key_accepted [of d3 k "us_id u" t3 sid3 p3] that(1) told(2) d'
      role_holder_admitted [OF that(2,3) browser(6,7) unknown(2), of "key_touch_last_used t3 no_fault" addr] by auto
  with shown told d' show ?thesis by blast
qed

text \<open>User 1, signed in, registers a key and connects with it.\<close>

definition new_key :: offered_key where
  "new_key = \<lparr>of_fingerprint = ''SHA256:k'', of_type = ''ssh-ed25519'', of_blob = ''blob''\<rparr>"

definition example_visit :: "token_store \<Rightarrow> response \<times> token_store \<times> db" where
  "example_visit ts = complete_on_db example_opts (no_enroll_fault (seconds 1200)) ''auth.forgeutah.tech'' ''dG9r''
     signed_in_request new_response (ts, session_run example_opts example_ops example_db)"

definition example_prompt :: "(permissions result \<times> string option) \<times> pending_map \<times> token_store" where
  "example_prompt = keyboard_interactive_callback ''auth.forgeutah.tech'' (token_mint (seconds 1000) (seconds 1000) (Inr ''tok''))
     (seconds 1000) ''s''
     (snd (public_key_callback (\<lambda>x. key_get None x example_db) (seconds 1000) ''s'' new_key (\<lambda>_. None)), (\<lambda>_. None))"

lemma new_key_gets_in_witness:
  "\<exists>w' ts' d2 perms p4 ac d4. example_visit (snd (snd example_prompt)) = (w', ts', d2)
     \<and> public_key_callback (\<lambda>x. key_get None x d2) (seconds 1300) ''s2'' new_key (\<lambda>_. None) = (Inr perms, p4)
     \<and> authorise_conn (user_get None) (key_touch_last_used (seconds 1300) no_fault) True (Some perms) ''10.0.0.1''
          \<lparr>st_port = 2222, st_target = empty_url, st_roles = [''dev'']\<rparr> d2 = (Inr ac, d4)
     \<and> us_id (ac_user ac) = 1"
proof -
  let ?d = "session_run example_opts example_ops example_db"
  obtain r shown p2 ts1 where prompt: "example_prompt = ((r, shown), p2, ts1)" by (metis prod.exhaust)
  obtain r0 p1 where offer: "public_key_callback (\<lambda>x. key_get None x example_db) (seconds 1000) ''s'' new_key (\<lambda>_. None) = (r0, p1)"
    by fastforce
  obtain w' ts3 d2 where visit: "example_visit ts1 = (w', ts3, d2)" by (metis prod_cases3)
  obtain sess where sess: "session_get example_opts (seconds 1200) None ''YWJj'' ?d = Inr sess" "se_user_id sess = 1"
  proof -
    have "map_sum id se_user_id (session_get example_opts (seconds 1200) None ''YWJj'' ?d) = Inr 1" by code_simp
    then show ?thesis using that by (auto simp: map_sum_def split: sum.splits)
  qed
  obtain u where u: "user_get None 1 ?d = Inr u" "us_id u = 1"
  proof -
    have "map_sum id us_id (user_get None 1 ?d) = Inr 1" by code_simp
    then show ?thesis using that by (auto simp: map_sum_def split: sum.splits)
  qed
  have "map_sum id us_roles (user_get None 1 (snd (snd (example_visit (snd (snd example_prompt)))))) = Inr [''admin'', ''dev'']" by code_simp
  moreover have "snd (snd (example_visit (snd (snd example_prompt)))) = d2" by (simp add: prompt visit)
  ultimately have "map_sum id us_roles (user_get None 1 d2) = Inr [''admin'', ''dev'']" by metis
  then obtain v where v: "user_get None 1 d2 = Inr v" "us_roles v = [''admin'', ''dev'']"
    by (auto simp: map_sum_def split: sum.splits)
  have facts: "key_abs example_db (of_fingerprint new_key) = None" "key_abs ?d (of_fingerprint new_key) = None"
    "of_fingerprint new_key \<noteq> []" "enroll_random_token (Inr ''tok'') = Inr ''dG9r''"
    "session_read signed_in_request = Some ''YWJj''" by code_simp+
  have times: "seconds 1200 < seconds 1000 + default_ttl" "seconds 1000 - seconds 1000 \<le> pending_enroll_ttl" by code_simp+
  have range: "- (2 ^ 63) \<le> us_id u" "us_id u < 2 ^ 63" using u(2) by simp_all
  have u': "user_get None (se_user_id sess) ?d = Inr u" using u(1) sess(2) by simp
  note result = new_key_gets_in [of example_db new_key, OF facts(1,3) offer
      prompt [unfolded example_prompt_def offer snd_conv] order_refl times(2) facts(4) refl times(1) facts(5) sess(1)
      u' range facts(2) visit [unfolded example_visit_def]]
  have "user_get None (us_id u) d2 = Inr v" using v(1) u(2) by simp
  moreover have "set (us_roles v) \<inter> set (st_roles \<lparr>st_port = 2222, st_target = empty_url, st_roles = [''dev'']\<rparr>) \<noteq> {}"
    using v(2) by simp
  ultimately have "\<exists>perms p4 ac d4. public_key_callback (\<lambda>x. key_get None x d2) (seconds 1300) ''s2'' new_key (\<lambda>_. None) = (Inr perms, p4)
     \<and> authorise_conn (user_get None) (key_touch_last_used (seconds 1300) no_fault) True (Some perms) ''10.0.0.1''
          \<lparr>st_port = 2222, st_target = empty_url, st_roles = [''dev'']\<rparr> d2 = (Inr ac, d4) \<and> ac_user ac = v"
    using result by blast
  moreover have "us_id v = 1" using v(1) by (rule user_get_id)
  moreover have "example_visit (snd (snd example_prompt)) = (w', ts3, d2)" by (simp add: prompt visit)
  ultimately show ?thesis by blast
qed

end
