(* ===== verification/WebAssets.thy ===== *)
theory WebAssets
  imports GoHttp
begin

text \<open>
  \<open>internal/web/assets.go\<close>: the security headers of the login page.  The embedded files and the file
  server of the standard library that answers from them are a function \<open>files\<close> on answers.
\<close>

definition csp_policy :: string where
  "csp_policy = (let q = [CHR 0x27] in
     ''default-src '' @ q @ ''none'' @ q @ ''; ''
     @ ''script-src '' @ q @ ''self'' @ q @ '' https://unpkg.com '' @ q @ ''unsafe-eval'' @ q @ '' '' @ q @ ''unsafe-inline'' @ q @ ''; ''
     @ ''style-src '' @ q @ ''self'' @ q @ '' https://fonts.googleapis.com '' @ q @ ''unsafe-inline'' @ q @ ''; ''
     @ ''font-src '' @ q @ ''self'' @ q @ '' https://fonts.gstatic.com; ''
     @ ''img-src '' @ q @ ''self'' @ q @ '' data:; ''
     @ ''connect-src '' @ q @ ''self'' @ q @ ''; ''
     @ ''frame-ancestors '' @ q @ ''none'' @ q @ ''; ''
     @ ''base-uri '' @ q @ ''self'' @ q)"

definition with_security_headers :: "(request \<Rightarrow> response \<Rightarrow> response) \<Rightarrow> request \<Rightarrow> response \<Rightarrow> response" where
  "with_security_headers next r w =
     next r
       (set_header ''Referrer-Policy'' ''same-origin''
         (set_header ''X-Frame-Options'' ''DENY''
           (set_header ''X-Content-Type-Options'' ''nosniff''
             (set_header ''Content-Security-Policy'' csp_policy w))))"

definition new_web_handler :: "(request \<Rightarrow> response \<Rightarrow> response) \<Rightarrow> request \<Rightarrow> response \<Rightarrow> response" where
  "new_web_handler files = with_security_headers files"

end
