(* ===== verification/Server.thy ===== *)
theory Server
  imports AuthHandlers Enroll Oidc HttpLog WebAssets
begin

text \<open>
  The HTTP side of \<open>cmd/forge-proxy/main.go\<close>: health and readiness, the routes of the auth host with
  their limiters, the dispatch on the host and the middleware chain, over one state of the process.

  The part of \<open>http.ServeMux\<close> the routes exercise is modelled: path cleaning with its redirect,
  patterns of literal and wildcard segments, \<open>GET\<close> standing for \<open>HEAD\<close>, and the answers 404 and 405.
  The access log stands between the request id and the HSTS header and passes every call on
  (\<open>HttpLog\<close>); as it changes no answer it has no place in the composition here.
\<close>

section \<open>Health and readiness\<close>

definition healthz :: "response \<Rightarrow> response" where
  "healthz w = write_body ''ok'' (set_header ''Content-Type'' ''text/plain; charset=utf-8'' w)"

text \<open>\<open>time.Duration.String\<close> of a duration of at least a second.\<close>

definition duration_fraction :: "nat \<Rightarrow> string" where
  "duration_fraction f =
     (let ds = nat_digits f; padded = replicate (9 - length ds) (CHR ''0'') @ ds
      in if f = 0 then [] else CHR ''.'' # rev (dropWhile (\<lambda>c. c = CHR ''0'') (rev padded)))"

definition duration_string :: "duration \<Rightarrow> string" where
  "duration_string d =
     (let u = nat d; s = u div 1000000000; m = s div 60; h = m div 60
      in (if 0 < h then nat_digits h @ ''h'' else []) @ (if 0 < m then nat_digits (m mod 60) @ ''m'' else [])
         @ nat_digits (s mod 60) @ duration_fraction (u mod 1000000000) @ ''s'')"

text \<open>
  The pings are given by their errors; the age of the last sweep is read twice, for the test and for
  the message.
\<close>

definition readyz_problems ::
    "err option \<Rightarrow> err option \<Rightarrow> bool \<Rightarrow> sweeper \<Rightarrow> gotime \<Rightarrow> gotime \<Rightarrow> string list" where
  "readyz_problems writer reader oidc_ready sw now now' =
     (case writer of Some e \<Rightarrow> [''writer db: '' @ err_text e] | None \<Rightarrow> [])
     @ (case reader of Some e \<Rightarrow> [''reader db: '' @ err_text e] | None \<Rightarrow> [])
     @ (if \<not> oidc_ready then [''oidc: JWKS not yet fetched from Slack''] else [])
     @ (if sw_last_success sw \<noteq> zero_time \<and> seconds 7200 < time_sub now (sw_last_success sw)
        then [''sweeper: last successful run was '' @ duration_string (time_sub now' (sw_last_success sw)) @ '' ago'']
        else [])"

definition readyz ::
    "err option \<Rightarrow> err option \<Rightarrow> bool \<Rightarrow> sweeper \<Rightarrow> gotime \<Rightarrow> gotime \<Rightarrow> response \<Rightarrow> response" where
  "readyz writer reader oidc_ready sw now now' w =
     (let problems = readyz_problems writer reader oidc_ready sw now now';
          w1 = set_header ''Content-Type'' ''text/plain; charset=utf-8'' w
      in if problems \<noteq> [] then
           write_body (str_join problems [CHR 0x0A] @ [CHR 0x0A]) (write_status 503 w1)
         else write_body (''ready'' @ [CHR 0x0A]) w1)"

section \<open>The mux of the auth host\<close>

text \<open>\<open>path.Clean\<close> of a rooted path, and the mux's \<open>cleanPath\<close>.\<close>

fun clean_step :: "string list \<Rightarrow> string \<Rightarrow> string list" where
  "clean_step st s =
     (if s = [] \<or> s = ''.'' then st else if s = ''..'' then butlast st else st @ [s])"

definition path_clean :: "string \<Rightarrow> string" where
  "path_clean p = CHR ''/'' # str_join (foldl clean_step [] (str_split (CHR ''/'') p)) ''/''"

definition mux_clean_path :: "string \<Rightarrow> string" where
  "mux_clean_path p =
     (if p = [] then ''/''
      else let p' = (if hd p \<noteq> CHR ''/'' then CHR ''/'' # p else p); np = path_clean p'
           in if last p' = CHR ''/'' \<and> np \<noteq> ''/'' then np @ ''/'' else np)"

definition path_unescape :: "string \<Rightarrow> string" where
  "path_unescape s = (case url_unescape EncodePathSegment s of Some t \<Rightarrow> t | None \<Rightarrow> s)"

text \<open>The segments of a path as the routing tree walks it; the end of a path after a slash is \<open>''/''\<close>.\<close>

definition mux_segments :: "string \<Rightarrow> string list" where
  "mux_segments p =
     (if p = [] then []
      else map (\<lambda>s. if s = [] then ''/'' else path_unescape s) (str_split (CHR ''/'') (tl p)))"

datatype seg_pattern = Lit string | Wild

fun match_segs :: "seg_pattern list \<Rightarrow> string list \<Rightarrow> string list option" where
  "match_segs [] [] = Some []"
| "match_segs (Lit l # ps) (s # ss) = (if l = s then match_segs ps ss else None)"
| "match_segs (Wild # ps) (s # ss) = (if s = ''/'' then None else map_option (Cons s) (match_segs ps ss))"
| "match_segs _ _ = None"

datatype route = Healthz | Readyz | Login | Callback | Logout | Me | EnrollComplete | EnrollStart | WebAsset

definition health_patterns :: "(string \<times> seg_pattern list \<times> route) list" where
  "health_patterns = [(''GET'', [Lit ''healthz''], Healthz), (''GET'', [Lit ''readyz''], Readyz)]"

definition auth_patterns :: "(string \<times> seg_pattern list \<times> route) list" where
  "auth_patterns =
     [(''GET'', [Lit ''auth'', Lit ''login''], Login),
      (''GET'', [Lit ''auth'', Lit ''callback''], Callback),
      (''POST'', [Lit ''auth'', Lit ''logout''], Logout),
      (''GET'', [Lit ''auth'', Lit ''me''], Me)]"

definition enroll_patterns :: "(string \<times> seg_pattern list \<times> route) list" where
  "enroll_patterns =
     [(''GET'', [Lit ''ssh'', Lit ''enroll'', Wild, Lit ''complete''], EnrollComplete),
      (''GET'', [Lit ''ssh'', Lit ''enroll'', Wild], EnrollStart)]"

text \<open>The enrollment pages are there with the SSH side only.\<close>

definition server_patterns :: "bool \<Rightarrow> (string \<times> seg_pattern list \<times> route) list" where
  "server_patterns ssh = health_patterns @ auth_patterns @ (if ssh then enroll_patterns else [])"

text \<open>Every pattern that matches a path, the more specific ones first: the last is \<open>GET /\<close>.\<close>

definition mux_candidates :: "bool \<Rightarrow> string list \<Rightarrow> (string \<times> route \<times> string list) list" where
  "mux_candidates ssh segs =
     List.map_filter (\<lambda>(m, p, rt). map_option (\<lambda>caps. (m, rt, caps)) (match_segs p segs)) (server_patterns ssh)
     @ (if segs = [] then [] else [(''GET'', WebAsset, [])])"

definition mux_find :: "bool \<Rightarrow> string \<Rightarrow> string list \<Rightarrow> (route \<times> string list) option" where
  "mux_find ssh meth segs =
     (let for_method = (\<lambda>m. map_option snd (find (\<lambda>(m', _). m' = m) (mux_candidates ssh segs)))
      in case for_method meth of
           Some x \<Rightarrow> Some x
         | None \<Rightarrow> if meth = ''HEAD'' then for_method ''GET'' else None)"

definition mux_allowed :: "bool \<Rightarrow> string list \<Rightarrow> string list" where
  "mux_allowed ssh segs =
     (let ms = map fst (mux_candidates ssh segs)
      in (if ''GET'' \<in> set ms then [''GET'', ''HEAD''] else []) @ (if ''POST'' \<in> set ms then [''POST''] else []))"

datatype mux_result =
    MuxBadRequest
  | MuxRedirect string
  | MuxRoute route "string list"
  | MuxNotAllowed "string list"
  | MuxNotFound

definition mux_handler :: "bool \<Rightarrow> request \<Rightarrow> mux_result" where
  "mux_handler ssh r =
     (let escaped = escaped_path (rq_url r);
          p = (if rq_method r = ''CONNECT'' then escaped else mux_clean_path escaped);
          segs = mux_segments p
      in if u_path (rq_url r) = ''*'' then MuxBadRequest
         else if p \<noteq> escaped then
           MuxRedirect (url_string (empty_url\<lparr>u_path := p, u_raw_query := u_raw_query (rq_url r)\<rparr>))
         else case mux_find ssh (rq_method r) segs of
                Some (rt, caps) \<Rightarrow> MuxRoute rt caps
              | None \<Rightarrow>
                  if mux_allowed ssh segs \<noteq> [] then MuxNotAllowed (mux_allowed ssh segs) else MuxNotFound)"

section \<open>The process\<close>

text \<open>What is fixed at the start, what changes, and what the environment supplies for one request.\<close>

record http_app =
  ha_config :: config
  ha_build :: build_info
  ha_ssh :: bool
  ha_auth_url :: "string \<Rightarrow> string \<Rightarrow> string \<Rightarrow> string"
  ha_files :: "request \<Rightarrow> response \<Rightarrow> response"

record http_state =
  hs_db :: db
  hs_tokens :: token_store
  hs_login :: rate_limiter
  hs_callback :: rate_limiter
  hs_oidc :: oidc
  hs_sweeper :: sweeper

record http_env =
  he_random_id :: "string result"
  he_stamp :: string
  he_now :: gotime
  he_later :: gotime
  he_me_session :: "err option"
  he_me_user :: "err option"
  he_login1 :: "string result"
  he_login2 :: "string result"
  he_callback :: callback_env
  he_logout :: tx_fault
  he_enroll :: enroll_env
  he_proxy :: proxy_faults
  he_ping_writer :: "err option"
  he_ping_reader :: "err option"

definition login_limit :: int where "login_limit = 30"
definition callback_limit :: int where "callback_limit = 5"

definition http_start :: "config \<Rightarrow> db \<Rightarrow> http_state" where
  "http_start cfg d =
     \<lparr>hs_db = d, hs_tokens = (\<lambda>_. None), hs_login = new_rate_limiter login_limit,
      hs_callback = new_rate_limiter callback_limit, hs_oidc = new_oidc cfg, hs_sweeper = new_sweeper\<rparr>"

text \<open>The handlers of the mux, with the limiters \<open>Mount\<close> puts before two of them.\<close>

definition serve_route ::
    "http_app \<Rightarrow> http_env \<Rightarrow> route \<Rightarrow> string list \<Rightarrow> string option \<Rightarrow> request \<Rightarrow> response \<Rightarrow> http_state
     \<Rightarrow> response \<times> http_state" where
  "serve_route app env rt caps ctx r w st =
     (let cfg = ha_config app in
      case rt of
        Healthz \<Rightarrow> (healthz w, st)
      | Readyz \<Rightarrow>
          (readyz (he_ping_writer env) (he_ping_reader env) (oidc_is_ready (hs_oidc st)) (hs_sweeper st)
             (he_now env) (he_later env) w, st)
      | Login \<Rightarrow>
          (let (out, _, rl) = rate_limit_middleware (he_now env)
                 (\<lambda>_ r w s. (handle_login (ha_auth_url app) (he_login1 env) (he_login2 env) cfg r w, s))
                 ctx r w ((), hs_login st)
           in (out, st\<lparr>hs_login := rl\<rparr>))
      | Callback \<Rightarrow>
          (let (out, d, rl) = rate_limit_middleware (he_now env)
                 (\<lambda>_ r w (d, rl). let (out, d') = handle_callback (he_callback env) cfg r w d in (out, d', rl))
                 ctx r w (hs_db st, hs_callback st)
           in (out, st\<lparr>hs_db := d, hs_callback := rl\<rparr>))
      | Logout \<Rightarrow> (let (out, d) = handle_logout (he_logout env) cfg r w (hs_db st) in (out, st\<lparr>hs_db := d\<rparr>))
      | Me \<Rightarrow> (handle_me (he_now env) (he_me_session env) (he_me_user env) (ha_build app) cfg r w (hs_db st), st)
      | EnrollComplete \<Rightarrow>
          (let (out, ts, d) = complete_on_db (session_opts_of cfg) (he_enroll env) (cf_auth_host cfg) (hd caps) r w
                 (hs_tokens st, hs_db st)
           in (out, st\<lparr>hs_tokens := ts, hs_db := d\<rparr>))
      | EnrollStart \<Rightarrow> (handle_start (he_now env) (cf_auth_host cfg) (hd caps) w (hs_tokens st), st)
      | WebAsset \<Rightarrow> (new_web_handler (ha_files app) r w, st))"

definition serve_auth_host ::
    "http_app \<Rightarrow> http_env \<Rightarrow> string option \<Rightarrow> request \<Rightarrow> response \<Rightarrow> http_state \<Rightarrow> response \<times> http_state" where
  "serve_auth_host app env ctx r w st =
     (case mux_handler (ha_ssh app) r of
        MuxBadRequest \<Rightarrow> (write_status 400 (set_header ''Connection'' ''close'' w), st)
      | MuxRedirect target \<Rightarrow> (redirect target 301 w, st)
      | MuxRoute rt caps \<Rightarrow> serve_route app env rt caps ctx r w st
      | MuxNotAllowed ms \<Rightarrow> (http_error ''Method Not Allowed'' 405 (set_header ''Allow'' (str_join ms '', '') w), st)
      | MuxNotFound \<Rightarrow> (http_error ''404 page not found'' 404 w, st))"

definition host_matches :: "string \<Rightarrow> string \<Rightarrow> bool" where
  "host_matches inbound auth_host \<longleftrightarrow> normalize_host inbound = normalize_host auth_host"

definition dispatcher :: "http_app \<Rightarrow> http_env \<Rightarrow> (http_state, proxy_out) handler" where
  "dispatcher app env ctx r w st =
     (if host_matches (rq_host r) (cf_auth_host (ha_config app)) then
        (let (out, st') = serve_auth_host app env ctx r w st in (Answer out, st'))
      else
        (let (out, d) = serve_on_db (session_opts_of (ha_config app)) (he_now env) (he_proxy env) (ha_config app) r w (hs_db st)
         in (out, st\<lparr>hs_db := d\<rparr>)))"

definition root_handler :: "http_app \<Rightarrow> http_env \<Rightarrow> request \<Rightarrow> http_state \<Rightarrow> proxy_out \<times> http_state" where
  "root_handler app env r st =
     request_id_middleware (he_random_id env) (he_stamp env) (hsts_middleware (dispatcher app env)) None r new_response st"

text \<open>
  What happens to the process: requests, ticks of the sweeper, and the publication of the verifier by
  the OIDC client.
\<close>

datatype server_event =
    HttpRequest http_env request
  | SweepTick tx_fault gotime
  | VerifierReady string

fun server_step :: "http_app \<Rightarrow> server_event \<Rightarrow> http_state \<Rightarrow> http_state" where
  "server_step app (HttpRequest env r) st = snd (root_handler app env r st)"
| "server_step app (SweepTick f now) st =
     (let (sw, d) = sweeper_tick session_sweep f now (hs_sweeper st, hs_db st)
      in st\<lparr>hs_sweeper := sw, hs_db := d\<rparr>)"
| "server_step app (VerifierReady issuer) st = st\<lparr>hs_oidc := publish_verifier issuer (hs_oidc st)\<rparr>"

fun server_run_events :: "http_app \<Rightarrow> server_event list \<Rightarrow> http_state \<Rightarrow> http_state" where
  "server_run_events app [] st = st"
| "server_run_events app (e # es) st = server_run_events app es (server_step app e st)"

section \<open>What a request may do to the database\<close>

text \<open>The operations of the three stores as one alphabet.\<close>

datatype store_op = UserOp user_op | SessionOp session_op | KeyOp key_op

fun store_exec :: "session_opts \<Rightarrow> store_op \<Rightarrow> db \<Rightarrow> db" where
  "store_exec opts (UserOp op) d = snd (user_exec op d)"
| "store_exec opts (SessionOp op) d = snd (session_exec op opts d)"
| "store_exec opts (KeyOp op) d = snd (key_exec op d)"

definition store_run :: "session_opts \<Rightarrow> store_op list \<Rightarrow> db \<Rightarrow> db" where
  "store_run opts ops d = foldl (\<lambda>d op. store_exec opts op d) d ops"

datatype target = AuthRoute route | MuxAnswer | ProxyRequest

definition request_target :: "http_app \<Rightarrow> request \<Rightarrow> target" where
  "request_target app r =
     (if host_matches (rq_host r) (cf_auth_host (ha_config app)) then
        (case mux_handler (ha_ssh app) r of MuxRoute rt caps \<Rightarrow> AuthRoute rt | _ \<Rightarrow> MuxAnswer)
      else ProxyRequest)"

text \<open>Sign-in upserts a user and creates a session, and so on: nothing else may happen on a route.\<close>

fun allowed_op :: "target \<Rightarrow> store_op \<Rightarrow> bool" where
  "allowed_op (AuthRoute Callback) (UserOp (UUpsert now f c)) = True"
| "allowed_op (AuthRoute Callback) (SessionOp (SCreate now rnd f uid ua ip)) = True"
| "allowed_op (AuthRoute Logout) (SessionOp (SDelete f sid)) = True"
| "allowed_op (AuthRoute EnrollComplete) (KeyOp (KAdd now f uid fp kt pk l)) = True"
| "allowed_op ProxyRequest (SessionOp (STouch now f sid)) = True"
| "allowed_op _ _ = False"

lemma store_run_simps [simp]:
  "store_run opts [] d = d" "store_run opts (op # ops) d = store_run opts ops (store_exec opts op d)"
  by (simp_all add: store_run_def)

lemma callback_ops:
  "\<exists>ops. snd (handle_callback env cfg r w d) = store_run (session_opts_of cfg) ops d
     \<and> list_all (allowed_op (AuthRoute Callback)) ops"
proof (cases "callback_claims env cfg r")
  case (Inl code)
  then show ?thesis by (intro exI [of _ "[]"]) (simp add: handle_callback_def Let_def)
next
  case (Inr x)
  obtain pre c where x: "x = (pre, c)" by (cases x)
  let ?u = "UUpsert (cb_upsert_now env) (cb_upsert_fault env) (claims_user c)"
  obtain ru d1 where u: "upsert_from_oidc (cb_upsert_now env) (cb_upsert_fault env) (claims_user c) d = (ru, d1)"
    by fastforce
  show ?thesis
  proof (cases ru)
    case (Inl e)
    with Inr x u show ?thesis
      by (intro exI [of _ "[UserOp ?u]"]) (simp add: handle_callback_def Let_def)
  next
    case (Inr v)
    let ?c = "SCreate (cb_create_now env) (cb_random env) (cb_create_fault env) (us_id v)
      (header_get (rq_header r) ''User-Agent'') (client_ip r)"
    from Inr \<open>callback_claims env cfg r = Inr x\<close> x u show ?thesis
      by (intro exI [of _ "[UserOp ?u, SessionOp ?c]"])
        (simp add: handle_callback_def Let_def split: prod.split sum.split)
  qed
qed

lemma logout_ops:
  "\<exists>ops. snd (handle_logout f cfg r w d) = store_run (session_opts_of cfg) ops d
     \<and> list_all (allowed_op (AuthRoute Logout)) ops"
proof (cases "session_read r")
  case None
  then show ?thesis by (intro exI [of _ "[]"]) (simp add: handle_logout_def Let_def)
next
  case (Some sid)
  then show ?thesis
    by (cases "snd (handle_logout f cfg r w d) = d";
        intro exI [of _ "[]"] exI [of _ "[SessionOp (SDelete f sid)]"])
      (auto simp: handle_logout_def Let_def split: if_splits prod.splits)
qed

lemma complete_ops:
  "\<exists>ops. snd (snd (complete_on_db opts f host tok r w (ts, d))) = store_run opts ops d
     \<and> list_all (allowed_op (AuthRoute EnrollComplete)) ops"
proof -
  have "snd (snd (complete_on_db opts f host tok r w (ts, d))) = d
      \<or> (\<exists>uid fp kt pk l. snd (snd (complete_on_db opts f host tok r w (ts, d)))
              = snd (key_add (ee_add_now f) (ee_add f) uid fp kt pk l d))"
    unfolding complete_on_db_def handle_complete_def Let_def
    by (auto split: option.split sum.split prod.split) (metis snd_conv)+
  then show ?thesis
  proof
    assume "snd (snd (complete_on_db opts f host tok r w (ts, d))) = d"
    then show ?thesis by (intro exI [of _ "[]"]) simp
  next
    assume "\<exists>uid fp kt pk l. snd (snd (complete_on_db opts f host tok r w (ts, d)))
              = snd (key_add (ee_add_now f) (ee_add f) uid fp kt pk l d)"
    then obtain uid fp kt pk l where "snd (snd (complete_on_db opts f host tok r w (ts, d)))
              = snd (key_add (ee_add_now f) (ee_add f) uid fp kt pk l d)" by blast
    then show ?thesis
      by (intro exI [of _ "[KeyOp (KAdd (ee_add_now f) (ee_add f) uid fp kt pk l)]"])
        (simp add: case_prod_unfold Let_def)
  qed
qed

lemma proxy_ops:
  "\<exists>ops. snd (serve_on_db opts now f cfg r w d) = store_run opts ops d
     \<and> list_all (allowed_op ProxyRequest) ops"
  using serve_on_db_state [of opts now f cfg r w d]
proof (elim disjE exE)
  assume "snd (serve_on_db opts now f cfg r w d) = d"
  then show ?thesis by (intro exI [of _ "[]"]) simp
next
  fix sid
  assume "snd (serve_on_db opts now f cfg r w d) = snd (session_exec (STouch now (pf_touch f) sid) opts d)"
  then show ?thesis by (intro exI [of _ "[SessionOp (STouch now (pf_touch f) sid)]"]) simp
qed

lemma no_ops: "\<exists>ops. d = store_run opts ops d \<and> list_all (allowed_op t) ops"
  by (intro exI [of _ "[]"]) simp

lemma route_ops:
  "\<exists>ops. hs_db (snd (serve_route app env rt caps ctx r w st)) = store_run (session_opts_of (ha_config app)) ops (hs_db st)
     \<and> list_all (allowed_op (AuthRoute rt)) ops"
proof (cases rt)
  case Callback
  show ?thesis
    using callback_ops [of "he_callback env" "ha_config app" r w "hs_db st"] no_ops [of "hs_db st"]
    by (auto simp: serve_route_def Callback Let_def rate_limit_middleware_def case_prod_unfold split: if_splits)
next
  case Logout
  show ?thesis
    using logout_ops [of "he_logout env" "ha_config app" r w "hs_db st"]
    by (simp add: serve_route_def Logout Let_def case_prod_unfold)
next
  case EnrollComplete
  show ?thesis
    using complete_ops [of "session_opts_of (ha_config app)" "he_enroll env" "cf_auth_host (ha_config app)" "hd caps" r w
        "hs_tokens st" "hs_db st"]
    by (simp add: serve_route_def EnrollComplete Let_def case_prod_unfold)
qed (auto simp: serve_route_def Let_def case_prod_unfold intro: no_ops)

lemma root_handler_dispatch:
  "\<exists>ctx w. root_handler app env r st = dispatcher app env ctx r w st"
  unfolding root_handler_def request_id_middleware_def hsts_middleware_def Let_def by blast

lemma dispatcher_ops:
  "\<exists>ops. hs_db (snd (dispatcher app env ctx r w st)) = store_run (session_opts_of (ha_config app)) ops (hs_db st)
     \<and> list_all (allowed_op (request_target app r)) ops"
proof (cases "host_matches (rq_host r) (cf_auth_host (ha_config app))")
  case True
  show ?thesis
  proof (cases "mux_handler (ha_ssh app) r")
    case (MuxRoute rt caps)
    with True route_ops [of app env rt caps ctx r w st] show ?thesis
      by (simp add: dispatcher_def serve_auth_host_def request_target_def case_prod_unfold Let_def)
  qed (use True in \<open>auto simp: dispatcher_def serve_auth_host_def case_prod_unfold Let_def intro: no_ops\<close>)
next
  case False
  with proxy_ops [of "session_opts_of (ha_config app)" "he_now env" "he_proxy env" "ha_config app" r w "hs_db st"]
  show ?thesis by (simp add: dispatcher_def request_target_def case_prod_unfold Let_def)
qed

text \<open>What a route leaves alone beside the database.\<close>

lemma dispatcher_frame:
  "hs_tokens (snd (dispatcher app env ctx r w st)) \<noteq> hs_tokens st \<Longrightarrow> request_target app r = AuthRoute EnrollComplete"
  "hs_login (snd (dispatcher app env ctx r w st)) \<noteq> hs_login st \<Longrightarrow> request_target app r = AuthRoute Login"
  "hs_callback (snd (dispatcher app env ctx r w st)) \<noteq> hs_callback st \<Longrightarrow> request_target app r = AuthRoute Callback"
  "fst (dispatcher app env ctx r w st) = Forward out \<Longrightarrow> request_target app r = ProxyRequest"
  by (auto simp: dispatcher_def serve_auth_host_def request_target_def serve_route_def Let_def case_prod_unfold
      split: if_splits mux_result.splits route.splits)

section \<open>Well-formedness\<close>

text \<open>The database and what may not get lost in it.\<close>

definition well_formed :: "db \<Rightarrow> bool" where
  "well_formed d \<longleftrightarrow> db_wf d \<and> roles_ok d"

definition keeps_identity :: "db \<Rightarrow> db \<Rightarrow> bool" where
  "keeps_identity d d' \<longleftrightarrow> identities d \<subseteq> identities d'
     \<and> (\<forall>fp uid. key_owner d fp = Some uid \<longrightarrow> key_owner d' fp = Some uid)"

lemma keeps_identity_refl: "keeps_identity d d"
  by (simp add: keeps_identity_def)

lemma keeps_identity_trans: "keeps_identity d e \<Longrightarrow> keeps_identity e f \<Longrightarrow> keeps_identity d f"
  by (auto simp: keeps_identity_def)

fun safe_op :: "store_op \<Rightarrow> bool" where
  "safe_op (KeyOp (KRemove f fp)) = False"
| "safe_op _ = True"

lemma allowed_safe: "allowed_op t op \<Longrightarrow> safe_op op"
  by (induction t op rule: allowed_op.induct) auto

lemma roles_ok_users: "users d' = users d \<Longrightarrow> roles_ok d' = roles_ok d"
  by (simp add: roles_ok_def)

lemma store_exec_keeps:
  assumes "well_formed d" and "safe_op op"
  shows "well_formed (store_exec opts op d) \<and> keeps_identity d (store_exec opts op d)"
proof (cases op)
  case (UserOp x)
  have "ssh_keys (snd (user_exec x d)) = ssh_keys d"
    using user_exec_frame [of x d "fst (user_exec x d)" "snd (user_exec x d)"] by simp
  then have "key_owner (snd (user_exec x d)) = key_owner d" by (auto simp: key_owner_def key_abs_def)
  with UserOp assms user_exec_identities [of d x] show ?thesis
    by (simp add: well_formed_def keeps_identity_def user_exec_wf user_exec_roles_ok)
next
  case (SessionOp x)
  have "users (snd (session_exec x opts d)) = users d" "ssh_keys (snd (session_exec x opts d)) = ssh_keys d"
    using session_exec_frame [of x opts d "fst (session_exec x opts d)" "snd (session_exec x opts d)"] by simp_all
  with SessionOp assms session_exec_wf [of d x opts] roles_ok_users [OF this(1)] show ?thesis
    by (simp add: well_formed_def keeps_identity_def identities_def key_owner_def key_abs_def)
next
  case (KeyOp x)
  obtain ok d' where k: "key_exec x d = (ok, d')" by (cases "key_exec x d")
  have "users d' = users d" using key_exec_frame [OF k] by simp
  moreover have "db_wf d'" using key_exec_wf [OF _ k] assms(1) by (simp add: well_formed_def)
  moreover have "key_owner d' fp = Some uid" if "key_owner d fp = Some uid" for fp uid
    using key_exec_owner [OF k, of fp] that assms(2) KeyOp by auto
  ultimately show ?thesis
    using KeyOp k assms(1) roles_ok_users [of d' d] by (simp add: well_formed_def keeps_identity_def identities_def)
qed

lemma store_run_keeps:
  "well_formed d \<Longrightarrow> list_all safe_op ops
   \<Longrightarrow> well_formed (store_run opts ops d) \<and> keeps_identity d (store_run opts ops d)"
proof (induction ops arbitrary: d)
  case Nil
  then show ?case by (simp add: keeps_identity_refl)
next
  case (Cons op ops)
  then have "well_formed (store_exec opts op d) \<and> keeps_identity d (store_exec opts op d)"
    by (simp add: store_exec_keeps)
  with Cons.IH [of "store_exec opts op d"] Cons.prems show ?case by (auto intro: keeps_identity_trans)
qed

lemma server_step_keeps:
  assumes "well_formed (hs_db st)"
  shows "well_formed (hs_db (server_step app e st)) \<and> keeps_identity (hs_db st) (hs_db (server_step app e st))"
proof (cases e)
  case (HttpRequest env r)
  obtain ctx w where "root_handler app env r st = dispatcher app env ctx r w st"
    using root_handler_dispatch by blast
  with dispatcher_ops [of app env ctx r w st] store_run_keeps [OF assms] allowed_safe HttpRequest
  show ?thesis by (auto simp: list.pred_mono_strong)
next
  case (SweepTick f now)
  have "hs_db (server_step app e st) = store_run undefined [SessionOp (SSweep f now)] (hs_db st)"
    by (auto simp: SweepTick sweeper_tick_def case_prod_unfold Let_def split: sum.split prod.split)
  with store_run_keeps [OF assms, of "[SessionOp (SSweep f now)]"] show ?thesis by simp
next
  case (VerifierReady issuer)
  with assms show ?thesis by (simp add: keeps_identity_refl)
qed

section \<open>Properties\<close>

text \<open>
  C10. A request does to the database what its route is for and nothing else.  On the host of the proxy
  it may extend a session; on the auth host the callback may add or refresh a user and create a
  session, logout may delete one, the completion page of an enrollment may add a key; every other
  request leaves the database alone.  Enrollment tokens are used up by the completion page only, each
  limiter counts its own route only, and nothing is forwarded from the auth host.
\<close>

theorem request_effects:
  assumes "root_handler app env r st = (out, st')"
  shows "(\<exists>ops. hs_db st' = store_run (session_opts_of (ha_config app)) ops (hs_db st)
            \<and> list_all (allowed_op (request_target app r)) ops)
         \<and> (hs_tokens st' \<noteq> hs_tokens st \<longrightarrow> request_target app r = AuthRoute EnrollComplete)
         \<and> (hs_login st' \<noteq> hs_login st \<longrightarrow> request_target app r = AuthRoute Login)
         \<and> (hs_callback st' \<noteq> hs_callback st \<longrightarrow> request_target app r = AuthRoute Callback)
         \<and> (\<forall>fwd. out = Forward fwd \<longrightarrow> request_target app r = ProxyRequest
              \<and> normalize_host (rq_host r) \<noteq> normalize_host (cf_auth_host (ha_config app)))"
proof -
  obtain ctx w where d: "dispatcher app env ctx r w st = (out, st')"
    using root_handler_dispatch assms by metis
  note frame = dispatcher_frame [of app env ctx r w st, unfolded d fst_conv snd_conv]
  have "request_target app r = ProxyRequest \<Longrightarrow>
      normalize_host (rq_host r) \<noteq> normalize_host (cf_auth_host (ha_config app))"
    by (auto simp: request_target_def host_matches_def split: if_splits mux_result.splits)
  with frame dispatcher_ops [of app env ctx r w st] d show ?thesis by simp
qed

text \<open>An environment in which nothing fails, and the process of a plain deployment.\<close>

definition example_http_env :: http_env where
  "example_http_env =
     \<lparr>he_random_id = Inr ''id'', he_stamp = ''t'', he_now = seconds 1200, he_later = seconds 1200,
      he_me_session = None, he_me_user = None, he_login1 = Inr ''c3Q'', he_login2 = Inr ''bm8'',
      he_callback = example_callback_env no_fault, he_logout = no_fault,
      he_enroll = \<lparr>ee_now = seconds 1200, ee_get = None, ee_user = None, ee_consume_now = seconds 1200,
                    ee_add_now = seconds 1200, ee_add = no_fault, ee_lookup = None\<rparr>,
      he_proxy = no_proxy_fault, he_ping_writer = None, he_ping_reader = None\<rparr>"

definition example_app :: http_app where
  "example_app =
     \<lparr>ha_config = example_config, ha_build = \<lparr>bi_version = ''v1'', bi_commit = ''abc'', bi_dirty = False\<rparr>, ha_ssh = False,
      ha_auth_url = example_auth_url, ha_files = (\<lambda>_ w. write_body ''page'' w)\<rparr>"

definition example_state :: http_state where
  "example_state = http_start example_config (session_run example_opts example_ops example_db)"

definition example_logout :: request where
  "example_logout =
     \<lparr>rq_method = ''POST'', rq_host = ''Auth.forgeutah.tech:443'', rq_url = empty_url\<lparr>u_path := ''/auth/logout''\<rparr>,
      rq_header = [(''Cookie'', [''forge_session=YWJj'']), (''Origin'', [''https://auth.forgeutah.tech''])],
      rq_trailer = [], rq_remote_addr = ''10.0.0.1:5000'', rq_body = []\<rparr>"

lemma request_effects_witness:
  "let opts = session_opts_of example_config;
       live = (\<lambda>d. \<not> isl (session_get opts (seconds 1200) None ''YWJj'' d))
   in \<exists>ops. live (hs_db example_state) \<and> \<not> live (store_run opts ops (hs_db example_state))
        \<and> list_all (allowed_op (AuthRoute Logout)) ops"
proof -
  let ?h = "root_handler example_app example_http_env example_logout example_state"
  let ?g = "\<lambda>d. isl (session_get (session_opts_of example_config) (seconds 1200) None ''YWJj'' d)"
  have t: "request_target example_app example_logout = AuthRoute Logout" by code_simp
  have s: "?g (hs_db (snd ?h))" "\<not> ?g (hs_db example_state)" by code_simp+
  have o: "ha_config example_app = example_config" by code_simp
  from request_effects [OF surjective_pairing [of ?h]] s show ?thesis unfolding t o Let_def by metis
qed

text \<open>
  The database stays well formed under all traffic: whatever requests arrive, with whatever
  failures, sweeps and restarts of the verifier between them, the constraints of the schema hold, every
  stored list of roles parses, no user loses the identity it was created with and no registered key
  changes its owner.
\<close>

theorem server_keeps_well_formed:
  assumes "well_formed (hs_db st)"
  shows "well_formed (hs_db (server_run_events app es st))
         \<and> keeps_identity (hs_db st) (hs_db (server_run_events app es st))"
  using assms
proof (induction es arbitrary: st)
  case Nil
  then show ?case by (simp add: keeps_identity_refl)
next
  case (Cons e es)
  with server_step_keeps [of st app e] Cons.IH [of "server_step app e st"] show ?case
    by (auto intro: keeps_identity_trans)
qed

lemma server_keeps_well_formed_witness:
  "let st = server_run_events example_app
              [HttpRequest example_http_env example_logout, SweepTick no_fault (seconds 9000)]
              (http_start example_config example_db)
   in well_formed (hs_db st) \<and> keeps_identity example_db (hs_db st)"
proof -
  have "hs_db (http_start example_config example_db) = example_db" by (simp add: http_start_def)
  moreover have "well_formed example_db" by (simp add: well_formed_def example_roles_ok)
  ultimately show ?thesis unfolding Let_def by (metis server_keeps_well_formed)
qed

end
