(* ===== verification/Cli.thy ===== *)
theory Cli
  imports GoUrl
begin

text \<open>
  The command line of \<open>cmd/forge-proxy/main.go\<close>: the global flags, the choice of the env file, and
  which of the four things a process does.

  The environment of a process is a partial map.  \<open>godotenv.Load\<close> is a parameter from a file and an
  environment to the new environment or an error; \<open>os.Stat\<close> is the predicate of the paths it finds.
\<close>

section \<open>Environment\<close>

type_synonym proc_env = "string \<rightharpoonup> string"

definition os_getenv :: "proc_env \<Rightarrow> string \<Rightarrow> string" where
  "os_getenv e k = (case e k of None \<Rightarrow> [] | Some v \<Rightarrow> v)"

text \<open>
  \<open>os.ExpandEnv\<close> for the form \<open>$NAME\<close>; the form with braces and the special names of the shell do not
  occur in the paths it is used on.
\<close>

definition name_char :: "char \<Rightarrow> bool" where
  "name_char c \<longleftrightarrow> is_alnum c \<or> c = CHR ''_''"

function expand_env :: "proc_env \<Rightarrow> string \<Rightarrow> string" where
  "expand_env e s =
     (case s of
        [] \<Rightarrow> []
      | c # t \<Rightarrow>
          if c = CHR ''$'' \<and> takeWhile name_char t \<noteq> [] then
            os_getenv e (takeWhile name_char t) @ expand_env e (dropWhile name_char t)
          else c # expand_env e t)"
  by pat_completeness auto
termination
  by (relation "measure (length \<circ> snd)") (auto simp: less_Suc_eq_le length_dropWhile_le)

definition daemon_marker_env :: string where "daemon_marker_env = ''__FORGE_PROXY_DAEMONIZED''"

definition is_daemon_child :: "proc_env \<Rightarrow> bool" where
  "is_daemon_child e \<longleftrightarrow> os_getenv e daemon_marker_env = ''1''"

section \<open>Flags\<close>

definition extract_value_flag :: "string list \<Rightarrow> string \<Rightarrow> (string list \<times> string) result" where
  "extract_value_flag args flag =
     (case args of
        [] \<Rightarrow> Inr (args, [])
      | first # rest \<Rightarrow>
          if first = flag then
            (case rest of
               [] \<Rightarrow> Inl (Message (flag @ '' requires a value''))
             | v # rest' \<Rightarrow> Inr (rest', v))
          else if has_prefix first (flag @ ''='') then
            (let value = trim_prefix first (flag @ ''='')
             in if value = [] then Inl (Message (flag @ ''= requires a non-empty value'')) else Inr (rest, value))
          else Inr (args, []))"

definition extract_bool_flag :: "string list \<Rightarrow> string \<Rightarrow> string list \<times> bool" where
  "extract_bool_flag args flag =
     (if args \<noteq> [] \<and> hd args = flag then (tl args, True) else (args, False))"

definition extract_env_file_flag :: "string list \<Rightarrow> (string list \<times> string) result" where
  "extract_env_file_flag args =
     (case args of
        [] \<Rightarrow> Inr (args, [])
      | first # rest \<Rightarrow>
          if first = ''--env-file'' then
            (case rest of
               [] \<Rightarrow> Inl (Message ''--env-file requires a path argument'')
             | v # rest' \<Rightarrow> Inr (rest', v))
          else if has_prefix first ''--env-file='' then
            (let value = trim_prefix first ''--env-file=''
             in if value = [] then Inl (Message ''--env-file= requires a non-empty path'') else Inr (rest, value))
          else Inr (args, []))"

definition rebuild_child_args :: "string \<Rightarrow> string list \<Rightarrow> string list" where
  "rebuild_child_args env_file remaining =
     (if env_file \<noteq> [] then [''--env-file'', env_file] else []) @ remaining"

section \<open>The env file\<close>

definition default_env_file_candidates :: "string list" where
  "default_env_file_candidates =
     [''$FORGE_PROXY_ENV_FILE'',
      ''/etc/forge-proxy.env'',
      ''$XDG_CONFIG_HOME/forge-proxy.env'',
      ''$HOME/.config/forge-proxy.env'',
      ''./forge-proxy.env'']"

fun first_existing :: "(string \<Rightarrow> bool) \<Rightarrow> string list \<Rightarrow> string" where
  "first_existing exists [] = []"
| "first_existing exists (path # paths) =
     (if path = [] then first_existing exists paths
      else if exists path then path
      else first_existing exists paths)"

definition default_env_file_path :: "(string \<Rightarrow> bool) \<Rightarrow> proc_env \<Rightarrow> string" where
  "default_env_file_path exists e = first_existing exists (map (expand_env e) default_env_file_candidates)"

definition loaded_env_file :: string where "loaded_env_file = ''FORGE_PROXY_LOADED_ENV_FILE''"

type_synonym dotenv = "string \<Rightarrow> proc_env \<Rightarrow> proc_env result"

definition load_env_file :: "dotenv \<Rightarrow> string \<Rightarrow> proc_env \<Rightarrow> proc_env result" where
  "load_env_file dotenv path e =
     (case dotenv path e of
        Inl err \<Rightarrow> Inl (Wrap (''load env file '' @ path) err)
      | Inr e' \<Rightarrow> Inr (e'(loaded_env_file \<mapsto> path)))"

definition resolve_env_file :: "dotenv \<Rightarrow> (string \<Rightarrow> bool) \<Rightarrow> string \<Rightarrow> proc_env \<Rightarrow> proc_env result" where
  "resolve_env_file dotenv exists env_file e =
     (if env_file \<noteq> [] then load_env_file dotenv env_file e
      else if default_env_file_path exists e \<noteq> [] then
        load_env_file dotenv (default_env_file_path exists e) e
      else Inr e)"

section \<open>What the process does\<close>

datatype plan =
    AdminCommand "string list"
  | SetupCommand "string list"
  | Daemonize "string list" string string
  | Serve

definition main_plan ::
    "dotenv \<Rightarrow> (string \<Rightarrow> bool) \<Rightarrow> string list \<Rightarrow> proc_env \<Rightarrow> (plan \<times> proc_env) result" where
  "main_plan dotenv exists args e =
     (case extract_env_file_flag args of
        Inl err \<Rightarrow> Inl err
      | Inr (args1, env_file) \<Rightarrow>
          (let (args2, daemon) = extract_bool_flag args1 ''--daemon''
           in case extract_value_flag args2 ''--pid-file'' of
                Inl err \<Rightarrow> Inl err
              | Inr (args3, pid_file) \<Rightarrow>
                  (case extract_value_flag args3 ''--log-file'' of
                     Inl err \<Rightarrow> Inl err
                   | Inr (args4, log_file) \<Rightarrow>
                       (case resolve_env_file dotenv exists env_file e of
                          Inl err \<Rightarrow> Inl err
                        | Inr e' \<Rightarrow>
                            Inr (if args4 \<noteq> [] \<and> hd args4 = ''admin'' then AdminCommand (tl args4)
                                 else if args4 \<noteq> [] \<and> hd args4 = ''setup'' then SetupCommand (tl args4)
                                 else if daemon \<and> \<not> is_daemon_child e' then
                                   Daemonize (rebuild_child_args env_file args4) pid_file log_file
                                 else Serve, e')))))"

section \<open>Facts\<close>

lemmas flag_defs = extract_value_flag_def extract_bool_flag_def extract_env_file_flag_def

lemma os_getenv_update [simp]: "os_getenv (e(k \<mapsto> v)) k' = (if k' = k then v else os_getenv e k')"
  by (simp add: os_getenv_def)

lemma env_keys_differ [simp]: "daemon_marker_env \<noteq> loaded_env_file" "loaded_env_file \<noteq> daemon_marker_env"
  by (simp_all add: daemon_marker_env_def loaded_env_file_def)

lemma main_plan_daemonize:
  "main_plan dotenv exists args e = Inr (Daemonize c p l, e') \<Longrightarrow> \<not> is_daemon_child e'"
  by (auto simp: main_plan_def split: sum.splits prod.splits if_splits)

text \<open>
  What is relied on of \<open>godotenv.Load\<close>: it leaves variables alone that are set, and loading a file
  whose variables are all set already changes nothing.
\<close>

definition dotenv_keeps :: "dotenv \<Rightarrow> bool" where
  "dotenv_keeps dotenv \<longleftrightarrow> (\<forall>p e e' k v. dotenv p e = Inr e' \<longrightarrow> e k = Some v \<longrightarrow> e' k = Some v)"

definition dotenv_again :: "dotenv \<Rightarrow> bool" where
  "dotenv_again dotenv \<longleftrightarrow> (\<forall>p e e' m. dotenv p e = Inr e' \<longrightarrow> dom e' \<subseteq> dom m \<longrightarrow> dotenv p m = Inr m)"

lemma resolve_keeps_marker:
  assumes "dotenv_keeps dotenv"
    and "resolve_env_file dotenv exists f e = Inr e'" and "e daemon_marker_env = Some v"
  shows "e' daemon_marker_env = Some v"
  using assms by (auto simp: dotenv_keeps_def resolve_env_file_def load_env_file_def split: if_splits sum.splits)

lemma daemon_child_stays:
  assumes "dotenv_keeps dotenv"
    and "e daemon_marker_env = Some ''1''"
  shows "main_plan dotenv exists args e \<noteq> Inr (Daemonize c p l, e')"
proof
  assume plan: "main_plan dotenv exists args e = Inr (Daemonize c p l, e')"
  then obtain f where r: "resolve_env_file dotenv exists f e = Inr e'"
    by (auto simp: main_plan_def split: sum.splits prod.splits)
  from resolve_keeps_marker [OF assms(1) r assms(2)] have "is_daemon_child e'"
    by (simp add: is_daemon_child_def os_getenv_def)
  with main_plan_daemonize [OF plan] show False by simp
qed

text \<open>Arguments that hold none of the global flags in front, and no subcommand.\<close>

definition plain_args :: "string list \<Rightarrow> bool" where
  "plain_args args \<longleftrightarrow>
     (args \<noteq> [] \<longrightarrow> hd args \<notin> {''--daemon'', ''admin'', ''setup'', ''--pid-file'', ''--log-file''}
        \<and> \<not> has_prefix (hd args) ''--pid-file='' \<and> \<not> has_prefix (hd args) ''--log-file='')"

definition flag_args :: "string \<Rightarrow> string \<Rightarrow> string list" where
  "flag_args flag v = (if v = [] then [] else [flag, v])"

lemma extract_plain:
  assumes "plain_args args"
  shows "extract_bool_flag args ''--daemon'' = (args, False)"
    and "extract_value_flag args ''--pid-file'' = Inr (args, [])"
    and "extract_value_flag args ''--log-file'' = Inr (args, [])"
    and "\<not> (args \<noteq> [] \<and> hd args = ''admin'')" and "\<not> (args \<noteq> [] \<and> hd args = ''setup'')"
  using assms by (auto simp: plain_args_def flag_defs split: list.splits)

lemma extract_value_given [simp]:
  "extract_value_flag (flag # v # args) flag = Inr (args, v)"
  "extract_value_flag (''--log-file'' # args) ''--pid-file'' = Inr (''--log-file'' # args, [])"
  by (simp_all add: extract_value_flag_def has_prefix_def)

lemma extract_flag_args:
  assumes "plain_args args"
  shows "extract_value_flag (flag_args ''--log-file'' l @ args) ''--log-file'' = Inr (args, l)"
    and "extract_value_flag (flag_args ''--pid-file'' p @ flag_args ''--log-file'' l @ args) ''--pid-file''
           = Inr (flag_args ''--log-file'' l @ args, p)"
  using extract_plain [OF assms] by (simp_all add: flag_args_def)

lemma resolve_given:
  "dotenv f e = Inr e' \<Longrightarrow> f \<noteq> [] \<Longrightarrow> resolve_env_file dotenv exists f e = Inr (e'(loaded_env_file \<mapsto> f))"
  by (simp add: resolve_env_file_def load_env_file_def)

section \<open>Properties\<close>

text \<open>
  C35. \<open>forge-proxy --env-file f --daemon [--pid-file p] [--log-file l] ...\<close> hands over to a child that
  serves: the parent starts one child, the arguments it passes make the child read the same env file,
  the child serves with exactly the environment the parent had, and no process with the marker of a
  child in its environment ever forks again, whatever its arguments and files.  The loader is one
  that leaves variables alone that are set and that can load a file a second time.
\<close>

theorem daemon_child_serves:
  assumes keep: "dotenv_keeps dotenv" and again: "dotenv_again dotenv"
    and loads: "dotenv f e = Inr e0" "f \<noteq> []" and parent: "\<not> is_daemon_child e0" and rest: "plain_args rest"
  shows "\<exists>c. main_plan dotenv exists
               ([''--env-file'', f, ''--daemon''] @ flag_args ''--pid-file'' p @ flag_args ''--log-file'' l @ rest) e
               = Inr (Daemonize c p l, e0(loaded_env_file \<mapsto> f))
           \<and> (let e' = e0(loaded_env_file \<mapsto> f, daemon_marker_env \<mapsto> ''1'')
              in main_plan dotenv exists' c e' = Inr (Serve, e')
                 \<and> (\<forall>ex args c' p' l' e2. main_plan dotenv ex args e' \<noteq> Inr (Daemonize c' p' l', e2)))"
proof -
  let ?e' = "e0(loaded_env_file \<mapsto> f, daemon_marker_env \<mapsto> ''1'')"
  have "\<not> is_daemon_child (e0(loaded_env_file \<mapsto> f))"
    using parent by (simp add: is_daemon_child_def)
  then have "main_plan dotenv exists
      ([''--env-file'', f, ''--daemon''] @ flag_args ''--pid-file'' p @ flag_args ''--log-file'' l @ rest) e
      = Inr (Daemonize (rebuild_child_args f rest) p l, e0(loaded_env_file \<mapsto> f))"
    using rest
    by (simp add: main_plan_def extract_env_file_flag_def extract_bool_flag_def extract_flag_args extract_plain(4,5)
        resolve_given [of dotenv, OF loads])
  moreover have "dom e0 \<subseteq> dom ?e'" by auto
  then have "dotenv f ?e' = Inr ?e'" using again loads(1) unfolding dotenv_again_def by blast
  from resolve_given [of dotenv f, OF this loads(2)] have "resolve_env_file dotenv exists' f ?e' = Inr ?e'"
    by (simp add: fun_upd_twist)
  then have "main_plan dotenv exists' (rebuild_child_args f rest) ?e' = Inr (Serve, ?e')"
    using extract_plain [OF rest] loads(2)
    by (simp add: main_plan_def rebuild_child_args_def extract_env_file_flag_def is_daemon_child_def)
  moreover have "main_plan dotenv ex args ?e' \<noteq> Inr (Daemonize c' p' l', e2)" for ex args c' p' l' e2
    by (rule daemon_child_stays [OF keep]) simp_all
  ultimately show ?thesis by (auto simp: Let_def)
qed

text \<open>A loader of env files given by their contents, as the concrete instance.\<close>

definition map_dotenv :: "(string \<rightharpoonup> (string \<times> string) list) \<Rightarrow> dotenv" where
  "map_dotenv files p e =
     (case files p of
        None \<Rightarrow> Inl (Message (''open '' @ p @ '': no such file or directory''))
      | Some vars \<Rightarrow> Inr (map_of vars ++ e))"

lemma map_dotenv_ok: "dotenv_keeps (map_dotenv files)" "dotenv_again (map_dotenv files)"
proof -
  show "dotenv_keeps (map_dotenv files)"
    by (auto simp: dotenv_keeps_def map_dotenv_def split: option.splits)
  have "map_of vars ++ m = m" if "dom (map_of vars ++ e) \<subseteq> dom m" for vars and e m :: proc_env
  proof (rule ext)
    fix x
    have "map_of vars x \<noteq> None \<longrightarrow> m x \<noteq> None" using that by (auto simp: subset_iff dom_def map_add_def split: option.splits)
    then show "(map_of vars ++ m) x = m x" by (auto simp: map_add_def split: option.splits)
  qed
  then show "dotenv_again (map_dotenv files)"
    by (auto simp: dotenv_again_def map_dotenv_def split: option.splits)
qed

definition example_env_files :: "string \<rightharpoonup> (string \<times> string) list" where
  "example_env_files = [''/etc/forge-proxy.env'' \<mapsto> [(''LOG_LEVEL'', ''info'')], ''/tmp/f.env'' \<mapsto> [(''LOG_LEVEL'', ''debug'')]]"

lemma daemon_child_serves_witness:
  "\<exists>c e'. main_plan (map_dotenv example_env_files) (\<lambda>_. False)
            [''--env-file'', ''/tmp/f.env'', ''--daemon'', ''--pid-file'', ''/run/p''] Map.empty
            = Inr (Daemonize c ''/run/p'' [], e')
     \<and> main_plan (map_dotenv example_env_files) (\<lambda>_. False) c (e'(daemon_marker_env \<mapsto> ''1''))
         = Inr (Serve, e'(daemon_marker_env \<mapsto> ''1''))
     \<and> os_getenv e' ''LOG_LEVEL'' = ''debug''"
proof -
  let ?e0 = "map_of [(''LOG_LEVEL'', ''debug'')] ++ Map.empty"
  have l: "map_dotenv example_env_files ''/tmp/f.env'' Map.empty = Inr ?e0"
    by (simp add: map_dotenv_def example_env_files_def)
  have m: "\<not> is_daemon_child ?e0" by (simp add: is_daemon_child_def daemon_marker_env_def os_getenv_def)
  have r: "plain_args []" by (simp add: plain_args_def)
  from daemon_child_serves [OF map_dotenv_ok l _ m r, where p = "''/run/p''" and l = "[]" and exists = "\<lambda>_. False"
      and exists' = "\<lambda>_. False"]
  show ?thesis
    by (auto simp: Let_def flag_args_def os_getenv_def loaded_env_file_def)
qed

text \<open>
  The flags are looked for in the first argument only, in one order: an invocation with the same flags
  the other way round runs in the foreground.
\<close>

lemma flags_out_of_order:
  "default_env_file_path exists e = [] \<Longrightarrow> main_plan dotenv exists [''--log-file'', l, ''--daemon''] e = Inr (Serve, e)"
  by (simp add: main_plan_def extract_env_file_flag_def extract_bool_flag_def extract_value_flag_def has_prefix_def
      resolve_env_file_def)

text \<open>
  With \<open>--env-file\<close> after \<open>--daemon\<close> the parent loads a default file first, and what that file sets the
  file of the flag can no longer change in the child.
\<close>

lemma env_file_after_daemon:
  "let plan = main_plan (map_dotenv example_env_files) (\<lambda>p. p = ''/etc/forge-proxy.env'')
   in case plan [''--daemon'', ''--env-file'', ''/tmp/f.env''] Map.empty of
        Inr (Daemonize c p l, e') \<Rightarrow>
          (case plan c (e'(daemon_marker_env \<mapsto> ''1'')) of
             Inr (Serve, e2) \<Rightarrow> os_getenv e2 loaded_env_file = ''/tmp/f.env'' \<and> os_getenv e2 ''LOG_LEVEL'' = ''info''
           | _ \<Rightarrow> False)
      | _ \<Rightarrow> False"
  by code_simp

text \<open>Without \<open>XDG_CONFIG_HOME\<close> the third candidate is a file of the root directory.\<close>

lemma xdg_unset_probes_root:
  "default_env_file_path (\<lambda>p. p = ''/forge-proxy.env'') Map.empty = ''/forge-proxy.env''"
  by code_simp

end
