(* ===== verification/Daemon.thy ===== *)
theory Daemon
  imports Cli GoFiles
begin

text \<open>
  \<open>cmd/forge-proxy/daemon.go\<close>: starting the server in the background under a PID file.

  The machine is its files and its processes.  What the operating system answers is an input: the
  user of the caller, the directories it can write to, the PID of a started process, and the failure
  of each call.
\<close>

section \<open>The machine\<close>

record process =
  pr_user :: string
  pr_args :: "string list"
  pr_env :: proc_env
  pr_output :: string

record machine =
  mc_files :: file_system
  mc_procs :: "int \<rightharpoonup> process"
  mc_started :: "int list"

record daemon_env =
  dn_user :: string
  dn_environ :: proc_env
  dn_is_dir :: "string \<Rightarrow> bool"
  dn_probe :: "string \<Rightarrow> err option"
  dn_read :: "err option"
  dn_open_log :: "err option"
  dn_start :: "int result"
  dn_write_pid :: "(err \<times> string option) option"

text \<open>Signal 0 is delivered to a process that exists and that the caller may signal.\<close>

definition may_signal :: "string \<Rightarrow> process \<Rightarrow> bool" where
  "may_signal usr p \<longleftrightarrow> usr = ''root'' \<or> pr_user p = usr"

definition signal_zero :: "string \<Rightarrow> machine \<Rightarrow> int \<Rightarrow> bool" where
  "signal_zero usr m pid = (case mc_procs m pid of None \<Rightarrow> False | Some p \<Rightarrow> may_signal usr p)"

section \<open>Where the files go\<close>

definition writable :: "daemon_env \<Rightarrow> string \<Rightarrow> bool" where
  "writable de dir \<longleftrightarrow> dn_is_dir de dir \<and> dn_probe de dir = None"

definition resolve_pid_file :: "daemon_env \<Rightarrow> string" where
  "resolve_pid_file de =
     (if writable de ''/var/run'' then ''/var/run/forge-proxy.pid'' else ''/tmp'' @ ''/forge-proxy.pid'')"

definition resolve_log_file :: "daemon_env \<Rightarrow> string" where
  "resolve_log_file de =
     (if writable de ''/var/log'' then ''/var/log/forge-proxy.log'' else ''/tmp'' @ ''/forge-proxy.log'')"

definition pid_path :: "daemon_env \<Rightarrow> string \<Rightarrow> string" where
  "pid_path de pid_file = (if pid_file = [] then resolve_pid_file de else pid_file)"

definition log_path :: "daemon_env \<Rightarrow> string \<Rightarrow> string" where
  "log_path de log_file = (if log_file = [] then resolve_log_file de else log_file)"

section \<open>The PID file\<close>

definition check_existing_pid_file :: "daemon_env \<Rightarrow> string \<Rightarrow> machine \<Rightarrow> unit result" where
  "check_existing_pid_file de pid_file m =
     (case dn_read de of
        Some e \<Rightarrow> Inl (Wrap (''read pid file '' @ pid_file) e)
      | None \<Rightarrow>
     (case mc_files m pid_file of
        None \<Rightarrow> Inr ()
      | Some file \<Rightarrow>
     (case atoi (trim_space (fl_content file)) of
        None \<Rightarrow> Inr ()
      | Some pid \<Rightarrow>
          if pid \<le> 0 then Inr ()
          else if signal_zero (dn_user de) m pid then
            Inl (Message (''forge-proxy is already running (pid '' @ itoa pid @ '', recorded in '' @ pid_file
              @ ''); stop it first''))
          else Inr ())))"

section \<open>daemonize\<close>

definition open_log :: "string \<Rightarrow> file_system \<Rightarrow> file_system" where
  "open_log path fs =
     (case fs path of None \<Rightarrow> fs(path \<mapsto> \<lparr>fl_mode = 6 * 8 ^ 2 + 4 * 8, fl_content = []\<rparr>) | Some _ \<Rightarrow> fs)"

definition daemon_child :: "daemon_env \<Rightarrow> string list \<Rightarrow> string \<Rightarrow> process" where
  "daemon_child de args log_file =
     \<lparr>pr_user = dn_user de, pr_args = args, pr_env = (dn_environ de)(daemon_marker_env \<mapsto> ''1''), pr_output = log_file\<rparr>"

definition daemon_report :: "int \<Rightarrow> string \<Rightarrow> string \<Rightarrow> string" where
  "daemon_report pid log_file pid_file =
     ''forge-proxy: daemonized as pid '' @ itoa pid @ [CHR 0x0A]
     @ ''  log file: '' @ log_file @ [CHR 0x0A]
     @ ''  pid file: '' @ pid_file @ [CHR 0x0A]
     @ ''stop with: kill $(cat '' @ pid_file @ '')'' @ [CHR 0x0A]"

text \<open>What follows the check of the PID file: the log, the child, and the record of its PID.\<close>

definition daemonize_start ::
    "daemon_env \<Rightarrow> string list \<Rightarrow> string \<Rightarrow> string \<Rightarrow> machine \<Rightarrow> string result \<times> machine" where
  "daemonize_start de args pid_file log_file m =
     (case dn_open_log de of
        Some e \<Rightarrow> (Inl (Wrap (''open log file '' @ log_file) e), m)
      | None \<Rightarrow>
          (let m1 = m\<lparr>mc_files := open_log log_file (mc_files m)\<rparr>
           in case dn_start de of
                Inl e \<Rightarrow> (Inl (Wrap ''start daemon'' e), m1)
              | Inr pid \<Rightarrow>
                  (let m2 = m1\<lparr>mc_procs := (mc_procs m1)(pid \<mapsto> daemon_child de args log_file),
                               mc_started := mc_started m1 @ [pid]\<rparr>;
                       (werr, fs) = write_file (dn_write_pid de) pid_file (itoa pid @ [CHR 0x0A]) mode_644 (mc_files m2);
                       m3 = m2\<lparr>mc_files := fs\<rparr>
                   in case werr of
                        Some e \<Rightarrow> (Inl (Wrap (''write pid file '' @ pid_file) e), m3\<lparr>mc_procs := (mc_procs m3)(pid := None)\<rparr>)
                      | None \<Rightarrow> (Inr (daemon_report pid log_file pid_file), m3))))"

definition daemonize ::
    "daemon_env \<Rightarrow> string list \<Rightarrow> string \<Rightarrow> string \<Rightarrow> machine \<Rightarrow> string result \<times> machine" where
  "daemonize de args pid_file log_file m =
     (case check_existing_pid_file de (pid_path de pid_file) m of
        Inl e \<Rightarrow> (Inl e, m)
      | Inr _ \<Rightarrow> daemonize_start de args (pid_path de pid_file) (log_path de log_file) m)"

section \<open>Facts\<close>

lemma trim_space_line:
  assumes "list_all edge_char s" and "s \<noteq> []"
  shows "trim_space (s @ [CHR 0x0A]) = s"
proof -
  have e: "edge_char (hd s)" "edge_char (hd (rev s))" using assms by (auto simp: list_all_iff hd_rev)
  obtain c t where s: "s = c # t" using assms(2) by (cases s) auto
  obtain d u where r: "rev s = d # u" using assms(2) by (cases "rev s") auto
  have "trim_left (s @ [CHR 0x0A]) = s @ [CHR 0x0A]"
    using e(1) s by (simp add: trim_left_def strip_left_id stripped_edge)
  moreover have "strip_left (map rev white_space) (CHR 0x0A # rev s) = strip_left (map rev white_space) (rev s)"
    by (subst strip_left.simps) (simp add: white_space_def has_prefix_def)
  moreover have "strip_left (map rev white_space) (rev s) = rev s"
    using e(2) r by (simp add: strip_left_id stripped_rev_edge)
  ultimately show ?thesis by (simp add: trim_space_def trim_right_def)
qed

lemma edge_digit: "is_digit c \<Longrightarrow> edge_char c"
  by (simp add: is_digit_def edge_char_def)

lemma read_back_pid:
  assumes "0 < pid" and "pid < 2 ^ 63"
  shows "atoi (trim_space (itoa pid @ [CHR 0x0A])) = Some pid"
proof -
  have "list_all edge_char (itoa pid)"
    using assms nat_digits_digits [of "nat pid"] by (auto simp: itoa_def list_all_iff edge_digit)
  then show ?thesis using assms by (simp add: trim_space_line atoi_itoa)
qed

text \<open>A live process recorded in the file, and one the caller may signal, stops every second start.\<close>

lemma daemonize_refused:
  assumes "mc_files m path = Some f" and "fl_content f = itoa pid @ [CHR 0x0A]" and "0 < pid" "pid < 2 ^ 63"
    and "mc_procs m pid = Some p" and "may_signal (dn_user de) p" and "pid_path de pf = path"
  shows "\<exists>e. daemonize de args pf lf m = (Inl e, m)"
  using assms read_back_pid [of pid]
  by (auto simp: daemonize_def check_existing_pid_file_def signal_zero_def split: option.split)

lemma write_file_ok: "write_file None path content mode fs = (werr, fs') \<Longrightarrow>
    werr = None \<and> (\<exists>f. fs' path = Some f \<and> fl_content f = content) \<and> (\<forall>p. p \<noteq> path \<longrightarrow> fs' p = fs p)"
  by (auto simp: write_file_def)

lemma write_file_other: "write_file fault path content mode fs = (werr, fs') \<Longrightarrow> p \<noteq> path \<Longrightarrow> fs' p = fs p"
  by (auto simp: write_file_def Let_def split: option.splits prod.splits)

lemma write_file_None: "write_file fault path content mode fs = (None, fs') \<Longrightarrow> fault = None"
  by (auto simp: write_file_def Let_def split: option.splits prod.splits)

text \<open>The two outcomes of a start.\<close>

lemma daemonize_start_ok:
  assumes "daemonize_start de args pid_file log_file m = (res, m')"
    and "dn_open_log de = None" "dn_start de = Inr pid" "dn_write_pid de = None"
  shows "\<not> isl res" and "mc_procs m' = (mc_procs m)(pid \<mapsto> daemon_child de args log_file)"
    and "\<exists>f. mc_files m' pid_file = Some f \<and> fl_content f = itoa pid @ [CHR 0x0A]"
    and "\<forall>path. path \<noteq> pid_file \<and> path \<noteq> log_file \<longrightarrow> mc_files m' path = mc_files m path"
  using assms
  by (auto simp: daemonize_start_def Let_def write_file_def open_log_def split: prod.splits option.splits)

lemma daemonize_start_fails:
  assumes "daemonize_start de args pid_file log_file m = (res, m')"
    and "\<not> (\<exists>pid. dn_open_log de = None \<and> dn_start de = Inr pid \<and> dn_write_pid de = None)"
    and "\<forall>pid. dn_start de = Inr pid \<longrightarrow> mc_procs m pid = None"
  shows "isl res \<and> mc_procs m' = mc_procs m
     \<and> (\<forall>path. path \<noteq> pid_file \<and> path \<noteq> log_file \<longrightarrow> mc_files m' path = mc_files m path)"
proof (cases "dn_open_log de = None \<and> \<not> isl (dn_start de)")
  case True
  then obtain pid where o: "dn_open_log de = None" "dn_start de = Inr pid" by (auto simp: isl_def) (metis sum.exhaust)
  with assms(2) obtain we where "dn_write_pid de = Some we" by auto
  with o assms(1,3) show ?thesis
    by (cases we) (auto simp: daemonize_start_def Let_def write_file_def open_log_def fun_upd_idem
        split: prod.splits option.splits)
next
  case False
  with assms(1) show ?thesis
    by (auto simp: daemonize_start_def Let_def open_log_def split: option.splits sum.splits)
qed

section \<open>Properties\<close>

text \<open>
  C39. A daemon start accounts for its process.  When it fails it leaves no process behind, whatever
  step failed; when it succeeds there is exactly one new process, a child with the marker in its
  environment, and the PID file names it.  From then on, as long as that process lives and the file
  is as it was written, no start under the same PID file by a user who may signal the process does
  anything but fail.  Files other than the log and the PID file are left alone.
\<close>

theorem daemonize_accounts:
  assumes fresh: "\<forall>pid. dn_start de = Inr pid \<longrightarrow> 0 < pid \<and> pid < 2 ^ 63 \<and> mc_procs m pid = None"
    and run: "daemonize de args pf lf m = (res, m')"
  shows "(isl res \<longrightarrow> mc_procs m' = mc_procs m)
     \<and> (\<forall>path. path \<noteq> pid_path de pf \<and> path \<noteq> log_path de lf \<longrightarrow> mc_files m' path = mc_files m path)
     \<and> (\<not> isl res \<longrightarrow> (\<exists>pid child. dn_start de = Inr pid
          \<and> mc_procs m' = (mc_procs m)(pid \<mapsto> child) \<and> pr_args child = args \<and> is_daemon_child (pr_env child)
          \<and> map_option fl_content (mc_files m' (pid_path de pf)) = Some (itoa pid @ [CHR 0x0A])
          \<and> (\<forall>de2 pf2 args2 lf2 m2. pid_path de2 pf2 = pid_path de pf \<and> may_signal (dn_user de2) child
                \<and> mc_procs m2 pid = Some child \<and> mc_files m2 (pid_path de pf) = mc_files m' (pid_path de pf)
                \<longrightarrow> (\<exists>e. daemonize de2 args2 pf2 lf2 m2 = (Inl e, m2)))))"
proof (cases "check_existing_pid_file de (pid_path de pf) m")
  case (Inl e)
  with run show ?thesis by (auto simp: daemonize_def)
next
  case (Inr u)
  with run have start: "daemonize_start de args (pid_path de pf) (log_path de lf) m = (res, m')"
    by (simp add: daemonize_def)
  show ?thesis
  proof (cases "\<exists>pid. dn_open_log de = None \<and> dn_start de = Inr pid \<and> dn_write_pid de = None")
    case True
    then obtain pid where o: "dn_open_log de = None" "dn_start de = Inr pid" "dn_write_pid de = None" by blast
    let ?c = "daemon_child de args (log_path de lf)"
    note ok = daemonize_start_ok [OF start o]
    have c: "pr_args ?c = args" "is_daemon_child (pr_env ?c)"
      by (simp_all add: daemon_child_def is_daemon_child_def)
    have "\<exists>e. daemonize de2 args2 pf2 lf2 m2 = (Inl e, m2)"
      if "pid_path de2 pf2 = pid_path de pf" "may_signal (dn_user de2) ?c" "mc_procs m2 pid = Some ?c"
        "mc_files m2 (pid_path de pf) = mc_files m' (pid_path de pf)" for de2 pf2 args2 lf2 m2
      using ok(3) fresh o(2) that daemonize_refused [of m2 "pid_path de pf" _ pid ?c de2 pf2 args2 lf2] by auto
    with ok c o(2) show ?thesis by (intro conjI impI exI [of _ pid] exI [of _ ?c]) auto
  next
    case False
    with daemonize_start_fails [OF start False] fresh show ?thesis by auto
  qed
qed

definition empty_machine :: machine where
  "empty_machine = \<lparr>mc_files = (\<lambda>_. None), mc_procs = (\<lambda>_. None), mc_started = []\<rparr>"

definition example_daemon :: "string \<Rightarrow> int \<Rightarrow> daemon_env" where
  "example_daemon usr pid =
     \<lparr>dn_user = usr, dn_environ = (\<lambda>_. None), dn_is_dir = (\<lambda>d. d = ''/tmp''), dn_probe = (\<lambda>_. None), dn_read = None,
      dn_open_log = None, dn_start = Inr pid, dn_write_pid = None\<rparr>"

lemma daemonize_accounts_witness:
  "\<exists>out m' e. daemonize (example_daemon ''root'' 41) [] [] [] empty_machine = (Inr out, m')
     \<and> map_option fl_content (mc_files m' ''/tmp/forge-proxy.pid'') = Some (''41'' @ [CHR 0x0A])
     \<and> daemonize (example_daemon ''root'' 42) [] [] [] m' = (Inl e, m')"
proof -
  let ?d = "example_daemon ''root'' 41"
  obtain res m' where r: "daemonize ?d [] [] [] empty_machine = (res, m')" by fastforce
  have "\<not> isl (fst (daemonize ?d [] [] [] empty_machine))" by code_simp
  then obtain out where out: "res = Inr out" using r by (cases res) simp_all
  have path: "pid_path ?d [] = ''/tmp/forge-proxy.pid''" "pid_path (example_daemon ''root'' 42) [] = ''/tmp/forge-proxy.pid''"
    by code_simp+
  have i: "itoa 41 = ''41''" by code_simp
  have fresh: "\<forall>pid. dn_start ?d = Inr pid \<longrightarrow> 0 < pid \<and> pid < 2 ^ 63 \<and> mc_procs empty_machine pid = None"
    by (simp add: example_daemon_def empty_machine_def)
  have "dn_start ?d = Inr 41" by (simp add: example_daemon_def)
  moreover have "\<not> isl res" using out by simp
  ultimately obtain child where c: "mc_procs m' = (mc_procs empty_machine)(41 \<mapsto> child)"
      "map_option fl_content (mc_files m' (pid_path ?d [])) = Some (itoa 41 @ [CHR 0x0A])"
    and later: "\<forall>de2 pf2 args2 lf2 m2. pid_path de2 pf2 = pid_path ?d [] \<and> may_signal (dn_user de2) child
        \<and> mc_procs m2 41 = Some child \<and> mc_files m2 (pid_path ?d []) = mc_files m' (pid_path ?d [])
        \<longrightarrow> (\<exists>e. daemonize de2 args2 pf2 lf2 m2 = (Inl e, m2))"
    using daemonize_accounts [OF fresh r] by (metis sum.inject(2))
  moreover have "mc_procs m' 41 = Some child" using c by simp
  moreover have "may_signal (dn_user (example_daemon ''root'' 42)) child" by (simp add: example_daemon_def may_signal_def)
  ultimately show ?thesis using r out path i by metis
qed

text \<open>
  The probe cannot tell a process of another user from one that is gone, so the server another user
  started, and recorded in the same file, does not stop a second start.
\<close>

lemma foreign_daemon_restarted:
  "let m = snd (daemonize (example_daemon ''forge-proxy'' 41) [] ''/run/p'' [] empty_machine);
       m2 = snd (daemonize (example_daemon ''ops'' 42) [] ''/run/p'' [] m)
   in mc_procs m2 41 \<noteq> None \<and> mc_procs m2 42 \<noteq> None
      \<and> map_option fl_content (mc_files m2 ''/run/p'') = Some (''42'' @ [CHR 0x0A])"
  by code_simp

text \<open>Two starts whose checks both run before either has written the file both succeed.\<close>

lemma concurrent_starts_both_run:
  "let a = example_daemon ''root'' 41; b = example_daemon ''root'' 42; m = empty_machine
   in check_existing_pid_file a ''/run/p'' m = Inr () \<and> check_existing_pid_file b ''/run/p'' m = Inr ()
      \<and> (let m1 = snd (daemonize_start a [] ''/run/p'' ''/l'' m); m2 = snd (daemonize_start b [] ''/run/p'' ''/l'' m1)
         in mc_procs m2 41 \<noteq> None \<and> mc_procs m2 42 \<noteq> None
            \<and> map_option fl_content (mc_files m2 ''/run/p'') = Some (''42'' @ [CHR 0x0A]))"
  by code_simp

text \<open>
  Whether the PID file can be written is found out after the child has been started: a start that
  cannot write it has run a server for a moment.
\<close>

lemma pid_file_found_unwritable_late:
  "dn_open_log de = None \<Longrightarrow> dn_start de = Inr pid \<Longrightarrow> dn_write_pid de = Some w \<Longrightarrow>
   check_existing_pid_file de (pid_path de pf) m = Inr () \<Longrightarrow>
   mc_started (snd (daemonize de args pf lf m)) = mc_started m @ [pid] \<and> isl (fst (daemonize de args pf lf m))"
  by (cases w; cases "snd w") (simp_all add: daemonize_def daemonize_start_def Let_def write_file_def)

end
