(* ===== verification/GoTime.thy ===== *)
theory GoTime
  imports GoStrings
begin

text \<open>
  \<open>time.Time.Format\<close> with the layout \<open>time.RFC3339\<close>, for times in UTC: the civil date of a day number
  in the proleptic Gregorian calendar, and the zero-padded fields.
\<close>

record civil =
  cv_year :: int
  cv_month :: int
  cv_day :: int

text \<open>Days are counted from 1970-01-01; a year of the computation begins in March.\<close>

definition civil_of_days :: "int \<Rightarrow> civil" where
  "civil_of_days days =
     (let z = days + 719468; era = z div 146097; doe = z mod 146097;
          yoe = (doe - doe div 1460 + doe div 36524 - doe div 146096) div 365;
          doy = doe - (365 * yoe + yoe div 4 - yoe div 100);
          mp = (5 * doy + 2) div 153;
          m = (if mp < 10 then mp + 3 else mp - 9)
      in \<lparr>cv_year = yoe + era * 400 + (if m \<le> 2 then 1 else 0), cv_month = m,
          cv_day = doy - (153 * mp + 2) div 5 + 1\<rparr>)"

definition pad_int :: "nat \<Rightarrow> int \<Rightarrow> string" where
  "pad_int width i =
     (let ds = nat_digits (nat \<bar>i\<bar>)
      in (if i < 0 then ''-'' else []) @ replicate (width - length ds) (CHR ''0'') @ ds)"

definition format_rfc3339 :: "gotime \<Rightarrow> string" where
  "format_rfc3339 t =
     (let secs = unix t; c = civil_of_days (secs div 86400); s = secs mod 86400
      in pad_int 4 (cv_year c) @ ''-'' @ pad_int 2 (cv_month c) @ ''-'' @ pad_int 2 (cv_day c) @ ''T''
         @ pad_int 2 (s div 3600) @ '':'' @ pad_int 2 (s mod 3600 div 60) @ '':'' @ pad_int 2 (s mod 60) @ ''Z'')"

lemma format_rfc3339_examples:
  "format_rfc3339 (from_unix 0) = ''1970-01-01T00:00:00Z''"
  "format_rfc3339 (from_unix 1709164800) = ''2024-02-29T00:00:00Z''"
  "format_rfc3339 (from_unix (-1)) = ''1969-12-31T23:59:59Z''"
  "format_rfc3339 zero_time = ''0001-01-01T00:00:00Z''"
  by code_simp+

end
