(* ===== verification/Admin.thy ===== *)
theory Admin
  imports Config SessionStore UserStore SshKeyStore GoTime
begin

text \<open>
  \<open>cmd/forge-proxy/admin.go\<close>: the admin commands.  A command runs in a process of its own on the
  database of the server; each of its statements and transactions is one step of the database.

  A command yields its error or none, what it printed, and the database.  The failures of the
  statements are inputs.
\<close>

section \<open>The environment of a command\<close>

record admin_env =
  ae_search :: search_fault
  ae_user :: "err option"
  ae_tx :: tx_fault
  ae_keys :: list_fault
  ae_key :: "err option"

definition no_admin_fault :: admin_env where
  "no_admin_fault =
     \<lparr>ae_search = \<lparr>sf_query = None, sf_scan = (\<lambda>_. None), sf_rows = None\<rparr>, ae_user = None, ae_tx = no_fault,
      ae_keys = \<lparr>lf_query = None, lf_scan = (\<lambda>_. None), lf_rows = None\<rparr>, ae_key = None\<rparr>"

type_synonym admin_out = "unit result \<times> string \<times> db"

abbreviation tab :: string where "tab \<equiv> [CHR 0x09]"
abbreviation nl :: string where "nl \<equiv> [CHR 0x0A]"

section \<open>Helpers\<close>

definition parse_roles_arg :: "string \<Rightarrow> string list" where
  "parse_roles_arg raw =
     (if trim_space raw = [] then []
      else filter (\<lambda>p. p \<noteq> []) (map trim_space (str_split (CHR '','') (trim_space raw))))"

definition classify_busy :: "err \<Rightarrow> err" where
  "classify_busy e =
     (let msg = to_lower (err_text e)
      in if str_contains msg ''database is locked'' \<or> str_contains msg ''sqlite_busy'' then
           Wrap ''the database write lock is held by the running server; retry in a few seconds'' e
         else e)"

definition format_last_used :: "gotime \<Rightarrow> string" where
  "format_last_used t = (if t = zero_time then ''never'' else format_rfc3339 t)"

section \<open>The flag of list-users\<close>

text \<open>\<open>flag.FlagSet.Parse\<close> for a set with one string flag.\<close>

datatype flag_err = BadFlagSyntax string | UndefinedFlag string | MissingArgument string | HelpRequested

fun parse_match :: "string \<Rightarrow> string list \<Rightarrow> flag_err + string \<times> string list" where
  "parse_match v [] = Inr (v, [])"
| "parse_match v (s # args) =
     (if length s < 2 \<or> hd s \<noteq> CHR ''-'' then Inr (v, s # args)
      else if s = ''--'' then Inr (v, args)
      else (let name = (if s ! 1 = CHR ''-'' then drop 2 s else drop 1 s)
            in if name = [] \<or> hd name = CHR ''-'' \<or> hd name = CHR ''='' then Inl (BadFlagSyntax s)
               else (let flag = takeWhile (\<lambda>c. c \<noteq> CHR ''='') name; rest = dropWhile (\<lambda>c. c \<noteq> CHR ''='') name
                     in if flag = ''match'' then
                          (if rest \<noteq> [] then parse_match (tl rest) args
                           else (case args of [] \<Rightarrow> Inl (MissingArgument flag) | v' # args' \<Rightarrow> parse_match v' args'))
                        else if flag = ''help'' \<or> flag = ''h'' then Inl HelpRequested
                        else Inl (UndefinedFlag flag))))"

fun flag_err_text :: "flag_err \<Rightarrow> string" where
  "flag_err_text (BadFlagSyntax s) = ''bad flag syntax: '' @ s"
| "flag_err_text (UndefinedFlag n) = ''flag provided but not defined: -'' @ n"
| "flag_err_text (MissingArgument n) = ''flag needs an argument: -'' @ n"
| "flag_err_text HelpRequested = ''flag: help requested''"

definition list_users_usage :: string where
  "list_users_usage =
     ''Usage of list-users:'' @ nl @ ''  -match string'' @ nl @ ''    '' @ tab
     @ ''case-insensitive substring filter against email or name'' @ nl"

fun flag_output :: "flag_err \<Rightarrow> string" where
  "flag_output HelpRequested = list_users_usage"
| "flag_output e = flag_err_text e @ nl @ list_users_usage"

section \<open>Users and roles\<close>

definition user_line :: "user \<Rightarrow> string" where
  "user_line u =
     itoa (us_id u) @ tab @ us_email u @ tab @ us_name u @ tab @ str_join (us_roles u) '','' @ tab
     @ format_rfc3339 (us_last_login_at u) @ nl"

definition user_table :: "user list \<Rightarrow> string" where
  "user_table us =
     ''id'' @ tab @ ''email'' @ tab @ ''name'' @ tab @ ''roles'' @ tab @ ''last_login_at'' @ nl @ concat (map user_line us)"

definition admin_list_users :: "admin_env \<Rightarrow> string list \<Rightarrow> db \<Rightarrow> admin_out" where
  "admin_list_users env args d =
     (case parse_match [] args of
        Inl e \<Rightarrow> (Inl (Message (flag_err_text e)), flag_output e, d)
      | Inr (pat, rest) \<Rightarrow>
          if rest \<noteq> [] then
            (Inl (Message (''list-users: unexpected positional args: ['' @ str_join rest '' '' @ '']'')), [], d)
          else
            (case user_search (ae_search env) pat d of
               Inl e \<Rightarrow> (Inl (classify_busy e), [], d)
             | Inr us \<Rightarrow> (Inr (), user_table us, d)))"

definition match_hint :: "string \<Rightarrow> string" where
  "match_hint email =
     '' (try `forge-proxy admin list-users --match '' @ hd (str_split (CHR ''@'') email) @ ''`)''"

text \<open>The lookup four commands begin with; \<open>hint\<close> is what the error adds for an unknown address.\<close>

definition admin_user :: "string \<Rightarrow> (string \<Rightarrow> string) \<Rightarrow> admin_env \<Rightarrow> string \<Rightarrow> db \<Rightarrow> user result" where
  "admin_user cmd hint env email d =
     (case user_get_by_email (ae_user env) email d of
        Inl e \<Rightarrow>
          Inl (if err_is e UserNotFound then
                 Message (cmd @ '': no user with email '' @ go_quote email @ hint email)
               else classify_busy e)
      | Inr u \<Rightarrow> Inr u)"

definition admin_set_roles :: "admin_env \<Rightarrow> string list \<Rightarrow> db \<Rightarrow> admin_out" where
  "admin_set_roles env args d =
     (if length args \<noteq> 2 then
        (Inl (Message (''usage: forge-proxy admin set-roles <email> <comma-roles>'' @ nl @ nl
           @ ''pass an empty string for <comma-roles> to clear all roles'')), [], d)
      else (let email = args ! 0; roles = parse_roles_arg (args ! 1)
            in if trim_space email = [] then (Inl (Message ''set-roles: email is required''), [], d)
               else (case admin_user ''set-roles'' match_hint env email d of
                       Inl e \<Rightarrow> (Inl e, [], d)
                     | Inr u \<Rightarrow>
                         (case set_roles (ae_tx env) (us_id u) roles d of
                            (Inl e, d') \<Rightarrow> (Inl (classify_busy e), [], d')
                          | (Inr _, d') \<Rightarrow>
                              (Inr (), ''set roles for '' @ us_email u @ '' (id='' @ itoa (us_id u) @ ''): [''
                                 @ str_join roles '','' @ '']'' @ nl, d')))))"

section \<open>Sessions\<close>

definition admin_force_logout :: "admin_env \<Rightarrow> string list \<Rightarrow> db \<Rightarrow> admin_out" where
  "admin_force_logout env args d =
     (if length args \<noteq> 1 then (Inl (Message ''usage: forge-proxy admin force-logout <email>''), [], d)
      else (case admin_user ''force-logout'' (\<lambda>_. []) env (args ! 0) d of
              Inl e \<Rightarrow> (Inl e, [], d)
            | Inr u \<Rightarrow>
                (case session_delete_all_for_user (ae_tx env) (us_id u) d of
                   (Inl e, d') \<Rightarrow> (Inl (classify_busy e), [], d')
                 | (Inr _, d') \<Rightarrow>
                     (Inr (), ''force-logout: deleted sessions for '' @ us_email u @ '' (id='' @ itoa (us_id u) @ '')'' @ nl,
                      d'))))"

text \<open>The second statement fault is a failure of \<open>RowsAffected\<close>.\<close>

definition delete_every_session :: "tx_fault \<Rightarrow> db \<Rightarrow> int result \<times> db" where
  "delete_every_session f d =
     write_tx f (\<lambda>s. case stmt (ft_stmt f 0) (delete_sessions (\<lambda>_. True)) s of
                       (Inl e, s') \<Rightarrow> (Inl e, s')
                     | (Inr n, s') \<Rightarrow> (case ft_stmt f 1 of Some e \<Rightarrow> (Inl e, s') | None \<Rightarrow> (Inr n, s'))) d"

definition admin_force_logout_all :: "admin_env \<Rightarrow> string list \<Rightarrow> db \<Rightarrow> admin_out" where
  "admin_force_logout_all env args d =
     (if args \<noteq> [] then (Inl (Message ''usage: forge-proxy admin force-logout-all (no args)''), [], d)
      else (case delete_every_session (ae_tx env) d of
              (Inl e, d') \<Rightarrow> (Inl (classify_busy e), [], d')
            | (Inr n, d') \<Rightarrow> (Inr (), ''force-logout-all: deleted '' @ itoa n @ '' session(s)'' @ nl, d')))"

section \<open>SSH keys\<close>

definition key_line :: "key \<Rightarrow> string" where
  "key_line k =
     itoa (ky_id k) @ tab @ ky_fingerprint k @ tab @ ky_key_type k @ tab @ ky_label k @ tab
     @ format_rfc3339 (ky_created_at k) @ tab @ format_last_used (ky_last_used_at k) @ nl"

definition key_table :: "key list \<Rightarrow> string" where
  "key_table ks =
     ''id'' @ tab @ ''fingerprint'' @ tab @ ''key_type'' @ tab @ ''label'' @ tab @ ''created_at'' @ tab @ ''last_used_at'' @ nl
     @ concat (map key_line ks)"

definition admin_ssh_list_keys :: "admin_env \<Rightarrow> string list \<Rightarrow> db \<Rightarrow> admin_out" where
  "admin_ssh_list_keys env args d =
     (if length args \<noteq> 1 then (Inl (Message ''usage: forge-proxy admin ssh-list-keys <email>''), [], d)
      else (let email = trim_space (args ! 0)
            in if email = [] then (Inl (Message ''ssh-list-keys: email is required''), [], d)
               else (case admin_user ''ssh-list-keys'' match_hint env email d of
                       Inl e \<Rightarrow> (Inl e, [], d)
                     | Inr u \<Rightarrow>
                         (case key_list_by_user (ae_keys env) (us_id u) d of
                            Inl e \<Rightarrow> (Inl (classify_busy e), [], d)
                          | Inr ks \<Rightarrow> (Inr (), key_table ks, d)))))"

definition no_such_key :: "string \<Rightarrow> string" where
  "no_such_key fp = ''ssh-remove-key: no key with fingerprint '' @ go_quote fp @ ''; nothing to do'' @ nl"

definition admin_ssh_remove_key :: "admin_env \<Rightarrow> string list \<Rightarrow> db \<Rightarrow> admin_out" where
  "admin_ssh_remove_key env args d =
     (if length args \<noteq> 1 then
        (Inl (Message (''usage: forge-proxy admin ssh-remove-key <fingerprint>'' @ nl @ nl
           @ ''list fingerprints with `forge-proxy admin ssh-list-keys <email>`'')), [], d)
      else (let fp = trim_space (args ! 0)
            in if fp = [] then (Inl (Message ''ssh-remove-key: fingerprint is required''), [], d)
               else (case key_get (ae_key env) fp d of
                       Inl e \<Rightarrow>
                         if err_is e KeyNotFound then (Inr (), no_such_key fp, d) else (Inl (classify_busy e), [], d)
                     | Inr k \<Rightarrow>
                         (case key_remove (ae_tx env) fp d of
                            (Inl e, d') \<Rightarrow>
                              if err_is e KeyNotFound then (Inr (), no_such_key fp, d') else (Inl (classify_busy e), [], d')
                          | (Inr _, d') \<Rightarrow>
                              (Inr (), ''removed key '' @ fp @ '' (id='' @ itoa (ky_id k) @ '', user_id=''
                                 @ itoa (ky_user_id k) @ '')'' @ nl, d')))))"

definition cannot_close_sessions :: "user \<Rightarrow> string" where
  "cannot_close_sessions u =
     ''ssh-force-logout: cannot close live SSH sessions for '' @ us_email u @ '' (id='' @ itoa (us_id u)
     @ '') from a separate process.'' @ nl @ nl
     @ ''Active SSH sessions live in the running server's memory, and this command runs as its own'' @ nl
     @ ''process, so it has no way to reach them.'' @ nl @ nl
     @ ''To revoke SSH access:'' @ nl
     @ ''  1. forge-proxy admin ssh-list-keys '' @ us_email u @ nl
     @ ''  2. forge-proxy admin ssh-remove-key <fingerprint>   # blocks all future connections'' @ nl
     @ ''  3. restart forge-proxy to drop sessions that are still open''"

definition admin_ssh_force_logout :: "admin_env \<Rightarrow> string list \<Rightarrow> db \<Rightarrow> admin_out" where
  "admin_ssh_force_logout env args d =
     (if length args \<noteq> 1 then (Inl (Message ''usage: forge-proxy admin ssh-force-logout <email>''), [], d)
      else (let email = trim_space (args ! 0)
            in if email = [] then (Inl (Message ''ssh-force-logout: email is required''), [], d)
               else (case admin_user ''ssh-force-logout'' (\<lambda>_. []) env email d of
                       Inl e \<Rightarrow> (Inl e, [], d)
                     | Inr u \<Rightarrow> (Inl (Message (cannot_close_sessions u)), [], d))))"

section \<open>Dispatch\<close>

definition dispatch_admin :: "admin_env \<Rightarrow> string list \<Rightarrow> db \<Rightarrow> admin_out" where
  "dispatch_admin env args d =
     (case args of
        [] \<Rightarrow> (Inl (Message ''subcommand required''), [], d)
      | sub # rest \<Rightarrow>
          if sub = ''list-users'' then admin_list_users env rest d
          else if sub = ''set-roles'' then admin_set_roles env rest d
          else if sub = ''force-logout'' then admin_force_logout env rest d
          else if sub = ''force-logout-all'' then admin_force_logout_all env rest d
          else if sub = ''ssh-list-keys'' then admin_ssh_list_keys env rest d
          else if sub = ''ssh-remove-key'' then admin_ssh_remove_key env rest d
          else if sub = ''ssh-force-logout'' then admin_ssh_force_logout env rest d
          else (Inl (Message (''unknown subcommand '' @ go_quote sub)), [], d))"

definition admin_usage :: string where
  "admin_usage =
     ''usage: forge-proxy admin <subcommand> [args...]'' @ nl @ nl @ ''subcommands:'' @ nl
     @ ''  list-users [--match <substring>]'' @ nl @ ''  set-roles <email> <comma-roles>'' @ nl
     @ ''  force-logout <email>'' @ nl @ ''  force-logout-all'' @ nl @ ''  ssh-list-keys <email>'' @ nl
     @ ''  ssh-remove-key <fingerprint>'' @ nl @ ''  ssh-force-logout <email>''"

text \<open>\<open>newAdminEnv\<close>: the configuration, and what happens to the pools of the database.\<close>

datatype cmd_err = ConfigErrors "load_err list" | CmdErr err

definition new_admin_env ::
    "env \<Rightarrow> (string \<Rightarrow> file_stat) \<Rightarrow> nat \<Rightarrow> open_fault \<Rightarrow> (cmd_err + config) \<times> pool_event list" where
  "new_admin_env env stat cpus f =
     (case load_config env stat of
        Inl errs \<Rightarrow> (Inl (ConfigErrors errs), [])
      | Inr cfg \<Rightarrow>
          (case db_open (cf_db_path cfg) cpus f of
             (Inl e, es) \<Rightarrow> (Inl (CmdErr (Wrap ''open db'' e)), es)
           | (Inr _, es) \<Rightarrow> (Inr cfg, es)))"

text \<open>\<open>runAdmin\<close>: the error, what was printed, the database, and the pools with the cleanup at the end.\<close>

definition run_admin ::
    "env \<Rightarrow> (string \<Rightarrow> file_stat) \<Rightarrow> nat \<Rightarrow> open_fault \<Rightarrow> admin_env \<Rightarrow> string list \<Rightarrow> db
     \<Rightarrow> cmd_err option \<times> string \<times> db \<times> pool_event list" where
  "run_admin env stat cpus f ae args d =
     (if args = [] then (Some (CmdErr (Message admin_usage)), [], d, [])
      else (case new_admin_env env stat cpus f of
              (Inl e, es) \<Rightarrow> (Some e, [], d, es)
            | (Inr cfg, es) \<Rightarrow>
                (let (res, out, d') = dispatch_admin ae args d
                 in (case res of Inl e \<Rightarrow> Some (CmdErr e) | Inr _ \<Rightarrow> None, out, d',
                     es @ [PoolClosed ReaderPool, PoolClosed WriterPool]))))"

section \<open>What a command is meant to do\<close>

datatype admin_effect =
    NoEffect
  | RolesSet int "string list"
  | LoggedOut int
  | AllLoggedOut
  | KeyRemoved string

fun apply_effect :: "admin_effect \<Rightarrow> db \<Rightarrow> db" where
  "apply_effect NoEffect d = d"
| "apply_effect (RolesSet uid roles) d =
     d\<lparr>users := map (\<lambda>x. if ur_id x = uid then x\<lparr>ur_roles := str_join roles '',''\<rparr> else x) (users d)\<rparr>"
| "apply_effect (LoggedOut uid) d = d\<lparr>sessions := filter (\<lambda>r. sr_user_id r \<noteq> uid) (sessions d)\<rparr>"
| "apply_effect AllLoggedOut d = d\<lparr>sessions := []\<rparr>"
| "apply_effect (KeyRemoved fp) d = d\<lparr>ssh_keys := filter (\<lambda>r. kr_fingerprint r \<noteq> fp) (ssh_keys d)\<rparr>"

definition of_user :: "string \<Rightarrow> (int \<Rightarrow> admin_effect) \<Rightarrow> db \<Rightarrow> admin_effect" where
  "of_user email eff d = (case user_get_by_email None email d of Inl e \<Rightarrow> NoEffect | Inr u \<Rightarrow> eff (us_id u))"

definition intended_effect :: "string list \<Rightarrow> db \<Rightarrow> admin_effect" where
  "intended_effect args d =
     (let sub = hd args; arg = tl args
      in if sub = ''set-roles'' then of_user (arg ! 0) (\<lambda>uid. RolesSet uid (parse_roles_arg (arg ! 1))) d
         else if sub = ''force-logout'' then of_user (arg ! 0) LoggedOut d
         else if sub = ''force-logout-all'' then AllLoggedOut
         else if sub = ''ssh-remove-key'' then KeyRemoved (trim_space (arg ! 0))
         else NoEffect)"

text \<open>Errors of the driver are not the store's own \<open>ErrNotFound\<close>.\<close>

definition driver_faults :: "admin_env \<Rightarrow> bool" where
  "driver_faults env \<longleftrightarrow>
     (\<forall>e. (ae_key env = Some e \<or> ft_acquire (ae_tx env) = Some e \<or> ft_begin (ae_tx env) = Some e
           \<or> ft_commit (ae_tx env) = Some e \<or> (\<exists>i. ft_stmt (ae_tx env) i = Some e)) \<longrightarrow> \<not> err_is e KeyNotFound)"

section \<open>Facts\<close>

lemma user_get_by_email_fault:
  "user_get_by_email f email d = Inr u \<Longrightarrow> user_get_by_email None email d = Inr u"
  by (auto simp: user_get_by_email_def query_one_def split: option.splits)

lemma admin_user_Inr: "admin_user cmd hint env email d = Inr u \<Longrightarrow> user_get_by_email None email d = Inr u"
  by (auto simp: admin_user_def split: sum.splits dest: user_get_by_email_fault)

lemma delete_every_session_cases:
  "delete_every_session f d = (r, d') \<Longrightarrow>
     (isl r \<and> d' = d) \<or> (r = Inr (int (length (sessions d))) \<and> d' = d\<lparr>sessions := []\<rparr>)"
  by (cases r) (auto simp: delete_every_session_def stmt_def delete_sessions_def
        split: option.splits dest!: write_tx_Inr write_tx_Inl)

lemma key_remove_error:
  "driver_faults env \<Longrightarrow> key_remove (ae_tx env) fp d = (Inl e, d') \<Longrightarrow> \<not> err_is e KeyNotFound"
  by (auto simp: driver_faults_def key_remove_def write_tx_eq stmt_def delete_key_rows_def split: option.splits)

lemma key_get_NotFound:
  "driver_faults env \<Longrightarrow> key_get (ae_key env) fp d = Inl e \<Longrightarrow> err_is e KeyNotFound \<Longrightarrow>
     filter (\<lambda>r. kr_fingerprint r \<noteq> fp) (ssh_keys d) = ssh_keys d"
  by (auto simp: driver_faults_def key_get_def find_None_iff filter_id_conv split: option.splits)

section \<open>Each command\<close>

lemma list_users_effect: "admin_list_users env args d = (res, out, d') \<Longrightarrow> d' = d"
  by (auto simp: admin_list_users_def split: sum.splits if_splits prod.splits)

lemma list_keys_effect: "admin_ssh_list_keys env args d = (res, out, d') \<Longrightarrow> d' = d"
  by (auto simp: admin_ssh_list_keys_def Let_def split: sum.splits if_splits)

lemma ssh_force_logout_effect: "admin_ssh_force_logout env args d = (res, out, d') \<Longrightarrow> isl res \<and> d' = d"
  by (auto simp: admin_ssh_force_logout_def Let_def split: sum.splits if_splits)

lemma set_roles_effect:
  assumes "admin_set_roles env args d = (res, out, d')"
  shows "d' = (if isl res then d
               else apply_effect (of_user (args ! 0) (\<lambda>uid. RolesSet uid (parse_roles_arg (args ! 1))) d) d)"
  using assms
  by (auto simp: admin_set_roles_def Let_def of_user_def split: if_splits sum.splits prod.splits
      dest!: admin_user_Inr set_roles_cases)

lemma force_logout_effect:
  assumes "admin_force_logout env args d = (res, out, d')"
  shows "d' = (if isl res then d else apply_effect (of_user (args ! 0) LoggedOut d) d)"
  using assms
  by (auto simp: admin_force_logout_def of_user_def split: if_splits sum.splits prod.splits
      dest!: admin_user_Inr session_delete_all_cases)

lemma force_logout_all_effect:
  assumes "admin_force_logout_all env args d = (res, out, d')"
  shows "d' = (if isl res then d else apply_effect AllLoggedOut d)"
  using assms
  by (auto simp: admin_force_logout_all_def split: if_splits sum.splits prod.splits dest!: delete_every_session_cases)

lemma remove_key_effect:
  assumes "driver_faults env" and "admin_ssh_remove_key env args d = (res, out, d')"
  shows "d' = (if isl res then d else apply_effect (KeyRemoved (trim_space (args ! 0))) d)"
proof (cases "key_get (ae_key env) (trim_space (args ! 0)) d")
  case (Inl e)
  with assms key_get_NotFound [OF assms(1) Inl] show ?thesis
    by (auto simp: admin_ssh_remove_key_def Let_def split: if_splits)
next
  case (Inr k)
  obtain r d1 where k: "key_remove (ae_tx env) (trim_space (args ! 0)) d = (r, d1)" by fastforce
  with Inr assms key_remove_cases [OF k] key_remove_error [OF assms(1)] show ?thesis
    by (cases r) (auto simp: admin_ssh_remove_key_def Let_def split: if_splits)
qed

lemma dispatch_effect:
  assumes "driver_faults env" and "dispatch_admin env args d = (res, out, d')"
  shows "d' = (if isl res then d else apply_effect (intended_effect args d) d)"
proof (cases args)
  case Nil
  with assms show ?thesis by (auto simp: dispatch_admin_def)
next
  case (Cons sub rest)
  with assms show ?thesis
    by (auto simp: dispatch_admin_def intended_effect_def split: if_splits
        dest: list_users_effect list_keys_effect ssh_force_logout_effect set_roles_effect force_logout_effect
          force_logout_all_effect remove_key_effect)
qed

lemma set_roles_valid:
  assumes "dispatch_admin env (''set-roles'' # args) d = (res, out, d')" and "\<not> isl res"
  shows "list_all role_name_re (parse_roles_arg (args ! 1))"
  using assms
  by (auto simp: dispatch_admin_def admin_set_roles_def Let_def split: if_splits sum.splits prod.splits
      dest!: set_roles_cases)

section \<open>Properties\<close>

text \<open>
  C36. An admin command does what its name says, or reports an error and does nothing.  A command that
  fails leaves the database as it was; \<open>set-roles\<close> changes the roles of the one user with the address,
  \<open>force-logout\<close> deletes that user's sessions, \<open>force-logout-all\<close> deletes every session,
  \<open>ssh-remove-key\<close> deletes the one key; the commands that list, and \<open>ssh-force-logout\<close>, which always
  reports an error, change nothing.
\<close>

theorem admin_commands_exact:
  assumes "driver_faults env" and "dispatch_admin env args d = (res, out, d')"
  shows "d' = (if isl res then d else apply_effect (intended_effect args d) d)
         \<and> (args \<noteq> [] \<and> hd args = ''ssh-force-logout'' \<longrightarrow> isl res)"
  using dispatch_effect [OF assms] assms(2)
  by (cases args) (auto simp: dispatch_admin_def dest: ssh_force_logout_effect)

lemma no_admin_fault_driver [simp]: "driver_faults no_admin_fault"
  by (simp add: driver_faults_def no_admin_fault_def no_fault_def)

lemma admin_commands_exact_witness:
  "\<exists>out d'. dispatch_admin no_admin_fault [''set-roles'', '' ADA@example.org'', ''ops, dev''] example_db = (Inr (), out, d')
     \<and> d' = apply_effect (RolesSet 1 [''ops'', ''dev'']) example_db"
proof -
  let ?args = "[''set-roles'', '' ADA@example.org'', ''ops, dev'']"
  obtain res out d' where r: "dispatch_admin no_admin_fault ?args example_db = (res, out, d')"
    by (metis prod_cases3)
  have "\<not> isl (fst (dispatch_admin no_admin_fault ?args example_db))" by code_simp
  with r have ok: "res = Inr ()" by (cases res) auto
  have "intended_effect ?args example_db = RolesSet 1 [''ops'', ''dev'']" by code_simp
  with admin_commands_exact [OF no_admin_fault_driver r] r ok show ?thesis by simp
qed

text \<open>
  The table of \<open>list-users\<close> is not unambiguous: a name comes from the profile as it is, and one with
  a line break and tabs in it prints the row of a user that does not exist.
\<close>

lemma user_row_forged:
  "let u = \<lparr>us_id = 1, us_slack_user_id = [], us_slack_team_id = [], us_email = ''e'', us_name = name, us_avatar_url = [],
            us_roles = [], us_created_at = from_unix 0, us_last_login_at = from_unix 0\<rparr>;
       v = u\<lparr>us_id := 7, us_name := ''root'', us_email := ''r'', us_roles := [''admin'']\<rparr>
   in name = ''x'' @ tab @ tab @ ''1970-01-01T00:00:00Z'' @ nl @ ''7'' @ tab @ ''r'' @ tab @ ''root'' @ tab @ ''admin'' @ tab
               @ ''1970-01-01T00:00:00Z'' @ nl @ ''8'' @ tab @ ''s'' @ tab @ ''y''
      \<longrightarrow> user_table [u] = user_table [u\<lparr>us_name := ''x''\<rparr>, v, u\<lparr>us_id := 8, us_email := ''s'', us_name := ''y''\<rparr>]"
proof -
  have "itoa 1 = ''1''" "itoa 7 = ''7''" "itoa 8 = ''8''" "format_rfc3339 (from_unix 0) = ''1970-01-01T00:00:00Z''"
    by code_simp+
  then show ?thesis by (simp add: Let_def user_table_def user_line_def)
qed

end
