(* ===== verification/Setup.thy ===== *)
theory Setup
  imports GoFiles GoStrings
begin

text \<open>
  \<open>cmd/forge-proxy/setup.go\<close>: installing the server as a systemd service.

  The host is a parameter: what its commands do, what \<open>os.Stat\<close> finds, and what writing a file or
  changing its mode does.  Everything setup does to the host is recorded in order; what it prints is
  left out.
\<close>

section \<open>The host\<close>

datatype file_kind = RegularFile | Directory | OtherKind

datatype stat_result = NoSuchFile | StatError err | Found file_kind

record 'h host =
  ho_run :: "string list \<Rightarrow> 'h \<Rightarrow> err option \<times> 'h"
  ho_stat :: "string \<Rightarrow> 'h \<Rightarrow> stat_result"
  ho_write :: "string \<Rightarrow> string \<Rightarrow> int \<Rightarrow> 'h \<Rightarrow> err option \<times> 'h"
  ho_chmod :: "string \<Rightarrow> int \<Rightarrow> 'h \<Rightarrow> err option \<times> 'h"

datatype host_action =
    Ran "string list" bool
  | Wrote string string int bool
  | Chmodded string int bool

type_synonym 'h setup_step = "'h \<Rightarrow> unit result \<times> host_action list \<times> 'h"

definition run_command :: "'h host \<Rightarrow> string list \<Rightarrow> 'h setup_step" where
  "run_command host cmd h =
     (case ho_run host cmd h of
        (None, h') \<Rightarrow> (Inr (), [Ran cmd True], h')
      | (Some e, h') \<Rightarrow> (Inl e, [Ran cmd False], h'))"

definition write_unit :: "'h host \<Rightarrow> string \<Rightarrow> string \<Rightarrow> int \<Rightarrow> 'h setup_step" where
  "write_unit host path content mode h =
     (case ho_write host path content mode h of
        (None, h') \<Rightarrow> (Inr (), [Wrote path content mode True], h')
      | (Some e, h') \<Rightarrow> (Inl e, [Wrote path content mode False], h'))"

definition chmod_file :: "'h host \<Rightarrow> string \<Rightarrow> int \<Rightarrow> 'h setup_step" where
  "chmod_file host path mode h =
     (case ho_chmod host path mode h of
        (None, h') \<Rightarrow> (Inr (), [Chmodded path mode True], h')
      | (Some e, h') \<Rightarrow> (Inl e, [Chmodded path mode False], h'))"

text \<open>A step, its error wrapped, and the next step when there was none.\<close>

definition wrapped :: "string \<Rightarrow> 'h setup_step \<Rightarrow> 'h setup_step" where
  "wrapped what step h =
     (case step h of (Inl e, as, h') \<Rightarrow> (Inl (Wrap what e), as, h') | (Inr _, as, h') \<Rightarrow> (Inr (), as, h'))"

definition andthen :: "'h setup_step \<Rightarrow> 'h setup_step \<Rightarrow> 'h setup_step" where
  "andthen a b h =
     (case a h of
        (Inl e, as, h1) \<Rightarrow> (Inl e, as, h1)
      | (Inr _, as, h1) \<Rightarrow> (let (r, bs, h2) = b h1 in (r, as @ bs, h2)))"

text \<open>\<open>if err := a; err == nil { return nil }\<close>, then \<open>b\<close>.\<close>

definition unless :: "'h setup_step \<Rightarrow> 'h setup_step \<Rightarrow> 'h setup_step" where
  "unless a b h =
     (case a h of
        (Inr _, as, h1) \<Rightarrow> (Inr (), as, h1)
      | (Inl e, as, h1) \<Rightarrow> (let (r, bs, h2) = b h1 in (r, as @ bs, h2)))"

definition ignoring :: "'h setup_step \<Rightarrow> 'h setup_step" where
  "ignoring a h = (let (_, as, h') = a h in (Inr (), as, h'))"

section \<open>The unit\<close>

record setup_params =
  sp_user :: string
  sp_group :: string
  sp_binary_path :: string
  sp_env_file :: string
  sp_data_dir :: string
  sp_unit_path :: string

definition default_systemd_params :: "string result \<Rightarrow> setup_params result" where
  "default_systemd_params executable =
     (case executable of
        Inl e \<Rightarrow> Inl (Wrap ''resolve own path'' e)
      | Inr bin \<Rightarrow>
          Inr \<lparr>sp_user = ''forge-proxy'', sp_group = ''forge-proxy'', sp_binary_path = bin,
               sp_env_file = ''/etc/forge-proxy.env'', sp_data_dir = ''/var/lib/forge-proxy'',
               sp_unit_path = ''/etc/systemd/system/forge-proxy.service''\<rparr>)"

definition unit_lines :: "setup_params \<Rightarrow> string list" where
  "unit_lines p =
     [''[Unit]'',
      ''# Generated by `forge-proxy setup systemd`. Edit and re-run to update,'',
      ''# or hand-edit this file (re-generation will overwrite).'',
      ''Description=Forge Utah auth proxy'',
      ''Documentation=https://github.com/forgeutah/forge-proxy'',
      ''After=network-online.target tailscaled.service'',
      ''Wants=network-online.target'',
      [],
      ''[Service]'',
      ''Type=simple'',
      ''User='' @ sp_user p,
      ''Group='' @ sp_group p,
      [],
      ''EnvironmentFile='' @ sp_env_file p,
      [],
      ''ExecStart='' @ sp_binary_path p,
      [],
      ''KillSignal=SIGTERM'',
      ''TimeoutStopSec=31s'',
      [],
      ''Restart=on-failure'',
      ''RestartSec=5s'',
      [],
      ''# Hardening '' @ [CHR 0xE2, CHR 0x80, CHR 0x94] @ '' the binary needs network access (Slack OIDC + Tailscale'',
      ''# upstreams), read access to its env file, and write access to its data'',
      ''# directory. Everything else is locked down.'',
      ''NoNewPrivileges=true'',
      ''ProtectSystem=strict'',
      ''ProtectHome=true'',
      ''ReadWritePaths='' @ sp_data_dir p,
      ''PrivateTmp=true'',
      ''PrivateDevices=true'',
      ''ProtectKernelTunables=true'',
      ''ProtectKernelModules=true'',
      ''ProtectControlGroups=true'',
      ''RestrictNamespaces=true'',
      ''RestrictRealtime=true'',
      ''LockPersonality=true'',
      ''MemoryDenyWriteExecute=true'',
      [],
      ''[Install]'',
      ''WantedBy=multi-user.target'']"

definition render_systemd_unit :: "setup_params \<Rightarrow> string" where
  "render_systemd_unit p = concat (map (\<lambda>l. l @ [CHR 0x0A]) (unit_lines p))"

section \<open>The steps\<close>

definition ensure_system_group :: "'h host \<Rightarrow> string \<Rightarrow> 'h setup_step" where
  "ensure_system_group host name =
     unless (run_command host [''getent'', ''group'', name])
       (wrapped (''create group '' @ name) (run_command host [''groupadd'', ''--system'', name]))"

definition ensure_system_user :: "'h host \<Rightarrow> string \<Rightarrow> string \<Rightarrow> 'h setup_step" where
  "ensure_system_user host name grp =
     unless (run_command host [''getent'', ''passwd'', name])
       (wrapped (''create user '' @ name)
          (run_command host [''useradd'', ''--system'', ''--gid'', grp, ''--no-create-home'', ''--shell'',
             ''/usr/sbin/nologin'', name]))"

definition ensure_data_dir :: "'h host \<Rightarrow> string \<Rightarrow> string \<Rightarrow> string \<Rightarrow> 'h setup_step" where
  "ensure_data_dir host path usr grp h =
     (case ho_stat host path h of
        Found Directory \<Rightarrow> (Inr (), [], h)
      | Found _ \<Rightarrow> (Inl (Message (path @ '' exists but is not a directory'')), [], h)
      | _ \<Rightarrow>
          wrapped (''create data dir '' @ path)
            (run_command host [''install'', ''-d'', ''-o'', usr, ''-g'', grp, ''-m'', ''0750'', path]) h)"

definition fix_env_file_permissions :: "'h host \<Rightarrow> string \<Rightarrow> string \<Rightarrow> 'h setup_step" where
  "fix_env_file_permissions host env_file grp h =
     (case ho_stat host env_file h of
        NoSuchFile \<Rightarrow> (Inr (), [], h)
      | StatError e \<Rightarrow> (Inl (Wrap (''stat env file '' @ env_file) e), [], h)
      | Found RegularFile \<Rightarrow>
          andthen (wrapped (''chgrp '' @ grp @ '' '' @ env_file) (run_command host [''chgrp'', grp, env_file]))
            (wrapped (''chmod 0640 '' @ env_file) (chmod_file host env_file (6 * 8 ^ 2 + 4 * 8))) h
      | Found _ \<Rightarrow> (Inl (Message (env_file @ '' exists but is not a regular file'')), [], h))"

fun in_order :: "'h setup_step list \<Rightarrow> 'h setup_step" where
  "in_order [] h = (Inr (), [], h)"
| "in_order (step # steps) h = andthen step (in_order steps) h"

text \<open>From the group to the status of the service; the error of the env file is only a warning.\<close>

definition prepare_steps :: "'h host \<Rightarrow> setup_params \<Rightarrow> 'h setup_step list" where
  "prepare_steps host p =
     [ensure_system_group host (sp_group p),
      ensure_system_user host (sp_user p) (sp_group p),
      ensure_data_dir host (sp_data_dir p) (sp_user p) (sp_group p),
      ignoring (fix_env_file_permissions host (sp_env_file p) (sp_group p)),
      wrapped (''write unit '' @ sp_unit_path p)
        (write_unit host (sp_unit_path p) (render_systemd_unit p) mode_644)]"

definition service_steps :: "'h host \<Rightarrow> 'h setup_step list" where
  "service_steps host =
     [run_command host [''systemctl'', ''daemon-reload''],
      run_command host [''systemctl'', ''enable'', ''--now'', ''forge-proxy''],
      ignoring (run_command host [''systemctl'', ''--no-pager'', ''status'', ''forge-proxy''])]"

definition setup_steps :: "'h host \<Rightarrow> setup_params \<Rightarrow> 'h setup_step" where
  "setup_steps host p = in_order (prepare_steps host p @ service_steps host)"

definition run_setup_systemd ::
    "'h host \<Rightarrow> int \<Rightarrow> bool \<Rightarrow> string result \<Rightarrow> string list \<Rightarrow> 'h setup_step" where
  "run_setup_systemd host euid has_systemctl executable args h =
     (if args \<noteq> [] then
        (Inl (Message (''setup systemd takes no positional arguments; got ['' @ str_join args '' '' @ '']'')), [], h)
      else if euid \<noteq> 0 then (Inl (Message ''setup systemd must run as root (re-run with sudo)''), [], h)
      else if \<not> has_systemctl then
        (Inl (Message (''systemctl not found on PATH '' @ [CHR 0xE2, CHR 0x80, CHR 0x94]
           @ '' this host does not look like a systemd machine'')), [], h)
      else (case default_systemd_params executable of
              Inl e \<Rightarrow> (Inl e, [], h)
            | Inr p \<Rightarrow> setup_steps host p h))"

definition setup_usage :: string where
  "setup_usage =
     ''usage: forge-proxy setup <subcommand>'' @ [CHR 0x0A, CHR 0x0A] @ ''subcommands:'' @ [CHR 0x0A]
     @ ''  systemd   create the forge-proxy user, /var/lib/forge-proxy, the'' @ [CHR 0x0A]
     @ ''            systemd unit, then daemon-reload + enable --now''"

definition run_setup ::
    "'h host \<Rightarrow> int \<Rightarrow> bool \<Rightarrow> string result \<Rightarrow> string list \<Rightarrow> 'h setup_step" where
  "run_setup host euid has_systemctl executable args h =
     (case args of
        [] \<Rightarrow> (Inl (Message setup_usage), [], h)
      | sub # rest \<Rightarrow>
          if sub = ''systemd'' then run_setup_systemd host euid has_systemctl executable rest h
          else (Inl (Message (''unknown setup subcommand: '' @ sub)), [], h))"

section \<open>Facts\<close>

definition enable_cmd :: "string list" where
  "enable_cmd = [''systemctl'', ''enable'', ''--now'', ''forge-proxy'']"

lemma andthen_Inr:
  "andthen a b h = (Inr (), cs, h2) \<longleftrightarrow> (\<exists>as bs h1. a h = (Inr (), as, h1) \<and> b h1 = (Inr (), bs, h2) \<and> cs = as @ bs)"
  by (cases "a h"; cases "fst (a h)") (auto simp: andthen_def Let_def split: prod.splits)

lemma andthen_Inl:
  "andthen a b h = (Inl e, cs, h2) \<longleftrightarrow>
     a h = (Inl e, cs, h2) \<or> (\<exists>as bs h1. a h = (Inr (), as, h1) \<and> b h1 = (Inl e, bs, h2) \<and> cs = as @ bs)"
  by (cases "a h"; cases "fst (a h)") (auto simp: andthen_def Let_def split: prod.splits)

lemma wrapped_Inr [simp]: "wrapped w a h = (Inr (), as, h') \<longleftrightarrow> a h = (Inr (), as, h')"
  by (auto simp: wrapped_def split: prod.splits sum.splits)

lemma wrapped_Inl: "wrapped w a h = (Inl e, as, h') \<Longrightarrow> \<exists>e'. a h = (Inl e', as, h')"
  by (auto simp: wrapped_def split: prod.splits sum.splits)

lemma run_command_cases:
  "run_command host cmd h = (r, as, h') \<Longrightarrow> as = [Ran cmd (\<not> isl r)]"
  by (auto simp: run_command_def split: prod.splits option.splits)

lemma write_unit_cases:
  "write_unit host path content mode h = (r, as, h') \<Longrightarrow> as = [Wrote path content mode (\<not> isl r)]"
  by (auto simp: write_unit_def split: prod.splits option.splits)

text \<open>A step keeps a property of the host and does only actions of a kind.\<close>

definition step_ok :: "('h \<Rightarrow> bool) \<Rightarrow> (host_action \<Rightarrow> bool) \<Rightarrow> 'h setup_step \<Rightarrow> bool" where
  "step_ok P Q step \<longleftrightarrow>
     (\<forall>h r as h'. P h \<longrightarrow> step h = (r, as, h') \<longrightarrow> P h' \<and> list_all Q as)"

definition stable :: "'h host \<Rightarrow> ('h \<Rightarrow> bool) \<Rightarrow> bool" where
  "stable host P \<longleftrightarrow>
     (\<forall>h. P h \<longrightarrow> (\<forall>cmd. P (snd (ho_run host cmd h)))
        \<and> (\<forall>path content mode. P (snd (ho_write host path content mode h)))
        \<and> (\<forall>path mode. P (snd (ho_chmod host path mode h))))"

lemma stable_True [simp]: "stable host (\<lambda>_. True)"
  by (simp add: stable_def)

lemma stable_conj: "stable host P \<Longrightarrow> stable host Q \<Longrightarrow> stable host (\<lambda>h. P h \<and> Q h)"
  by (simp add: stable_def)

lemma ok_run: "stable host P \<Longrightarrow> (\<And>ok. Q (Ran cmd ok)) \<Longrightarrow> step_ok P Q (run_command host cmd)"
  unfolding step_ok_def stable_def run_command_def by (auto split: prod.splits option.splits) (metis snd_conv)+

lemma ok_write:
  "stable host P \<Longrightarrow> (\<And>ok. Q (Wrote path content mode ok)) \<Longrightarrow> step_ok P Q (write_unit host path content mode)"
  unfolding step_ok_def stable_def write_unit_def by (auto split: prod.splits option.splits) (metis snd_conv)+

lemma ok_chmod: "stable host P \<Longrightarrow> (\<And>ok. Q (Chmodded path mode ok)) \<Longrightarrow> step_ok P Q (chmod_file host path mode)"
  unfolding step_ok_def stable_def chmod_file_def by (auto split: prod.splits option.splits) (metis snd_conv)+

lemma ok_wrapped: "step_ok P Q a \<Longrightarrow> step_ok P Q (wrapped w a)"
  by (fastforce simp: step_ok_def wrapped_def split: prod.splits sum.splits)

lemma step_okD: "step_ok P Q a \<Longrightarrow> a h = (r, as, h') \<Longrightarrow> P h \<Longrightarrow> P h' \<and> list_all Q as"
  unfolding step_ok_def by blast

text \<open>Both combinators run the second step on the host the first one leaves, or not at all.\<close>

lemma ok_both:
  assumes "step_ok P Q a" and "step_ok P Q b"
    and "\<And>h r cs h2. c h = (r, cs, h2) \<Longrightarrow>
      (\<exists>r1. a h = (r1, cs, h2)) \<or> (\<exists>r1 as h1 r2 bs. a h = (r1, as, h1) \<and> b h1 = (r2, bs, h2) \<and> cs = as @ bs)"
  shows "step_ok P Q c"
  unfolding step_ok_def
proof (intro allI impI)
  fix h r cs h2 assume P: "P h" and c: "c h = (r, cs, h2)"
  from assms(3) [OF c] show "P h2 \<and> list_all Q cs"
  proof (elim disjE exE conjE)
    fix r1 assume "a h = (r1, cs, h2)"
    then show ?thesis by (rule step_okD [OF assms(1) _ P])
  next
    fix r1 as h1 r2 bs assume "a h = (r1, as, h1)" "b h1 = (r2, bs, h2)" "cs = as @ bs"
    with step_okD [OF assms(1) _ P] step_okD [OF assms(2)] show ?thesis by fastforce
  qed
qed

lemma ok_andthen: "step_ok P Q a \<Longrightarrow> step_ok P Q b \<Longrightarrow> step_ok P Q (andthen a b)"
  by (rule ok_both [of P Q a b]) (auto simp: andthen_def Let_def split: prod.splits sum.splits)

lemma ok_unless: "step_ok P Q a \<Longrightarrow> step_ok P Q b \<Longrightarrow> step_ok P Q (unless a b)"
  by (rule ok_both [of P Q a b]) (auto simp: unless_def Let_def split: prod.splits sum.splits)

lemma ok_ignoring: "step_ok P Q a \<Longrightarrow> step_ok P Q (ignoring a)"
  unfolding step_ok_def ignoring_def by (auto simp: Let_def split: prod.splits)

lemma ok_in_order: "list_all (step_ok P Q) steps \<Longrightarrow> step_ok P Q (in_order steps)"
proof (induction steps)
  case (Cons s steps)
  then have "step_ok P Q (andthen s (in_order steps))" by (simp add: ok_andthen)
  then show ?case by (simp add: step_ok_def)
qed (simp add: step_ok_def)

lemmas ok_rules = ok_run ok_write ok_chmod ok_wrapped ok_andthen ok_unless ok_ignoring

lemma ok_group:
  assumes "stable host P" and "\<And>ok. Q (Ran [''getent'', ''group'', g] ok)" "\<And>ok. Q (Ran [''groupadd'', ''--system'', g] ok)"
  shows "step_ok P Q (ensure_system_group host g)"
  unfolding ensure_system_group_def by (intro ok_rules assms)

lemma ok_user:
  assumes "stable host P" and "\<And>cmd ok. hd cmd \<in> {''getent'', ''useradd''} \<Longrightarrow> Q (Ran cmd ok)"
  shows "step_ok P Q (ensure_system_user host u g)"
  unfolding ensure_system_user_def by (intro ok_rules assms) simp_all

lemma ok_dir:
  assumes "stable host P" and "\<And>cmd ok. hd cmd = ''install'' \<Longrightarrow> Q (Ran cmd ok)"
  shows "step_ok P Q (ensure_data_dir host path u g)"
proof -
  have "step_ok P Q (wrapped w (run_command host (''install'' # cmd)))" for w cmd
    by (intro ok_rules assms) simp
  then show ?thesis
    unfolding step_ok_def ensure_data_dir_def by (auto split: stat_result.splits file_kind.splits)
qed

lemma ok_env_file:
  assumes "stable host P" and "\<And>ok. Q (Ran [''chgrp'', g, f] ok)" "\<And>m ok. Q (Chmodded f m ok)"
  shows "step_ok P Q (ignoring (fix_env_file_permissions host f g))"
proof -
  have "step_ok P Q (andthen (wrapped w (run_command host [''chgrp'', g, f])) (wrapped v (chmod_file host f m)))" for w v m
    by (intro ok_rules assms)
  then have "step_ok P Q (fix_env_file_permissions host f g)"
    unfolding step_ok_def fix_env_file_permissions_def by (auto split: stat_result.splits file_kind.splits)
  then show ?thesis by (rule ok_ignoring)
qed

text \<open>A step that runs no command of \<open>systemctl\<close>.\<close>

definition no_systemctl :: "host_action \<Rightarrow> bool" where
  "no_systemctl a \<longleftrightarrow> (case a of Ran cmd ok \<Rightarrow> hd cmd \<noteq> ''systemctl'' | _ \<Rightarrow> True)"

abbreviation quiet :: "'h setup_step \<Rightarrow> bool" where
  "quiet \<equiv> step_ok (\<lambda>_. True) no_systemctl"

lemma andthen_cases:
  assumes "andthen a b h = (r, cs, h2)"
  shows "(isl r \<and> (\<exists>e. a h = (Inl e, cs, h2))) \<or> (\<exists>as bs h1. a h = (Inr (), as, h1) \<and> b h1 = (r, bs, h2) \<and> cs = as @ bs)"
  using assms by (cases "a h"; cases "fst (a h)") (auto simp: andthen_def Let_def split: prod.splits)

lemma quietD:
  assumes "quiet q" and "q h = (r, as, h')" shows "Ran (''systemctl'' # cmd) ok \<notin> set as"
proof
  assume "Ran (''systemctl'' # cmd) ok \<in> set as"
  with assms have "no_systemctl (Ran (''systemctl'' # cmd) ok)" by (auto simp: step_ok_def list_all_iff)
  then show False by (simp add: no_systemctl_def)
qed

lemma in_order_reach:
  assumes "list_all quiet qs" and "in_order (qs @ steps) h = (r, cs, h2)" and "Ran (''systemctl'' # cmd) ok \<in> set cs"
  shows "\<exists>as bs h1. in_order qs h = (Inr (), as, h1) \<and> in_order steps h1 = (r, bs, h2) \<and> cs = as @ bs
           \<and> Ran (''systemctl'' # cmd) ok \<in> set bs"
  using assms
proof (induction qs arbitrary: h cs)
  case (Cons q qs)
  have at: "andthen q (in_order (qs @ steps)) h = (r, cs, h2)" using Cons.prems(2) by simp
  have quiet: "quiet q" "list_all quiet qs" using Cons.prems(1) by simp_all
  obtain as bs h1 where q: "q h = (Inr (), as, h1)" and i: "in_order (qs @ steps) h1 = (r, bs, h2)" and cs: "cs = as @ bs"
    using andthen_cases [OF at] quietD [OF quiet(1)] Cons.prems(3) by blast
  have "Ran (''systemctl'' # cmd) ok \<in> set bs" using quietD [OF quiet(1) q] Cons.prems(3) cs by simp
  from Cons.IH [OF quiet(2) i this] obtain as2 bs2 h4 where
    t: "in_order qs h1 = (Inr (), as2, h4)" "in_order steps h4 = (r, bs2, h2)" "bs = as2 @ bs2"
      "Ran (''systemctl'' # cmd) ok \<in> set bs2" by blast
  from q t(1) have "in_order (q # qs) h = (Inr (), as @ as2, h4)" by (simp add: andthen_Inr)
  with t(2-) cs show ?case by auto
qed simp

lemma in_order_Cons:
  "in_order (s # ss) h = (Inr (), cs, h2) \<Longrightarrow>
     \<exists>as bs h1. s h = (Inr (), as, h1) \<and> in_order ss h1 = (Inr (), bs, h2) \<and> cs = as @ bs"
  by (simp add: andthen_Inr)

lemma unless_Inr:
  "unless (run_command host c) (wrapped w (run_command host d)) h = (Inr (), as, h') \<Longrightarrow>
     Ran c True \<in> set as \<or> Ran d True \<in> set as"
  by (auto simp: unless_def run_command_def wrapped_def Let_def split: prod.splits sum.splits option.splits)

lemma group_ensured:
  "ensure_system_group host g h = (Inr (), as, h') \<Longrightarrow>
     Ran [''getent'', ''group'', g] True \<in> set as \<or> Ran [''groupadd'', ''--system'', g] True \<in> set as"
  unfolding ensure_system_group_def by (rule unless_Inr)

lemma user_ensured:
  "ensure_system_user host u g h = (Inr (), as, h') \<Longrightarrow>
     Ran [''getent'', ''passwd'', u] True \<in> set as
     \<or> Ran [''useradd'', ''--system'', ''--gid'', g, ''--no-create-home'', ''--shell'', ''/usr/sbin/nologin'', u] True \<in> set as"
  unfolding ensure_system_user_def by (rule unless_Inr)

definition group_ready :: "string \<Rightarrow> host_action list \<Rightarrow> bool" where
  "group_ready g as \<longleftrightarrow> Ran [''getent'', ''group'', g] True \<in> set as \<or> Ran [''groupadd'', ''--system'', g] True \<in> set as"

definition user_ready :: "string \<Rightarrow> string \<Rightarrow> host_action list \<Rightarrow> bool" where
  "user_ready u g as \<longleftrightarrow>
     Ran [''getent'', ''passwd'', u] True \<in> set as
     \<or> Ran [''useradd'', ''--system'', ''--gid'', g, ''--no-create-home'', ''--shell'', ''/usr/sbin/nologin'', u] True \<in> set as"

lemma prepare_quiet: "list_all quiet (prepare_steps host p)"
  unfolding prepare_steps_def list.pred_inject
  by (intro conjI TrueI ok_group ok_user ok_dir ok_env_file ok_wrapped ok_write stable_True)
    (auto simp: no_systemctl_def)

lemma prepare_done:
  assumes "in_order (prepare_steps host p) h = (Inr (), as, h')"
  shows "\<exists>before. as = before @ [Wrote (sp_unit_path p) (render_systemd_unit p) mode_644 True]
           \<and> group_ready (sp_group p) before \<and> user_ready (sp_user p) (sp_group p) before"
proof -
  obtain a1 b1 h1 where 1: "ensure_system_group host (sp_group p) h = (Inr (), a1, h1)"
      "in_order (tl (prepare_steps host p)) h1 = (Inr (), b1, h')" "as = a1 @ b1"
    using assms by (auto simp: prepare_steps_def andthen_Inr)
  obtain a2 b2 h2 where 2: "ensure_system_user host (sp_user p) (sp_group p) h1 = (Inr (), a2, h2)"
      "in_order (drop 2 (prepare_steps host p)) h2 = (Inr (), b2, h')" "b1 = a2 @ b2"
    using 1(2) by (auto simp: prepare_steps_def andthen_Inr)
  obtain a3 b3 h3 where 3: "in_order (drop 4 (prepare_steps host p)) h3 = (Inr (), b3, h')" "b2 = a3 @ b3"
    using 2(2) by (auto simp: prepare_steps_def andthen_Inr)
  then have "b3 = [Wrote (sp_unit_path p) (render_systemd_unit p) mode_644 True]"
    by (auto simp: prepare_steps_def andthen_Inr dest!: write_unit_cases)
  with 1(3) 2(3) 3(2) group_ensured [OF 1(1)] user_ensured [OF 2(1)] show ?thesis
    by (intro exI [of _ "a1 @ a2 @ a3"]) (auto simp: group_ready_def user_ready_def)
qed

lemma service_enable:
  assumes "in_order (service_steps host) h = (r, as, h')" and "Ran enable_cmd ok \<in> set as"
  shows "\<exists>after. as = [Ran [''systemctl'', ''daemon-reload''] True, Ran enable_cmd ok] @ after"
proof -
  let ?rest = "in_order (tl (service_steps host))"
  have "andthen (run_command host [''systemctl'', ''daemon-reload'']) ?rest h = (r, as, h')"
    using assms(1) by (simp add: service_steps_def)
  from andthen_cases [OF this] assms(2) obtain bs h1 where 1: "?rest h1 = (r, bs, h')"
      "as = Ran [''systemctl'', ''daemon-reload''] True # bs" "Ran enable_cmd ok \<in> set bs"
    by (auto simp: enable_cmd_def dest!: run_command_cases)
  have "andthen (run_command host enable_cmd) (in_order (drop 2 (service_steps host))) h1 = (r, bs, h')"
    using 1(1) by (simp add: service_steps_def enable_cmd_def)
  from andthen_cases [OF this] 1(2,3) show ?thesis
    by (auto simp: enable_cmd_def service_steps_def andthen_def ignoring_def Let_def dest!: run_command_cases
        split: prod.splits sum.splits)
qed

lemma service_done:
  "in_order (service_steps host) h = (Inr (), as, h') \<Longrightarrow> Ran enable_cmd True \<in> set as"
  by (auto simp: service_steps_def enable_cmd_def andthen_Inr dest!: run_command_cases)

lemma setup_steps_enable:
  assumes "setup_steps host p h = (res, as, h')" and "Ran enable_cmd ok \<in> set as"
  shows "\<exists>before after. as = before @ [Wrote (sp_unit_path p) (render_systemd_unit p) mode_644 True,
             Ran [''systemctl'', ''daemon-reload''] True, Ran enable_cmd ok] @ after
           \<and> group_ready (sp_group p) before \<and> user_ready (sp_user p) (sp_group p) before"
proof -
  from in_order_reach [OF prepare_quiet assms(1) [unfolded setup_steps_def] assms(2) [unfolded enable_cmd_def]]
  obtain a1 b1 h1 where 1: "in_order (prepare_steps host p) h = (Inr (), a1, h1)"
    "in_order (service_steps host) h1 = (res, b1, h')" "as = a1 @ b1" "Ran enable_cmd ok \<in> set b1"
    unfolding enable_cmd_def by blast
  from prepare_done [OF 1(1)] obtain before where
    b: "a1 = before @ [Wrote (sp_unit_path p) (render_systemd_unit p) mode_644 True]"
      "group_ready (sp_group p) before" "user_ready (sp_user p) (sp_group p) before" by blast
  from 1(3) service_enable [OF 1(2,4)] b show ?thesis by (auto intro: exI [of _ before])
qed

lemma in_order_suffix:
  "in_order (qs @ ss) h = (Inr (), cs, h2) \<Longrightarrow> \<exists>as bs h1. in_order ss h1 = (Inr (), bs, h2) \<and> cs = as @ bs"
proof (induction qs arbitrary: h cs)
  case (Cons q qs)
  then obtain as bs h1 where "in_order (qs @ ss) h1 = (Inr (), bs, h2)" "cs = as @ bs"
    by (auto simp: andthen_Inr)
  with Cons.IH show ?case by (metis append.assoc)
qed auto

lemma setup_steps_done:
  assumes "setup_steps host p h = (Inr (), as, h')" shows "Ran enable_cmd True \<in> set as"
  using in_order_suffix [OF assms [unfolded setup_steps_def]] service_done by fastforce

section \<open>Properties\<close>

text \<open>
  C40. The service is started last and only on a prepared host.  However the commands of the host
  behave, \<open>forge-proxy setup systemd\<close> enables the service only as root and on a host with \<open>systemctl\<close>,
  after the group and the user were found or made, immediately after the unit for this binary was
  written and \<open>systemctl daemon-reload\<close> had succeeded; and when it reports success the service
  has been enabled.
\<close>

theorem setup_enables_last:
  assumes "run_setup host euid has_systemctl executable args h = (res, as, h')"
  shows "(\<forall>ok. Ran enable_cmd ok \<in> set as \<longrightarrow>
            euid = 0 \<and> has_systemctl
            \<and> (\<exists>bin p before after. executable = Inr bin \<and> default_systemd_params executable = Inr p
                 \<and> as = before @ [Wrote (sp_unit_path p) (render_systemd_unit p) mode_644 True,
                                  Ran [''systemctl'', ''daemon-reload''] True, Ran enable_cmd ok] @ after
                 \<and> group_ready (sp_group p) before \<and> user_ready (sp_user p) (sp_group p) before
                 \<and> ''ExecStart='' @ bin \<in> set (unit_lines p)))
         \<and> (\<not> isl res \<longrightarrow> Ran enable_cmd True \<in> set as)"
proof (cases "\<exists>p. default_systemd_params executable = Inr p \<and> euid = 0 \<and> has_systemctl \<and> setup_steps host p h = (res, as, h')")
  case False
  with assms have "as = [] \<and> isl res"
    by (auto simp: run_setup_def run_setup_systemd_def split: list.splits if_splits sum.splits)
  then show ?thesis by simp
next
  case True
  then obtain p where p: "default_systemd_params executable = Inr p" "euid = 0" "has_systemctl"
    and steps: "setup_steps host p h = (res, as, h')" by blast
  then obtain bin where bin: "executable = Inr bin" "''ExecStart='' @ bin \<in> set (unit_lines p)"
    by (cases executable) (auto simp: default_systemd_params_def unit_lines_def)
  have "\<exists>before after. as = before @ [Wrote (sp_unit_path p) (render_systemd_unit p) mode_644 True,
      Ran [''systemctl'', ''daemon-reload''] True, Ran enable_cmd ok] @ after
      \<and> group_ready (sp_group p) before \<and> user_ready (sp_user p) (sp_group p) before"
    if "Ran enable_cmd ok \<in> set as" for ok
    by (rule setup_steps_enable [OF steps that])
  moreover have "Ran enable_cmd True \<in> set as" if "\<not> isl res"
    using that steps setup_steps_done [of host p h as h'] by (cases res) auto
  ultimately show ?thesis using p bin by blast
qed

text \<open>
  What the tools of a host are relied on for: \<open>getent\<close> finds a group or user once it has been made, the
  directory is there once \<open>install\<close> has made it, and nothing setup does takes any of them away.
\<close>

definition has_group :: "'h host \<Rightarrow> string \<Rightarrow> 'h \<Rightarrow> bool" where
  "has_group host g h \<longleftrightarrow> fst (ho_run host [''getent'', ''group'', g] h) = None"

definition has_account :: "'h host \<Rightarrow> string \<Rightarrow> 'h \<Rightarrow> bool" where
  "has_account host u h \<longleftrightarrow> fst (ho_run host [''getent'', ''passwd'', u] h) = None"

definition has_dir :: "'h host \<Rightarrow> string \<Rightarrow> 'h \<Rightarrow> bool" where
  "has_dir host path h \<longleftrightarrow> ho_stat host path h = Found Directory"

definition useradd_cmd :: "string \<Rightarrow> string \<Rightarrow> string list" where
  "useradd_cmd u g = [''useradd'', ''--system'', ''--gid'', g, ''--no-create-home'', ''--shell'', ''/usr/sbin/nologin'', u]"

definition install_cmd :: "string \<Rightarrow> string \<Rightarrow> string \<Rightarrow> string list" where
  "install_cmd u g path = [''install'', ''-d'', ''-o'', u, ''-g'', g, ''-m'', ''0750'', path]"

definition sane_host :: "'h host \<Rightarrow> bool" where
  "sane_host host \<longleftrightarrow>
     (\<forall>g. stable host (has_group host g)) \<and> (\<forall>u. stable host (has_account host u)) \<and> (\<forall>p. stable host (has_dir host p))
     \<and> (\<forall>g h h'. ho_run host [''groupadd'', ''--system'', g] h = (None, h') \<longrightarrow> has_group host g h')
     \<and> (\<forall>u g h h'. ho_run host (useradd_cmd u g) h = (None, h') \<longrightarrow> has_account host u h')
     \<and> (\<forall>u g p h h'. ho_run host (install_cmd u g p) h = (None, h') \<longrightarrow> has_dir host p h')"

lemma sane_stable:
  assumes "sane_host host"
  shows "stable host (has_group host g)" "stable host (has_account host u)" "stable host (has_dir host p)"
  using assms by (simp_all add: sane_host_def)

lemma group_made:
  assumes "sane_host host" and "ensure_system_group host g h = (Inr (), as, h')" shows "has_group host g h'"
proof (cases "has_group host g h")
  case True
  with assms(2) sane_stable(1) [OF assms(1), of g] show ?thesis
    by (auto simp: ensure_system_group_def unless_def run_command_def has_group_def stable_def
        split: prod.splits option.splits) (metis fst_conv snd_conv)+
next
  case False
  with assms show ?thesis
    by (auto simp: ensure_system_group_def unless_def run_command_def has_group_def wrapped_def sane_host_def Let_def
        split: prod.splits option.splits sum.splits)
qed

lemma account_made:
  assumes "sane_host host" and "ensure_system_user host u g h = (Inr (), as, h')" shows "has_account host u h'"
proof (cases "has_account host u h")
  case True
  with assms(2) sane_stable(2) [OF assms(1), of u] show ?thesis
    by (auto simp: ensure_system_user_def unless_def run_command_def has_account_def stable_def
        split: prod.splits option.splits) (metis fst_conv snd_conv)+
next
  case False
  with assms show ?thesis
    by (auto simp: ensure_system_user_def unless_def run_command_def has_account_def wrapped_def sane_host_def Let_def
        useradd_cmd_def split: prod.splits option.splits sum.splits)
qed

lemma dir_made:
  assumes "sane_host host" and "ensure_data_dir host path u g h = (Inr (), as, h')" shows "has_dir host path h'"
  using assms
  by (auto simp: ensure_data_dir_def run_command_def has_dir_def wrapped_def sane_host_def install_cmd_def
      split: prod.splits option.splits sum.splits stat_result.splits file_kind.splits)

lemma setup_steps_keep: "stable host P \<Longrightarrow> list_all (step_ok P (\<lambda>_. True)) (prepare_steps host p @ service_steps host)"
  unfolding prepare_steps_def service_steps_def append.simps list.pred_inject
  by (intro conjI TrueI ok_group ok_user ok_dir ok_env_file ok_wrapped ok_write ok_run ok_ignoring) simp_all

lemma setup_leaves_ready:
  assumes "sane_host host" and "setup_steps host p h = (Inr (), as, h')"
  shows "has_group host (sp_group p) h' \<and> has_account host (sp_user p) h' \<and> has_dir host (sp_data_dir p) h'"
proof -
  let ?all = "prepare_steps host p @ service_steps host"
  have keep: "P h2" if "stable host P" "P h1" "in_order (drop n ?all) h1 = (Inr (), bs, h2)" for P n h1 bs h2
  proof -
    have "list_all (step_ok P (\<lambda>_. True)) (drop n ?all)"
      using setup_steps_keep [OF that(1), of p] unfolding list_all_iff by (blast dest: in_set_dropD)
    from step_okD [OF ok_in_order [OF this] that(3,2)] show ?thesis by simp
  qed
  obtain a1 b1 h1 where 1: "ensure_system_group host (sp_group p) h = (Inr (), a1, h1)"
      "in_order (drop 1 ?all) h1 = (Inr (), b1, h')"
    using assms(2) by (auto simp: setup_steps_def prepare_steps_def andthen_Inr)
  obtain a2 b2 h2 where 2: "ensure_system_user host (sp_user p) (sp_group p) h1 = (Inr (), a2, h2)"
      "in_order (drop 2 ?all) h2 = (Inr (), b2, h')"
    using 1(2) by (auto simp: prepare_steps_def andthen_Inr)
  obtain a3 b3 h3 where 3: "ensure_data_dir host (sp_data_dir p) (sp_user p) (sp_group p) h2 = (Inr (), a3, h3)"
      "in_order (drop 3 ?all) h3 = (Inr (), b3, h')"
    using 2(2) by (auto simp: prepare_steps_def andthen_Inr)
  from keep [OF sane_stable(1) [OF assms(1)] group_made [OF assms(1) 1(1)] 1(2)]
    keep [OF sane_stable(2) [OF assms(1)] account_made [OF assms(1) 2(1)] 2(2)]
    keep [OF sane_stable(3) [OF assms(1)] dir_made [OF assms(1) 3(1)] 3(2)]
  show ?thesis by blast
qed

definition creates :: "host_action \<Rightarrow> bool" where
  "creates a \<longleftrightarrow> (case a of Ran cmd ok \<Rightarrow> hd cmd \<in> {''groupadd'', ''useradd'', ''install''} | _ \<Rightarrow> False)"

lemma ready_step:
  assumes "stable host P" and "\<And>h. P h \<Longrightarrow> has_group host g h"
  shows "step_ok P (\<lambda>a. \<not> creates a) (ensure_system_group host g)"
  using assms unfolding step_ok_def
  by (auto simp: ensure_system_group_def unless_def run_command_def has_group_def stable_def creates_def
      split: prod.splits option.splits) (metis fst_conv snd_conv option.distinct(1))+

lemma ready_user_step:
  assumes "stable host P" and "\<And>h. P h \<Longrightarrow> has_account host u h"
  shows "step_ok P (\<lambda>a. \<not> creates a) (ensure_system_user host u g)"
  using assms unfolding step_ok_def
  by (auto simp: ensure_system_user_def unless_def run_command_def has_account_def stable_def creates_def
      split: prod.splits option.splits) (metis fst_conv snd_conv option.distinct(1))+

lemma ready_dir_step:
  "(\<And>h. P h \<Longrightarrow> has_dir host path h) \<Longrightarrow> step_ok P (\<lambda>a. \<not> creates a) (ensure_data_dir host path u g)"
  unfolding step_ok_def by (auto simp: ensure_data_dir_def has_dir_def)

lemma ready_steps:
  assumes "stable host P"
    and "\<And>h. P h \<Longrightarrow> has_group host (sp_group p) h \<and> has_account host (sp_user p) h \<and> has_dir host (sp_data_dir p) h"
  shows "step_ok P (\<lambda>a. \<not> creates a) (setup_steps host p)"
proof -
  have "list_all (step_ok P (\<lambda>a. \<not> creates a)) (prepare_steps host p @ service_steps host)"
    unfolding prepare_steps_def service_steps_def append.simps list.pred_inject
    by (intro conjI TrueI ready_step ready_user_step ready_dir_step ok_env_file ok_wrapped ok_write ok_run ok_ignoring assms(1))
      (auto simp: assms(2) creates_def)
  then have "step_ok P (\<lambda>a. \<not> creates a) (in_order (prepare_steps host p @ service_steps host))"
    by (rule ok_in_order)
  then show ?thesis by (simp add: step_ok_def setup_steps_def)
qed

text \<open>
  Setup is idempotent: on a host whose tools work, after a run that succeeded a second run, whatever
  happens to it, makes no group, no user and no directory again, and the three are still there.
\<close>

theorem setup_idempotent:
  assumes "sane_host host" and "run_setup host euid has_systemctl executable args h = (Inr (), as, h1)"
    and "run_setup host euid2 has_systemctl2 executable2 args2 h1 = (res, as2, h2)"
  shows "\<not> list_ex creates as2
         \<and> has_group host ''forge-proxy'' h2 \<and> has_account host ''forge-proxy'' h2 \<and> has_dir host ''/var/lib/forge-proxy'' h2"
proof -
  let ?P = "\<lambda>h. has_group host ''forge-proxy'' h \<and> has_account host ''forge-proxy'' h \<and> has_dir host ''/var/lib/forge-proxy'' h"
  have stable: "stable host ?P" by (intro stable_conj sane_stable [OF assms(1)])
  have params: "sp_group p = ''forge-proxy'' \<and> sp_user p = ''forge-proxy'' \<and> sp_data_dir p = ''/var/lib/forge-proxy''"
    if "default_systemd_params e = Inr p" for e p
    using that by (auto simp: default_systemd_params_def split: sum.splits)
  have P1: "?P h1"
    using assms(2) setup_leaves_ready [OF assms(1)] params
    by (fastforce simp: run_setup_def run_setup_systemd_def split: list.splits if_splits sum.splits)
  have ok: "step_ok ?P (\<lambda>a. \<not> creates a) (setup_steps host p)" if "default_systemd_params e = Inr p" for e p
    using params [OF that] by (intro ready_steps [OF stable]) simp
  have "as2 = [] \<and> h2 = h1 \<or> (\<exists>e p. default_systemd_params e = Inr p \<and> setup_steps host p h1 = (res, as2, h2))"
    using assms(3) by (auto simp: run_setup_def run_setup_systemd_def split: list.splits if_splits sum.splits)
  then have "?P h2 \<and> list_all (\<lambda>a. \<not> creates a) as2"
  proof (elim disjE exE conjE)
    fix e p assume "default_systemd_params e = Inr p" "setup_steps host p h1 = (res, as2, h2)"
    with ok P1 show ?thesis unfolding step_ok_def by blast
  qed (use P1 in simp)
  then show ?thesis by (simp add: list_all_iff list_ex_iff)
qed

text \<open>A host whose state is its groups, its accounts and its directories, as the concrete instance.\<close>

type_synonym example_host = "string list \<times> string list \<times> string list"

definition unix_host :: "example_host host" where
  "unix_host =
     \<lparr>ho_run = (\<lambda>cmd (gs, us, ds).
        let failed = (Some (Message ''exit status 2''), (gs, us, ds)); target = last cmd
        in if cmd = [] then failed
           else if hd cmd = ''getent'' then
             (if target \<in> set (if cmd ! 1 = ''group'' then gs else us) then (None, (gs, us, ds)) else failed)
           else if hd cmd = ''groupadd'' then (None, (target # gs, us, ds))
           else if hd cmd = ''useradd'' then (None, (gs, target # us, ds))
           else if hd cmd = ''install'' then (None, (gs, us, target # ds))
           else (None, (gs, us, ds))),
      ho_stat = (\<lambda>path (gs, us, ds). if path \<in> set ds then Found Directory else NoSuchFile),
      ho_write = (\<lambda>path content mode h. (None, h)),
      ho_chmod = (\<lambda>path mode h. (None, h))\<rparr>"

lemma setup_enables_last_witness:
  "let r = run_setup unix_host 0 True (Inr ''/usr/local/bin/forge-proxy'') [''systemd''] ([], [], [])
   in \<exists>p before after. fst (snd r) = before @ [Wrote (sp_unit_path p) (render_systemd_unit p) mode_644 True,
          Ran [''systemctl'', ''daemon-reload''] True, Ran enable_cmd True] @ after
        \<and> group_ready ''forge-proxy'' before \<and> user_ready ''forge-proxy'' ''forge-proxy'' before"
proof -
  let ?r = "run_setup unix_host 0 True (Inr ''/usr/local/bin/forge-proxy'') [''systemd''] ([], [], [])"
  obtain res as h' where r: "?r = (res, as, h')" by (metis prod_cases3)
  have "\<not> isl (fst ?r)" by code_simp
  with setup_enables_last [OF r] r show ?thesis
    by (fastforce simp: Let_def default_systemd_params_def)
qed

lemma unix_host_sane: "sane_host unix_host"
  by (auto simp: sane_host_def stable_def has_group_def has_account_def has_dir_def unix_host_def useradd_cmd_def
      install_cmd_def Let_def split: if_splits)

lemma setup_idempotent_witness:
  "let r = run_setup unix_host 0 True (Inr ''/usr/local/bin/forge-proxy'') [''systemd''];
       first = r ([], [], []); second = r (snd (snd first))
   in list_ex creates (fst (snd first)) \<and> \<not> list_ex creates (fst (snd second)) \<and> \<not> isl (fst second)"
proof -
  let ?r = "run_setup unix_host 0 True (Inr ''/usr/local/bin/forge-proxy'') [''systemd'']"
  obtain res as h1 where f: "?r ([], [], []) = (res, as, h1)" by (metis prod_cases3)
  obtain res2 as2 h2 where g: "?r h1 = (res2, as2, h2)" by (metis prod_cases3)
  have "\<not> isl (fst (?r ([], [], [])))" "list_ex creates (fst (snd (?r ([], [], []))))"
      "\<not> isl (fst (?r (snd (snd (?r ([], [], []))))))" by code_simp+
  with f g setup_idempotent [OF unix_host_sane _ g] show ?thesis by (cases res) (simp_all add: Let_def)
qed

end
