(* ===== verification/Run.thy ===== *)
theory Run
  imports Server SshServer SshCa Config Database
begin

text \<open>
  \<open>run\<close> of \<open>cmd/forge-proxy/main.go\<close>: starting the parts of the server, waiting for a signal or a
  failure, and taking the parts down again; with \<open>buildSSHSubsystem\<close> and \<open>setupLogging\<close>.

  What \<open>run\<close> does is recorded as a list of actions in their order, the deferred calls included.  The
  answers of the operating system and of the libraries are inputs.
\<close>

section \<open>Logging\<close>

datatype log_level = LevelDebug | LevelInfo | LevelWarn | LevelError

definition setup_logging :: "string \<Rightarrow> log_level" where
  "setup_logging level =
     (let l = to_lower (trim_space level)
      in if l = ''debug'' then LevelDebug
         else if l = ''warn'' \<or> l = ''warning'' then LevelWarn
         else if l = ''error'' then LevelError
         else LevelInfo)"

section \<open>The SSH subsystem\<close>

datatype run_err =
    ConfigInvalid "load_err list"
  | RunErr err
  | KnownHostsErr string err

record ('s, 'cb) ssh_subsystem =
  sb_config :: ssh_config
  sb_host_key :: 's
  sb_ca_key :: 's
  sb_known_hosts :: 'cb

record ('k, 's, 'cb) ssh_env =
  sv_lib :: "('k, 's) key_lib"
  sv_host_io :: io_fault
  sv_ca_io :: io_fault
  sv_known_hosts :: "string \<Rightarrow> 'cb result"

definition ssh_targets :: "(int \<times> ssh_upstream) list \<Rightarrow> (int \<times> ssh_target) list" where
  "ssh_targets ups =
     map (\<lambda>(port, up). (port, \<lparr>st_port = su_port up, st_target = su_target up, st_roles = su_allowed_roles up\<rparr>)) ups"

text \<open>No subsystem without upstreams; every failure is an error.\<close>

definition build_ssh_subsystem ::
    "('k, 's, 'cb) ssh_env \<Rightarrow> config \<Rightarrow> file_system \<Rightarrow> (run_err + ('s, 'cb) ssh_subsystem option) \<times> file_system" where
  "build_ssh_subsystem env cfg fs =
     (if cf_ssh_upstreams cfg = [] then (Inr None, fs)
      else (case load_or_generate (sv_lib env) (sv_host_io env) (path_dir (cf_ssh_host_key_path cfg))
                   (cf_ssh_host_key_path cfg) fs of
        (_, Inl e, fs1) \<Rightarrow> (Inl (RunErr (Wrap ''ssh host key'' e)), fs1)
      | (_, Inr host_key, fs1) \<Rightarrow>
     (case load_or_generate (sv_lib env) (sv_ca_io env) (path_dir (cf_ssh_ca_key_path cfg))
                   (cf_ssh_ca_key_path cfg) fs1 of
        (_, Inl e, fs2) \<Rightarrow> (Inl (RunErr (Wrap ''ssh ca key'' e)), fs2)
      | (_, Inr ca_key, fs2) \<Rightarrow>
     (case sv_known_hosts env (cf_ssh_known_hosts_path cfg) of
        Inl e \<Rightarrow> (Inl (KnownHostsErr (cf_ssh_known_hosts_path cfg) e), fs2)
      | Inr cb \<Rightarrow>
          (Inr (Some \<lparr>sb_config = \<lparr>sc_listen_addr = cf_ssh_listen_addr cfg, sc_upstreams = ssh_targets (cf_ssh_upstreams cfg),
                                  sc_has_host_key = True, sc_auth_host = cf_auth_host cfg\<rparr>,
                     sb_host_key = host_key, sb_ca_key = ca_key, sb_known_hosts = cb\<rparr>), fs2)))))"

section \<open>run\<close>

datatype run_action =
    Pool pool_event
  | StartOidc
  | StartSweeper
  | StartSsh
  | StartHttp
  | ShutdownHttp bool
  | CancelSsh
  | ShutdownSsh bool
  | AwaitSsh
  | CancelSweeper
  | AwaitSweeper
  | CancelOidc

text \<open>What the select wakes up on.\<close>

datatype wake = SignalReceived | HttpFailed err | SshFailed err

record ('k, 's, 'cb) run_env =
  re_environ :: env
  re_stat :: "string \<Rightarrow> file_stat"
  re_cpus :: nat
  re_open :: open_fault
  re_ssh :: "('k, 's, 'cb) ssh_env"
  re_wake :: wake
  re_http_shutdown :: "err option"
  re_ssh_in_time :: bool

definition http_shutdown_timeout :: duration where "http_shutdown_timeout = seconds 30"
definition ssh_shutdown_timeout :: duration where "ssh_shutdown_timeout = seconds 5"

text \<open>The deferred calls, the last one first.\<close>

definition deferred_close :: "run_action list" where
  "deferred_close = [Pool (PoolClosed ReaderPool), Pool (PoolClosed WriterPool)]"

definition deferred_stores :: "run_action list" where
  "deferred_stores = [CancelSweeper, CancelOidc] @ deferred_close"

definition deferred_all :: "run_action list" where
  "deferred_all = CancelSsh # deferred_stores"

definition run_shutdown :: "('k, 's, 'cb) run_env \<Rightarrow> bool \<Rightarrow> run_err option \<times> run_action list" where
  "run_shutdown env ssh =
     (case re_http_shutdown env of
        Some e \<Rightarrow> (Some (RunErr (Wrap ''shutdown'' e)), [ShutdownHttp False])
      | None \<Rightarrow>
          (None, [ShutdownHttp True] @ (if ssh then [CancelSsh, ShutdownSsh (re_ssh_in_time env), AwaitSsh] else [])
                 @ [CancelSweeper, AwaitSweeper]))"

definition run_serving :: "('k, 's, 'cb) run_env \<Rightarrow> bool \<Rightarrow> run_err option \<times> run_action list" where
  "run_serving env ssh =
     (case re_wake env of
        SignalReceived \<Rightarrow> run_shutdown env ssh
      | HttpFailed e \<Rightarrow> (Some (RunErr e), [])
      | SshFailed e \<Rightarrow> (Some (RunErr (Wrap ''ssh subsystem'' e)), []))"

definition run :: "('k, 's, 'cb) run_env \<Rightarrow> file_system \<Rightarrow> run_err option \<times> run_action list \<times> file_system" where
  "run env fs =
     (case load_config (re_environ env) (re_stat env) of
        Inl errs \<Rightarrow> (Some (ConfigInvalid errs), [], fs)
      | Inr cfg \<Rightarrow>
     (case db_open (cf_db_path cfg) (re_cpus env) (re_open env) of
        (Inl e, es) \<Rightarrow> (Some (RunErr (Wrap ''open db'' e)), map Pool es, fs)
      | (Inr _, es) \<Rightarrow>
     (case build_ssh_subsystem (re_ssh env) cfg fs of
        (Inl e, fs1) \<Rightarrow> (Some e, map Pool es @ [StartOidc, StartSweeper] @ deferred_stores, fs1)
      | (Inr ssh, fs1) \<Rightarrow>
          (let (res, acts) = run_serving env (ssh \<noteq> None)
           in (res, map Pool es @ [StartOidc, StartSweeper] @ (if ssh \<noteq> None then [StartSsh] else []) @ [StartHttp]
                    @ acts @ deferred_all, fs1)))))"

section \<open>Facts\<close>

definition pool_events :: "run_action list \<Rightarrow> pool_event list" where
  "pool_events acts = List.map_filter (\<lambda>a. case a of Pool e \<Rightarrow> Some e | _ \<Rightarrow> None) acts"

lemma pool_events_simps [simp]:
  "pool_events [] = []" "pool_events (as @ bs) = pool_events as @ pool_events bs"
  "pool_events (Pool e # as) = e # pool_events as"
  "pool_events (map Pool es) = es"
  by (simp_all add: pool_events_def map_filter_def comp_def)

lemma pool_events_other: "(\<And>e. a \<noteq> Pool e) \<Longrightarrow> pool_events (a # as) = pool_events as"
  by (cases a) (simp_all add: pool_events_def map_filter_def)

lemma pool_events_actions [simp]:
  "pool_events (StartOidc # as) = pool_events as" "pool_events (StartSweeper # as) = pool_events as"
  "pool_events (StartSsh # as) = pool_events as" "pool_events (StartHttp # as) = pool_events as"
  "pool_events (ShutdownHttp b # as) = pool_events as" "pool_events (CancelSsh # as) = pool_events as"
  "pool_events (ShutdownSsh b # as) = pool_events as" "pool_events (AwaitSsh # as) = pool_events as"
  "pool_events (CancelSweeper # as) = pool_events as" "pool_events (AwaitSweeper # as) = pool_events as"
  "pool_events (CancelOidc # as) = pool_events as"
  by (simp_all add: pool_events_other)

text \<open>What \<open>run\<close> does on each of its paths.\<close>

lemma run_cases:
  assumes "run env fs = (res, acts, fs')"
  obtains (no_config) errs where "res = Some (ConfigInvalid errs)" "acts = []"
  | (no_db) cfg e es where "load_config (re_environ env) (re_stat env) = Inr cfg" "res \<noteq> None"
      "db_open (cf_db_path cfg) (re_cpus env) (re_open env) = (Inl e, es)" "acts = map Pool es"
  | (no_ssh) cfg p es e where "load_config (re_environ env) (re_stat env) = Inr cfg" "res = Some e"
      "db_open (cf_db_path cfg) (re_cpus env) (re_open env) = (Inr p, es)"
      "build_ssh_subsystem (re_ssh env) cfg fs = (Inl e, fs')"
      "acts = map Pool es @ [StartOidc, StartSweeper] @ deferred_stores"
  | (served) cfg p es ssh down where "load_config (re_environ env) (re_stat env) = Inr cfg"
      "db_open (cf_db_path cfg) (re_cpus env) (re_open env) = (Inr p, es)"
      "build_ssh_subsystem (re_ssh env) cfg fs = (Inr ssh, fs')" "run_serving env (ssh \<noteq> None) = (res, down)"
      "acts = map Pool es @ [StartOidc, StartSweeper] @ (if ssh \<noteq> None then [StartSsh] else []) @ [StartHttp]
               @ down @ deferred_all"
  using assms that
  by (auto simp: run_def Let_def split: sum.splits prod.splits)

lemma run_serving_shapes:
  "run_serving env ssh = (res, down) \<Longrightarrow>
     pool_events down = [] \<and> StartHttp \<notin> set down \<and> StartSsh \<notin> set down
     \<and> (res = None \<longrightarrow> (\<exists>b. down = [ShutdownHttp True] @ (if ssh then [CancelSsh, ShutdownSsh b, AwaitSsh] else [])
                                     @ [CancelSweeper, AwaitSweeper]))"
  by (auto simp: run_serving_def run_shutdown_def split: wake.splits option.splits)

lemma build_ssh_None:
  "build_ssh_subsystem env cfg fs = (Inr ssh, fs') \<Longrightarrow> ssh = None \<longleftrightarrow> cf_ssh_upstreams cfg = []"
  by (auto simp: build_ssh_subsystem_def split: if_splits sum.splits prod.splits)

lemma build_ssh_config:
  "build_ssh_subsystem env cfg fs = (Inr (Some sub), fs') \<Longrightarrow> sc_upstreams (sb_config sub) = ssh_targets (cf_ssh_upstreams cfg)"
  by (auto simp: build_ssh_subsystem_def split: if_splits sum.splits prod.splits)

definition closes_last :: "run_action list \<Rightarrow> bool" where
  "closes_last acts \<longleftrightarrow>
     opened (pool_events acts) \<subseteq> Database.closed (pool_events acts)
     \<and> (\<exists>before after. acts = before @ map (Pool \<circ> PoolClosed) after \<and> (\<forall>p. Pool (PoolClosed p) \<notin> set before))"

lemma failed_open_closes_last:
  assumes "db_open path cpus f = (Inl e, es)" shows "closes_last (map Pool es)"
proof -
  have "\<exists>before after. es = before @ map PoolClosed after \<and> (\<forall>p. PoolClosed p \<notin> set before)"
  proof -
    have "es \<in> {[], [PoolOpened WriterPool (build_dsn path False) 1, PoolClosed WriterPool],
        [PoolOpened WriterPool (build_dsn path False) 1, MigrationsApplied, PoolClosed WriterPool],
        [PoolOpened WriterPool (build_dsn path False) 1, MigrationsApplied, PoolOpened ReaderPool (build_dsn path True) (max cpus 4),
         PoolClosed ReaderPool, PoolClosed WriterPool]}"
      using assms by (auto simp: db_open_def open_writer_def open_reader_def Let_def split: if_splits option.splits sum.splits)
    then obtain before after where "es = before @ map PoolClosed after" "before \<in> {[],
        [PoolOpened WriterPool (build_dsn path False) 1], [PoolOpened WriterPool (build_dsn path False) 1, MigrationsApplied],
        [PoolOpened WriterPool (build_dsn path False) 1, MigrationsApplied, PoolOpened ReaderPool (build_dsn path True) (max cpus 4)]}"
      by (auto intro: that [of "[]" "[]", simplified] that [of _ "[WriterPool]", simplified]
          that [of _ "[ReaderPool, WriterPool]", simplified])
    then show ?thesis by (intro exI [of _ before] exI [of _ after]) auto
  qed
  then obtain before after where es: "es = before @ map PoolClosed after" "\<forall>p. PoolClosed p \<notin> set before" by blast
  then have "map Pool es = map Pool before @ map (Pool \<circ> PoolClosed) after" "\<forall>p. Pool (PoolClosed p) \<notin> set (map Pool before)"
    by auto
  with db_open_closes [OF assms] show ?thesis unfolding closes_last_def by (metis pool_events_simps(4))
qed

lemma deferred_closes_last:
  assumes "db_open path cpus f = (Inr p, es)" and "pool_events mid = []" and "acts = map Pool es @ mid @ deferred_close"
  shows "closes_last acts"
proof -
  have es: "es = [PoolOpened WriterPool (build_dsn path False) 1, MigrationsApplied,
                  PoolOpened ReaderPool (build_dsn path True) (max cpus 4)]"
    using db_open_success [OF assms(1)] .
  have mid: "Pool e \<notin> set mid" for e
    using assms(2) by (induction mid) (auto simp: pool_events_def map_filter_def split: run_action.splits if_splits)
  have "acts = (map Pool es @ mid) @ map (Pool \<circ> PoolClosed) [ReaderPool, WriterPool]"
    by (simp add: assms(3) deferred_close_def)
  moreover have "\<forall>p. Pool (PoolClosed p) \<notin> set (map Pool es @ mid)" by (auto simp: es mid)
  moreover have "opened (pool_events acts) \<subseteq> Database.closed (pool_events acts)"
  proof
    fix q show "q \<in> Database.closed (pool_events acts)"
      by (cases q) (simp_all add: assms(3) Database.closed_def deferred_close_def)
  qed
  ultimately show ?thesis unfolding closes_last_def by blast
qed

section \<open>Properties\<close>

text \<open>
  C37. Start and stop follow one order on every path.  Each pool of the database that was opened is
  closed, and closing them is the last thing that happens; traffic is taken only with a loaded
  configuration, a migrated database and, exactly if the configuration names SSH upstreams, the SSH
  side; and when \<open>run\<close> ends without an error, HTTP was drained first, then SSH was cancelled, shut down
  and waited for, then the sweeper was stopped and waited for, and the database was closed last.
\<close>

theorem run_in_order:
  assumes "run env fs = (res, acts, fs')"
  shows "closes_last acts
     \<and> (StartHttp \<in> set acts \<longrightarrow> (\<exists>cfg before after. load_config (re_environ env) (re_stat env) = Inr cfg
           \<and> acts = before @ StartHttp # after \<and> Pool MigrationsApplied \<in> set before
           \<and> (StartSsh \<in> set before \<longleftrightarrow> cf_ssh_upstreams cfg \<noteq> [])))
     \<and> (res = None \<longrightarrow> (\<exists>start b. acts = start @ [ShutdownHttp True]
           @ (if StartSsh \<in> set start then [CancelSsh, ShutdownSsh b, AwaitSsh] else [])
           @ [CancelSweeper, AwaitSweeper, CancelSsh, CancelSweeper, CancelOidc,
              Pool (PoolClosed ReaderPool), Pool (PoolClosed WriterPool)]))"
  using assms
proof (cases rule: run_cases)
  case (no_config errs)
  then show ?thesis by (simp add: closes_last_def opened_def)
next
  case (no_db cfg e es)
  then show ?thesis using failed_open_closes_last by auto
next
  case (no_ssh cfg p es e)
  have "closes_last acts"
    by (rule deferred_closes_last [OF no_ssh(3), of "[StartOidc, StartSweeper, CancelSweeper, CancelOidc]"])
      (simp_all add: no_ssh(5) deferred_stores_def)
  with no_ssh show ?thesis by (auto simp: deferred_stores_def deferred_close_def)
next
  case (served cfg p es ssh down)
  note shape = run_serving_shapes [OF served(4)]
  let ?before = "map Pool es @ [StartOidc, StartSweeper] @ (if ssh \<noteq> None then [StartSsh] else [])"
  have "closes_last acts"
    by (rule deferred_closes_last [OF served(2), of "[StartOidc, StartSweeper] @ (if ssh \<noteq> None then [StartSsh] else [])
          @ [StartHttp] @ down @ [CancelSsh, CancelSweeper, CancelOidc]"])
      (use shape in \<open>simp_all add: served(5) deferred_all_def deferred_stores_def\<close>)
  moreover have "acts = ?before @ StartHttp # down @ deferred_all" by (simp add: served(5))
  moreover have "Pool MigrationsApplied \<in> set ?before" using db_open_success [OF served(2)] by simp
  moreover have "StartSsh \<in> set ?before \<longleftrightarrow> cf_ssh_upstreams cfg \<noteq> []"
    using build_ssh_None [OF served(3)] by auto
  moreover have "\<exists>start b. acts = start @ [ShutdownHttp True]
           @ (if StartSsh \<in> set start then [CancelSsh, ShutdownSsh b, AwaitSsh] else [])
           @ [CancelSweeper, AwaitSweeper] @ deferred_all" if "res = None"
    using shape that served(5) by (intro exI [of _ "?before @ [StartHttp]"]) auto
  ultimately show ?thesis using served(1)
    unfolding deferred_all_def deferred_stores_def deferred_close_def append.simps by blast
qed

text \<open>The example deployment with its SSH side, stopped by a signal.\<close>

definition example_run :: "err option \<Rightarrow> (string, string, string) run_env" where
  "example_run http_err =
     \<lparr>re_environ = example_env ''auth.forgeutah.tech'', re_stat = example_stat, re_cpus = 2,
      re_open = \<lparr>of_writer = None, of_writer_ping = None, of_dialect = None, of_up = None, of_reader = None,
                 of_reader_ping = None\<rparr>,
      re_ssh = \<lparr>sv_lib = example_key_lib, sv_host_io = no_io_fault, sv_ca_io = no_io_fault, sv_known_hosts = Inr\<rparr>,
      re_wake = SignalReceived, re_http_shutdown = http_err, re_ssh_in_time = True\<rparr>"

lemma example_ssh_loaded:
  fixes c defines "c \<equiv> loaded (example_env ''auth.forgeutah.tech'')"
  shows "cf_ssh_upstreams c \<noteq> []" "cf_ssh_host_key_path c = ''/data/host''" "cf_ssh_ca_key_path c = ''/data/ca''"
    "cf_db_path c = ''/data/forge.db''"
proof -
  let ?s = "fst (load_ssh (example_env ''auth.forgeutah.tech''))"
  have "ss_upstreams ?s \<noteq> [] \<and> ss_host_key_path ?s = ''/data/host'' \<and> ss_ca_key_path ?s = ''/data/ca''" by code_simp
  moreover have "env_value (example_env ''auth.forgeutah.tech'') ''DB_PATH'' = ''/data/forge.db''" by code_simp
  ultimately show "cf_ssh_upstreams c \<noteq> []" "cf_ssh_host_key_path c = ''/data/host''" "cf_ssh_ca_key_path c = ''/data/ca''"
    "cf_db_path c = ''/data/forge.db''" by (simp_all add: c_def loaded_def Let_def)
qed

lemma example_built:
  "\<exists>sub fs. build_ssh_subsystem (re_ssh (example_run e)) (loaded (example_env ''auth.forgeutah.tech'')) (\<lambda>_. None)
     = (Inr (Some sub), fs)"
proof -
  have "case load_or_generate example_key_lib no_io_fault (path_dir ''/data/host'') ''/data/host'' (\<lambda>_. None) of
      (_, Inl _, _) \<Rightarrow> False
    | (_, Inr _, fs) \<Rightarrow> \<not> isl (fst (snd (load_or_generate example_key_lib no_io_fault (path_dir ''/data/ca'') ''/data/ca'' fs)))"
    by code_simp
  then show ?thesis
    by (auto simp: build_ssh_subsystem_def example_ssh_loaded example_run_def split: prod.splits sum.splits)
qed
lemma example_run_result:
  "\<exists>fs es. run (example_run e) (\<lambda>_. None) =
     (map_option (\<lambda>e. RunErr (Wrap ''shutdown'' e)) e,
      map Pool es @ [StartOidc, StartSweeper, StartSsh, StartHttp]
      @ (if e = None then [ShutdownHttp True, CancelSsh, ShutdownSsh True, AwaitSsh, CancelSweeper, AwaitSweeper]
         else [ShutdownHttp False])
      @ deferred_all, fs)"
proof -
  obtain sub fs where b: "build_ssh_subsystem (re_ssh (example_run e)) (loaded (example_env ''auth.forgeutah.tech''))
      (\<lambda>_. None) = (Inr (Some sub), fs)" using example_built by blast
  obtain r es where "db_open (cf_db_path (loaded (example_env ''auth.forgeutah.tech''))) (re_cpus (example_run e))
      (re_open (example_run e)) = (Inr r, es)"
    by (auto simp: db_open_def open_writer_def open_reader_def migrate_def example_run_def example_ssh_loaded)
  then show ?thesis
    using b example_env_loads
    by (cases e) (auto simp: run_def example_run_def run_serving_def run_shutdown_def)
qed

lemma run_in_order_witness:
  "\<exists>acts fs. run (example_run None) (\<lambda>_. None) = (None, acts, fs) \<and> closes_last acts
     \<and> (\<exists>start b. acts = start @ [ShutdownHttp True]
           @ (if StartSsh \<in> set start then [CancelSsh, ShutdownSsh b, AwaitSsh] else [])
           @ [CancelSweeper, AwaitSweeper, CancelSsh, CancelSweeper, CancelOidc,
              Pool (PoolClosed ReaderPool), Pool (PoolClosed WriterPool)])"
proof -
  obtain acts fs where r: "run (example_run None) (\<lambda>_. None) = (None, acts, fs)"
    using example_run_result [of None] by auto
  from run_in_order [OF r, THEN conjunct1] run_in_order [OF r, THEN conjunct2, THEN conjunct2, THEN mp, OF refl] r
  show ?thesis by metis
qed

text \<open>
  When draining HTTP does not finish in time, \<open>run\<close> returns at once: SSH, which is running, is not shut
  down, and the database is closed while nobody has waited for the sweeper.
\<close>

lemma slow_drain_skips_ssh_and_sweeper:
  "\<exists>acts fs. run (example_run (Some (Message ''context deadline exceeded''))) (\<lambda>_. None)
       = (Some (RunErr (Wrap ''shutdown'' (Message ''context deadline exceeded''))), acts, fs)
     \<and> StartSsh \<in> set acts \<and> StartSweeper \<in> set acts \<and> Pool (PoolClosed WriterPool) \<in> set acts
     \<and> AwaitSweeper \<notin> set acts \<and> AwaitSsh \<notin> set acts \<and> (\<forall>b. ShutdownSsh b \<notin> set acts)"
proof -
  obtain fs es where r: "run (example_run (Some (Message ''context deadline exceeded''))) (\<lambda>_. None) =
     (Some (RunErr (Wrap ''shutdown'' (Message ''context deadline exceeded''))),
      map Pool es @ [StartOidc, StartSweeper, StartSsh, StartHttp] @ [ShutdownHttp False] @ deferred_all, fs)"
    using example_run_result [of "Some (Message ''context deadline exceeded'')"] by auto
  then show ?thesis by (auto simp: deferred_all_def deferred_stores_def deferred_close_def)
qed

text \<open>
  C38. Nobody without a role passes the SSH side: if the server starts listening for SSH, then every
  port it listens on is a distinct port of the configuration with a non-empty list of valid role
  names, and a user without roles is refused on each of them, as is any user who holds none of the
  roles of the port.
\<close>

theorem ssh_ports_gated:
  assumes "load_config env stat = Inr cfg" and "build_ssh_subsystem se cfg fs = (Inr (Some sub), fs')"
  shows "sc_upstreams (sb_config sub) \<noteq> [] \<and> distinct (map fst (sc_upstreams (sb_config sub)))
     \<and> (\<forall>(port, up) \<in> set (sc_upstreams (sb_config sub)).
           st_port up = port \<and> 1 \<le> port \<and> port \<le> 65535 \<and> st_roles up \<noteq> [] \<and> list_all role_name_re (st_roles up)
           \<and> (\<forall>get_user touch has_fwd perms addr (s :: 'x) ac s'.
                authorise_conn get_user touch has_fwd perms addr up s = (Inr ac, s')
                \<longrightarrow> us_roles (ac_user ac) \<noteq> [] \<and> set (us_roles (ac_user ac)) \<inter> set (st_roles up) \<noteq> {}))"
proof -
  have ups: "sc_upstreams (sb_config sub) = ssh_targets (cf_ssh_upstreams cfg)" "cf_ssh_upstreams cfg \<noteq> []"
    using build_ssh_config [OF assms(2)] build_ssh_None [OF assms(2)] by simp_all
  have "snd (load_ssh env) = []" "cf_ssh_upstreams cfg = ss_upstreams (fst (load_ssh env))"
    using assms(1) by (auto simp: load_config_Inr load_errs_Nil loaded_def Let_def)
  with load_ssh_ok ups(2) have "parse_ssh_upstreams (trim_space (env ''SSH_UPSTREAMS'')) = Inr (cf_ssh_upstreams cfg)"
    by metis
  from parse_ssh_upstreams_ok [OF this]
  have ok: "distinct (map fst (cf_ssh_upstreams cfg))" "list_all ssh_upstream_ok (cf_ssh_upstreams cfg)" by auto
  have "map fst (ssh_targets m) = map fst m" for m by (induction m) (auto simp: ssh_targets_def)
  with ups ok(1) have d: "distinct (map fst (sc_upstreams (sb_config sub)))" by simp
  have admitted: "us_roles (ac_user ac) \<noteq> [] \<and> set (us_roles (ac_user ac)) \<inter> set (st_roles up) \<noteq> {}"
    if "authorise_conn get_user touch has_fwd perms addr up s = (Inr ac, s')"
    for get_user touch has_fwd perms addr up and s :: 'x and ac s'
    using that by (auto simp: authorise_conn_def Let_def roles_intersect_def list_ex_iff split: sum.splits prod.splits if_splits)
  have "st_port up = port \<and> 1 \<le> port \<and> port \<le> 65535 \<and> st_roles up \<noteq> [] \<and> list_all role_name_re (st_roles up)"
    if "(port, up) \<in> set (sc_upstreams (sb_config sub))" for port up
    using that ups(1) ok(2) by (auto simp: ssh_targets_def list_all_iff ssh_upstream_ok_def)
  moreover have "sc_upstreams (sb_config sub) \<noteq> []" using ups by (simp add: ssh_targets_def)
  ultimately show ?thesis using d admitted by blast
qed

lemma ssh_ports_gated_witness:
  "\<exists>(sub :: (string, string) ssh_subsystem) fs.
     build_ssh_subsystem (re_ssh (example_run None)) (loaded (example_env ''auth.forgeutah.tech'')) (\<lambda>_. None)
       = (Inr (Some sub), fs)
     \<and> distinct (map fst (sc_upstreams (sb_config sub))) \<and> sc_upstreams (sb_config sub) \<noteq> []"
proof -
  obtain sub fs where b: "build_ssh_subsystem (re_ssh (example_run None)) (loaded (example_env ''auth.forgeutah.tech''))
      (\<lambda>_. None) = (Inr (Some sub), fs)" using example_built by blast
  from ssh_ports_gated [where 'x = unit, OF example_env_loads b] have "distinct (map fst (sc_upstreams (sb_config sub)))"
    and "sc_upstreams (sb_config sub) \<noteq> []" by blast+
  with b show ?thesis by metis
qed

end
