(* ===== verification/Spec2Isabelle.thy ===== *)
theory Spec2Isabelle
  imports SessionStore UserStore SshKeyStore Config ProxyHandler AuthHandlers Oidc Enroll Bastion Onboarding
    Server Cli Daemon Admin Setup Run
begin

text \<open>
  forge-proxy: a single binary that signs users in with Slack, forwards their HTTP requests to upstreams
  with a trusted identity in \<open>X-Forge-*\<close> headers, forwards SSH connections under short-lived
  certificates, and carries the commands that administer it.  This development models the program of
  \<open>src/cmd/forge-proxy\<close> and \<open>src/internal\<close> and proves what each part promises.

  \<^bold>\<open>How the parts interact.\<close>  One SQLite database (users, sessions, SSH keys) is written by the sign-in
  handlers, the proxy (touching sessions), the sweeper, the enrollment pages, the SSH server and, from
  processes of their own, the admin commands.  A request is dispatched on its host: the auth host serves
  sign-in, enrollment and health pages; every other host is the proxy's, which looks up the session of
  the cookie and its user, tests the roles of the upstream and forwards.  An SSH connection is admitted
  for a registered key whose user holds a role of the port, and an unknown key is answered with a link
  to the enrollment pages, which bind the key to whoever completes them while signed in.

  \<^bold>\<open>Libraries the program uses.\<close>
  \<^item> \<open>Prelude\<close>: errors, results, times, and lists looked up by a key.
  \<^item> \<open>GoStrings\<close>, \<open>GoCodec\<close>, \<open>GoUrl\<close>, \<open>GoJson\<close>, \<open>GoHttp\<close>, \<open>GoTime\<close>, \<open>GoFiles\<close>: the parts of the Go
    standard library the program calls, with round trips for the encoders.

  \<^bold>\<open>Stores.\<close>
  \<^item> \<open>Database\<close> (\<open>internal/db\<close>, the migrations): tables with their constraints, \<open>WithWriteTx\<close>, opening
    and closing the pools.
  \<^item> \<open>SessionStore\<close> (\<open>internal/session\<close>): \<open>Create\<close>, \<open>Get\<close>, \<open>Touch\<close> in its two phases, \<open>Delete\<close>,
    \<open>Sweep\<close>, the cookie and the sweeper.  The table refines a finite map; the absolute lifetime and the
    end of a refused session hold over every interleaving.
  \<^item> \<open>UserStore\<close> (\<open>internal/user\<close>), \<open>SshKeyStore\<close> (\<open>internal/sshkey\<close>): sign-in upsert, roles, search;
    keys with one owner each.

  \<^bold>\<open>HTTP.\<close>
  \<^item> \<open>Config\<close> (\<open>internal/config\<close>): the two upstream grammars, \<open>Load\<close> with every check.
  \<^item> \<open>ProxyHeaders\<close>, \<open>ProxyHandler\<close> (\<open>internal/proxy\<close>): strip and injection of the identity headers; who
    is forwarded, as whom.
  \<^item> \<open>HttpLog\<close> (\<open>internal/httplog\<close>): request ids, the access log, HSTS, the rate limiter, redaction.
  \<^item> \<open>ReturnTo\<close>, \<open>PreAuth\<close>, \<open>Oidc\<close>, \<open>AuthHandlers\<close> (\<open>internal/auth\<close>), \<open>BuildInfo\<close>, \<open>WebAssets\<close>.
  \<^item> \<open>EnrollToken\<close>, \<open>Enroll\<close> (\<open>internal/sshenroll\<close>): tokens used at most once; the pages that bind a key.
  \<^item> \<open>Server\<close> (\<open>cmd/forge-proxy/main.go\<close>): routes, limiters, dispatch and middleware over one state; what
    each route may do to that state.

  \<^bold>\<open>SSH.\<close>
  \<^item> \<open>SshServer\<close>, \<open>SshSessions\<close> (\<open>internal/sshproxy/server.go\<close>, \<open>sessions.go\<close>): the callbacks, the role
    check, the registry; the server as a step relation whose reachable states forward authorised
    connections only.
  \<^item> \<open>SshCa\<close> (\<open>internal/sshca\<close>): key files and certificates.
  \<^item> \<open>Forward\<close>, \<open>Relay\<close> (\<open>internal/sshproxy/forward.go\<close>): the goroutines of a channel and of a session as
    step relations, with the answers, the windows and the ends of connections they wait for: nothing is
    cut off, no reply is lost, both come to an end or rest in the waits their theorems name, and lemmas
    show states in which such a wait lasts.
  \<^item> \<open>Bastion\<close>: the identity of a connection, from the key its handshake offered over the registry to
    the certificate the upstream is shown.
  \<^item> \<open>Onboarding\<close>: the way of a new key from the first refusal over the enrollment page to admission.

  \<^bold>\<open>Processes.\<close>
  \<^item> \<open>Cli\<close>, \<open>Daemon\<close>, \<open>Admin\<close>, \<open>Setup\<close>, \<open>Run\<close> (\<open>cmd/forge-proxy\<close>: \<open>main.go\<close>, \<open>daemon.go\<close>, \<open>admin.go\<close>,
    \<open>setup.go\<close>): what a process does for its arguments, the background start under a PID file, the
    admin commands, the installation as a service, and the start and stop of the server.
  \<^item> This theory: a deployment in which all of these write the database in any order, and what holds
    of its users, roles and keys; and observations that need several parts.

  \<^bold>\<open>Conventions.\<close>  A Go function that returns an error is a function into \<open>err + 'a\<close>; one that writes the
  database takes and returns it.  SQL statements are operations on lists of rows.  Clock readings, random
  bytes, the failures of the driver, of the file system and of the network are arguments, so a theorem
  holds for all of them.  A Go map the code ranges over is an association list, one it only looks up is
  a partial map.  Where code takes an interface the theory has a locale with what its client relies on,
  interpreted on the model of the store behind it.  Goroutines are the steps of a relation.  An example
  state or input follows each hypothesis a property has, in the lemma with the suffix \<open>witness\<close>.

  \<^bold>\<open>Bounds.\<close>  Go's \<open>int\<close> and \<open>int64\<close> are \<open>int\<close>: ids, ports and times stay far below the range, and the
  parsers check the range where Go does.  The JSON parser runs with fuel \<open>2 * length + 2\<close>, and a string body
  with one more than its length; \<open>json_parse_fuel\<close> and \<open>json_body_fuel\<close> show that more fuel changes no
  result.  Its nesting limit is the library's 10000.  No other definition has fuel.

  \<^bold>\<open>Not modelled.\<close>  The text of log lines and what \<open>setup\<close> prints; the body \<open>http.Redirect\<close> writes; the
  transport, the timeouts and the connection handling of \<open>net/http\<close>; the rounding of \<open>float64\<close> in the
  limiter and in durations.  The SQLite driver, goose, the SSH, OAuth and OIDC libraries, godotenv and
  the tools of the host are not part of the sources: they appear as parameters or as the failures they
  return.  The constructors that only store their arguments, and the accessors that only return a field,
  have no definition of their own.
\<close>

section \<open>The deployment\<close>

text \<open>
  Everything that writes the database: the web server, the admin commands of another process, and the
  SSH server, which stamps the key of a connection it admits.
\<close>

datatype deployment_event =
    Web server_event
  | AdminRun admin_env "string list"
  | SshStamp gotime tx_fault string

fun deployment_step :: "http_app \<Rightarrow> deployment_event \<Rightarrow> http_state \<Rightarrow> http_state" where
  "deployment_step app (Web e) st = server_step app e st"
| "deployment_step app (AdminRun env args) st = st\<lparr>hs_db := snd (snd (dispatch_admin env args (hs_db st)))\<rparr>"
| "deployment_step app (SshStamp now f fp) st = st\<lparr>hs_db := snd (key_touch_last_used now f fp (hs_db st))\<rparr>"

fun deployment_run :: "http_app \<Rightarrow> deployment_event list \<Rightarrow> http_state \<Rightarrow> http_state" where
  "deployment_run app [] st = st"
| "deployment_run app (e # es) st = deployment_run app es (deployment_step app e st)"

text \<open>The event is no admin command of the given name.\<close>

fun not_admin :: "string \<Rightarrow> deployment_event \<Rightarrow> bool" where
  "not_admin cmd (AdminRun env args) \<longleftrightarrow> \<not> (args \<noteq> [] \<and> hd args = cmd)"
| "not_admin cmd _ \<longleftrightarrow> True"

fun sound_faults :: "deployment_event \<Rightarrow> bool" where
  "sound_faults (AdminRun env args) \<longleftrightarrow> driver_faults env"
| "sound_faults _ \<longleftrightarrow> True"

section \<open>Roles and keys over any step\<close>

definition roles_of :: "db \<Rightarrow> int \<Rightarrow> string option" where
  "roles_of d uid = map_option ur_roles (user_abs d uid)"

text \<open>Nobody's roles change, and a new user has none.\<close>

definition grants_nothing :: "db \<Rightarrow> db \<Rightarrow> bool" where
  "grants_nothing d d' \<longleftrightarrow>
     (\<forall>uid. roles_of d' uid = roles_of d uid \<or> (roles_of d uid = None \<and> roles_of d' uid = Some []))"

lemma grants_nothing_refl: "grants_nothing d d"
  by (simp add: grants_nothing_def)

lemma grants_nothing_trans: "grants_nothing d e \<Longrightarrow> grants_nothing e f \<Longrightarrow> grants_nothing d f"
  by (auto simp: grants_nothing_def) metis+

lemma grants_nothing_users: "users d' = users d \<Longrightarrow> grants_nothing d d'"
  by (simp add: grants_nothing_def roles_of_def user_abs_def)

definition keeps_keys :: "db \<Rightarrow> db \<Rightarrow> bool" where
  "keeps_keys d d' \<longleftrightarrow> (\<forall>fp uid. key_owner d fp = Some uid \<longrightarrow> key_owner d' fp = Some uid)"

fun grantless :: "store_op \<Rightarrow> bool" where
  "grantless (UserOp (USetRoles f uid roles)) \<longleftrightarrow> False"
| "grantless _ \<longleftrightarrow> True"

lemma allowed_grantless: "allowed_op t op \<Longrightarrow> grantless op"
  by (induction t op rule: allowed_op.induct) auto

lemma upsert_grants_nothing:
  assumes "db_wf d" and "upsert_from_oidc now f claims d = (r, d')"
  shows "grants_nothing d d'"
proof (cases "user_of_slack d (oc_slack_user_id claims)")
  case None
  with upsert_cases [OF assms(2)] user_abs_fresh [OF assms(1)] show ?thesis
    by (auto simp: grants_nothing_def roles_of_def user_abs_provision [OF assms(1)] split: if_splits)
next
  case (Some row)
  with upsert_cases [OF assms(2)]
  have "d' = d \<or> d' = d\<lparr>users := map (\<lambda>x. if ur_id x = ur_id row then refreshed now claims x else x) (users d)\<rparr>" by auto
  then show ?thesis
    by (auto simp: grants_nothing_def roles_of_def user_abs_refresh option.map_comp comp_def split: if_splits)
qed

lemma store_exec_grants_nothing:
  assumes "db_wf d" and "grantless op" shows "grants_nothing d (store_exec opts op d)"
proof (cases op)
  case (UserOp x)
  with assms show ?thesis
    by (cases x) (auto simp: case_prod_unfold Let_def intro: upsert_grants_nothing [OF assms(1) surjective_pairing])
next
  case (SessionOp x)
  have "users (snd (session_exec x opts d)) = users d"
    using session_exec_frame [of x opts d "fst (session_exec x opts d)" "snd (session_exec x opts d)"] by simp
  with SessionOp show ?thesis by (simp add: grants_nothing_users)
next
  case (KeyOp x)
  have "users (snd (key_exec x d)) = users d"
    using key_exec_frame [of x d "fst (key_exec x d)" "snd (key_exec x d)"] by simp
  with KeyOp show ?thesis by (simp add: grants_nothing_users)
qed

lemma store_run_grants_nothing:
  "well_formed d \<Longrightarrow> list_all safe_op ops \<Longrightarrow> list_all grantless ops \<Longrightarrow> grants_nothing d (store_run opts ops d)"
proof (induction ops arbitrary: d)
  case (Cons op ops)
  then have "well_formed (store_exec opts op d)" by (simp add: store_exec_keeps)
  with Cons have "grants_nothing (store_exec opts op d) (store_run opts ops (store_exec opts op d))" by simp
  moreover have "grants_nothing d (store_exec opts op d)"
    using Cons.prems by (simp add: store_exec_grants_nothing well_formed_def)
  ultimately show ?case by (simp add: grants_nothing_trans)
qed (simp add: grants_nothing_refl)

lemma store_step_keeps:
  assumes "well_formed d" and "list_all safe_op ops" and "list_all grantless ops"
  shows "well_formed (store_run opts ops d) \<and> identities d \<subseteq> identities (store_run opts ops d)
     \<and> grants_nothing d (store_run opts ops d) \<and> keeps_keys d (store_run opts ops d)"
  using store_run_keeps [OF assms(1,2), of opts] store_run_grants_nothing [OF assms, of opts]
  by (simp add: keeps_identity_def keeps_keys_def)

lemma server_step_ops:
  "\<exists>opts ops. hs_db (server_step app e st) = store_run opts ops (hs_db st) \<and> list_all safe_op ops \<and> list_all grantless ops"
proof (cases e)
  case (HttpRequest env r)
  obtain ctx w where "root_handler app env r st = dispatcher app env ctx r w st"
    using root_handler_dispatch by blast
  moreover obtain ops where "hs_db (snd (dispatcher app env ctx r w st)) = store_run (session_opts_of (ha_config app)) ops (hs_db st)"
      "list_all (allowed_op (request_target app r)) ops"
    using dispatcher_ops [of app env ctx r w st] by blast
  moreover from this(2) have "list_all safe_op ops" "list_all grantless ops"
    by (simp_all add: list_all_iff) (blast dest: allowed_safe allowed_grantless)+
  ultimately show ?thesis using HttpRequest by (metis server_step.simps(1))
next
  case (SweepTick f now)
  have "hs_db (server_step app e st) = store_run undefined [SessionOp (SSweep f now)] (hs_db st)"
    by (auto simp: SweepTick sweeper_tick_def case_prod_unfold Let_def split: sum.split prod.split)
  then show ?thesis by (intro exI [of _ undefined] exI [of _ "[SessionOp (SSweep f now)]"]) simp
next
  case (VerifierReady issuer)
  then show ?thesis by (intro exI [of _ undefined] exI [of _ "[]"]) simp
qed

text \<open>What an admin command does, in the terms of the stores.\<close>

lemma key_abs_filter_other: "fp' \<noteq> fp \<Longrightarrow>
    key_owner (d\<lparr>ssh_keys := filter (\<lambda>r. kr_fingerprint r \<noteq> fp) (ssh_keys d)\<rparr>) fp' = key_owner d fp'"
  by (simp add: key_owner_def key_abs_remove)

lemma effect_keeps:
  assumes "well_formed d"
    and "\<And>uid roles. eff = RolesSet uid roles \<Longrightarrow> list_all role_name_re roles"
  shows "well_formed (apply_effect eff d) \<and> identities d \<subseteq> identities (apply_effect eff d)
     \<and> ((\<forall>uid roles. eff \<noteq> RolesSet uid roles) \<longrightarrow> grants_nothing d (apply_effect eff d))
     \<and> ((\<forall>fp. eff \<noteq> KeyRemoved fp) \<longrightarrow> keeps_keys d (apply_effect eff d))"
proof (cases eff)
  case (RolesSet uid roles)
  let ?g = "\<lambda>x. if ur_id x = uid then x\<lparr>ur_roles := str_join roles '',''\<rparr> else x"
  have "db_wf (d\<lparr>users := map ?g (users d)\<rparr>)"
    using assms(1) by (intro db_wf_map_users) (auto simp: well_formed_def)
  moreover have "roles_ok (d\<lparr>users := map ?g (users d)\<rparr>)"
    using assms(1) parse_roles_join [OF assms(2) [OF RolesSet]] by (auto simp: well_formed_def roles_ok_def)
  moreover have "identities (d\<lparr>users := map ?g (users d)\<rparr>) = identities d" by (rule identities_map) simp
  ultimately show ?thesis
    using RolesSet by (simp add: well_formed_def keeps_keys_def key_owner_def key_abs_def)
next
  case (KeyRemoved fp)
  then show ?thesis
    using assms(1) by (simp add: well_formed_def db_wf_filter_keys roles_ok_def identities_def grants_nothing_users)
next
  case (LoggedOut uid)
  then show ?thesis using assms(1)
    by (simp add: well_formed_def db_wf_filter_sessions roles_ok_def identities_def grants_nothing_users keeps_keys_def
        key_owner_def key_abs_def)
next
  case AllLoggedOut
  have "db_wf (d\<lparr>sessions := []\<rparr>)"
    using assms(1) db_wf_filter_sessions [of d "\<lambda>_. False"] by (simp add: well_formed_def)
  with AllLoggedOut assms(1) show ?thesis
    by (simp add: well_formed_def roles_ok_def identities_def grants_nothing_users keeps_keys_def key_owner_def key_abs_def)
next
  case NoEffect
  with assms(1) show ?thesis by (simp add: grants_nothing_refl keeps_keys_def)
qed

lemma admin_effect:
  assumes "driver_faults env" and "dispatch_admin env args d = (res, out, d')"
  shows "\<exists>eff. d' = apply_effect eff d
     \<and> (\<forall>uid roles. eff = RolesSet uid roles \<longrightarrow> args \<noteq> [] \<and> hd args = ''set-roles'' \<and> list_all role_name_re roles)
     \<and> (\<forall>fp. eff = KeyRemoved fp \<longrightarrow> args \<noteq> [] \<and> hd args = ''ssh-remove-key'')"
proof (cases "isl res \<or> args = []")
  case True
  with dispatch_effect [OF assms] assms(2) have "d' = apply_effect NoEffect d"
    by (auto simp: dispatch_admin_def)
  then show ?thesis by (intro exI [of _ NoEffect]) simp
next
  case False
  then obtain sub rest where args: "args = sub # rest" by (cases args) auto
  with False assms(2) set_roles_valid [of env rest d res out d'] show ?thesis
    using dispatch_effect [OF assms]
    by (intro exI [of _ "intended_effect args d"])
      (auto simp: intended_effect_def of_user_def Let_def split: if_splits sum.splits)
qed

lemma deployment_step_keeps:
  fixes app :: http_app
  assumes "well_formed (hs_db st)" and "sound_faults ev"
  defines "d' \<equiv> hs_db (deployment_step app ev st)"
  shows "well_formed d' \<and> identities (hs_db st) \<subseteq> identities d'
     \<and> (not_admin ''set-roles'' ev \<longrightarrow> grants_nothing (hs_db st) d')
     \<and> (not_admin ''ssh-remove-key'' ev \<longrightarrow> keeps_keys (hs_db st) d')"
proof (cases ev)
  case (Web e)
  obtain opts ops where "d' = store_run opts ops (hs_db st)" "list_all safe_op ops" "list_all grantless ops"
    using server_step_ops [of app e st] Web by (auto simp: d'_def)
  with store_step_keeps [OF assms(1)] show ?thesis by simp
next
  case (SshStamp now f fp)
  have "d' = store_run undefined [KeyOp (KTouch now f fp)] (hs_db st)"
    by (simp add: d'_def SshStamp case_prod_unfold Let_def)
  with store_step_keeps [OF assms(1), of "[KeyOp (KTouch now f fp)]" undefined] show ?thesis by simp
next
  case (AdminRun env args)
  obtain res out e where r: "dispatch_admin env args (hs_db st) = (res, out, e)" by (metis prod_cases3)
  with AdminRun have d': "d' = e" by (simp add: d'_def)
  from admin_effect [OF _ r] AdminRun assms(2) obtain eff where eff: "e = apply_effect eff (hs_db st)"
    "\<forall>uid roles. eff = RolesSet uid roles \<longrightarrow> args \<noteq> [] \<and> hd args = ''set-roles'' \<and> list_all role_name_re roles"
    "\<forall>fp. eff = KeyRemoved fp \<longrightarrow> args \<noteq> [] \<and> hd args = ''ssh-remove-key''" by auto
  have "well_formed e \<and> identities (hs_db st) \<subseteq> identities e
     \<and> ((\<forall>uid roles. eff \<noteq> RolesSet uid roles) \<longrightarrow> grants_nothing (hs_db st) e)
     \<and> ((\<forall>fp. eff \<noteq> KeyRemoved fp) \<longrightarrow> keeps_keys (hs_db st) e)"
    unfolding eff(1) by (rule effect_keeps [OF assms(1)]) (use eff(2) in blast)
  moreover have "not_admin ''set-roles'' ev \<longrightarrow> (\<forall>uid roles. eff \<noteq> RolesSet uid roles)"
    and "not_admin ''ssh-remove-key'' ev \<longrightarrow> (\<forall>fp. eff \<noteq> KeyRemoved fp)"
    using eff(2,3) AdminRun by auto
  ultimately show ?thesis unfolding d' by blast
qed

section \<open>Properties\<close>

text \<open>
  C5. Privileges change through the admin commands only.  Whatever happens to a deployment --
  requests of any kind, sign-ins, enrollments, sweeps, SSH connections, admin commands, each with any
  failures --, the database stays well formed and no user loses its identity; as long as no
  \<open>set-roles\<close> command runs nobody's roles change and whoever signs in for the first time has none; and
  as long as no \<open>ssh-remove-key\<close> command runs every registered key keeps its owner.
\<close>

theorem privileges_only_by_admin:
  assumes "well_formed (hs_db st)" and "\<forall>ev \<in> set evs. sound_faults ev"
  shows "well_formed (hs_db (deployment_run app evs st))
     \<and> identities (hs_db st) \<subseteq> identities (hs_db (deployment_run app evs st))
     \<and> ((\<forall>ev \<in> set evs. not_admin ''set-roles'' ev) \<longrightarrow> grants_nothing (hs_db st) (hs_db (deployment_run app evs st)))
     \<and> ((\<forall>ev \<in> set evs. not_admin ''ssh-remove-key'' ev) \<longrightarrow> keeps_keys (hs_db st) (hs_db (deployment_run app evs st)))"
  using assms
proof (induction evs arbitrary: st)
  case Nil
  then show ?case by (simp add: grants_nothing_refl keeps_keys_def)
next
  case (Cons ev evs)
  from Cons.prems deployment_step_keeps [of st ev app]
  have step: "well_formed (hs_db (deployment_step app ev st))"
    "identities (hs_db st) \<subseteq> identities (hs_db (deployment_step app ev st))"
    "not_admin ''set-roles'' ev \<longrightarrow> grants_nothing (hs_db st) (hs_db (deployment_step app ev st))"
    "not_admin ''ssh-remove-key'' ev \<longrightarrow> keeps_keys (hs_db st) (hs_db (deployment_step app ev st))" by auto
  from Cons.IH [OF step(1)] Cons.prems(2) step(2-4) show ?case
    by (auto simp: keeps_keys_def intro: grants_nothing_trans)
qed

lemma privileges_only_by_admin_witness:
  "let d = hs_db (deployment_run example_app
             [Web (HttpRequest example_http_env example_logout), AdminRun no_admin_fault [''force-logout'', ''ada@example.org''],
              SshStamp (seconds 9) no_fault ''SHA256:x''] (http_start example_config example_db))
   in grants_nothing example_db d \<and> keeps_keys example_db d \<and> roles_of d 1 = Some ''admin,dev''"
proof -
  let ?evs = "[Web (HttpRequest example_http_env example_logout), AdminRun no_admin_fault [''force-logout'', ''ada@example.org''],
              SshStamp (seconds 9) no_fault ''SHA256:x'']"
  have s: "hs_db (http_start example_config example_db) = example_db" by (simp add: http_start_def)
  have w: "well_formed (hs_db (http_start example_config example_db))"
    by (simp add: s well_formed_def example_roles_ok)
  have f: "\<forall>ev \<in> set ?evs. sound_faults ev" by simp
  have n: "\<forall>ev \<in> set ?evs. not_admin ''set-roles'' ev" "\<forall>ev \<in> set ?evs. not_admin ''ssh-remove-key'' ev" by simp_all
  have "roles_of example_db 1 = Some ''admin,dev''" by code_simp
  with privileges_only_by_admin [OF w f, of example_app] n show ?thesis
    unfolding s Let_def grants_nothing_def by (metis option.distinct(1))
qed

text \<open>
  C4. A change of roles takes effect at once, on both sides.  After \<open>set-roles\<close> succeeded for an address,
  every request the proxy still forwards under a session of that user goes to an upstream that is
  open to everyone or asks for one of the new roles, and every SSH connection that is admitted for
  the user is on a port that allows one of the new roles -- at any time, in existing sessions too.
\<close>

theorem roles_revoked_at_once:
  assumes "db_wf d" and "dispatch_admin env [''set-roles'', email, arg] d = (Inr (), out, d')"
  shows "\<exists>u. user_get_by_email None email d = Inr u
     \<and> (\<forall>opts now f cfg r w fwd d2 sid. serve_on_db opts now f cfg r w d' = (Forward fwd, d2)
          \<and> session_read r = Some sid \<and> session_owner d' sid = Some (us_id u)
          \<longrightarrow> (\<exists>entry. resolve_host (new_host_map (cf_upstream_map cfg)) (rq_host r) = Some entry
                \<and> (up_required_roles entry = [] \<or> set (up_required_roles entry) \<inter> set (parse_roles_arg arg) \<noteq> {})))
     \<and> (\<forall>f touch has_fwd perms addr up ac s'. authorise_conn (user_get f) touch has_fwd perms addr up d' = (Inr ac, s')
          \<and> us_id (ac_user ac) = us_id u \<longrightarrow> set (parse_roles_arg arg) \<inter> set (st_roles up) \<noteq> {})"
proof -
  obtain u where u: "user_get_by_email None email d = Inr u"
    and set: "set_roles (ae_tx env) (us_id u) (parse_roles_arg arg) d = (Inr (), d')"
    using assms(2)
    by (auto simp: dispatch_admin_def admin_set_roles_def Let_def split: if_splits sum.splits prod.splits
        dest!: admin_user_Inr)
  have now_has: "us_roles v = parse_roles_arg arg" if "user_get f (us_id u) d' = Inr v" for f v
  proof -
    have n: "user_get None (us_id u) d' = Inr v"
      using that by (auto simp: user_get_def query_one_def split: option.splits)
    from set_roles_cases [OF set] have "list_all role_name_re (parse_roles_arg arg)"
      and d': "d' = d\<lparr>users := map (\<lambda>x. if ur_id x = us_id u then x\<lparr>ur_roles := str_join (parse_roles_arg arg) '',''\<rparr> else x)
                    (users d)\<rparr>" by auto
    then have "parse_roles (str_join (parse_roles_arg arg) '','') = Inr (parse_roles_arg arg)" by (simp add: parse_roles_join)
    with n show ?thesis
      by (auto simp: d' user_get_abs user_abs_set_roles decode_user_def split: option.splits sum.splits)
  qed
  have http: "\<exists>entry. resolve_host (new_host_map (cf_upstream_map cfg)) (rq_host r) = Some entry
       \<and> (up_required_roles entry = [] \<or> set (up_required_roles entry) \<inter> set (parse_roles_arg arg) \<noteq> {})"
    if fwd: "serve_on_db opts now f cfg r w d' = (Forward fwd, d2)" and sid: "session_read r = Some sid"
      "session_owner d' sid = Some (us_id u)" for opts now f cfg r w fwd d2 sid
  proof -
    from ps.forwarded_authorised [OF fwd [unfolded serve_on_db_def]]
    obtain sid' entry v where "ps.authorised opts now f cfg r d' sid' entry v" by blast
    with sid have "resolve_host (new_host_map (cf_upstream_map cfg)) (rq_host r) = Some entry"
      "store_user f (us_id u) d' = Inr v" "permits entry (us_roles v)" by (auto simp: ps.authorised_def)
    with now_has show ?thesis by (auto simp: store_user_def permits_iff)
  qed
  have ssh: "set (parse_roles_arg arg) \<inter> set (st_roles up) \<noteq> {}"
    if "authorise_conn (user_get f) touch has_fwd perms addr up d' = (Inr ac, s')" "us_id (ac_user ac) = us_id u"
    for f touch has_fwd perms addr up ac s'
  proof -
    from that(1) obtain uid where "user_get f uid d' = Inr (ac_user ac)" "roles_intersect (us_roles (ac_user ac)) (st_roles up)"
      by (auto simp: authorise_conn_def Let_def split: sum.splits prod.splits if_splits)
    with that(2) now_has user_get_id show ?thesis
      by (fastforce simp: roles_intersect_def list_ex_iff split: if_splits)
  qed
  from u http ssh show ?thesis by blast
qed

lemma roles_revoked_at_once_witness:
  "\<exists>out d'. dispatch_admin no_admin_fault [''set-roles'', ''ada@example.org'', ''ops''] example_db = (Inr (), out, d')
     \<and> (\<forall>touch has_fwd perms addr up ac s'. authorise_conn (user_get None) touch has_fwd perms addr up d' = (Inr ac, s')
          \<and> us_id (ac_user ac) = 1 \<longrightarrow> ''ops'' \<in> set (st_roles up))"
proof -
  let ?run = "dispatch_admin no_admin_fault [''set-roles'', ''ada@example.org'', ''ops''] example_db"
  obtain res out d' where run: "?run = (res, out, d')" by (metis prod_cases3)
  have "\<not> isl (fst ?run)" by code_simp
  with run have r: "?run = (Inr (), out, d')" by (cases res) auto
  have "map_sum id us_id (user_get_by_email None ''ada@example.org'' example_db) = Inr 1" by code_simp
  moreover have "parse_roles_arg ''ops'' = [''ops'']" by code_simp
  ultimately show ?thesis
    using roles_revoked_at_once [OF example_db_wf r] r by (fastforce simp: map_sum_def split: sum.splits)
qed

text \<open>
  C6. Off-boarding cuts access.  After \<open>force-logout\<close> for an address and \<open>ssh-remove-key\<close> for a key of
  that user, no session the user had is served again, whenever it is asked for, and the SSH server
  accepts no connection that offers the key; the sessions of the others and every other key are as
  before.
\<close>

theorem off_boarding_cuts_access:
  assumes "db_wf d" and "driver_faults env2"
    and "dispatch_admin env1 [''force-logout'', email] d = (Inr (), out1, d1)"
    and "dispatch_admin env2 [''ssh-remove-key'', fp] d1 = (Inr (), out2, d2)"
  shows "\<exists>u. user_get_by_email None email d = Inr u
     \<and> (\<forall>sid. session_owner d sid = Some (us_id u) \<longrightarrow> (\<forall>opts t. session_get opts t None sid d2 = Inl (Sentinel SessionNotFound)))
     \<and> (\<forall>sid. session_owner d sid \<noteq> Some (us_id u) \<longrightarrow> session_abs d2 sid = session_abs d sid)
     \<and> (\<forall>f now sid k p. of_fingerprint k = trim_space fp \<longrightarrow> isl (fst (public_key_callback (\<lambda>x. key_get f x d2) now sid k p)))
     \<and> (\<forall>x. x \<noteq> trim_space fp \<longrightarrow> key_abs d2 x = key_abs d x)"
proof -
  obtain u where u: "user_get_by_email None email d = Inr u"
    and del: "session_delete_all_for_user (ae_tx env1) (us_id u) d = (Inr (), d1)"
    using assms(3)
    by (auto simp: dispatch_admin_def admin_force_logout_def split: if_splits sum.splits prod.splits dest!: admin_user_Inr)
  have d1: "d1 = d\<lparr>sessions := filter (\<lambda>r. sr_user_id r \<noteq> us_id u) (sessions d)\<rparr>"
    using session_delete_all_cases [OF del] by auto
  have d2: "d2 = d1\<lparr>ssh_keys := filter (\<lambda>r. kr_fingerprint r \<noteq> trim_space fp) (ssh_keys d1)\<rparr>"
    using remove_key_effect [OF assms(2), of "[fp]" d1 "Inr ()" out2 d2] assms(4) by (simp add: dispatch_admin_def)
  have abs: "session_abs d2 sid = (case session_abs d sid of None \<Rightarrow> None
      | Some r \<Rightarrow> if sr_user_id r \<noteq> us_id u then Some r else None)" for sid
    using assms(1) by (auto simp: session_abs_def d1 d2 index_by_filter db_wf_sessions_distinct keep_rows_def split: option.split)
  have keys: "key_abs d2 = (key_abs d)(trim_space fp := None)" by (simp add: d2 key_abs_remove) (simp add: d1 key_abs_def)
  have "isl (fst (public_key_callback (\<lambda>x. key_get f x d2) now sid k p))" if "of_fingerprint k = trim_space fp" for f now sid k p
  proof -
    have "isl (key_get f (of_fingerprint k) d2)"
      using keys that key_get_abs [of "of_fingerprint k" d2] by (cases f) (simp_all add: key_get_def)
    then show ?thesis by (auto simp: public_key_callback_def Let_def isl_def split: sum.splits)
  qed
  with u abs keys show ?thesis
    by (auto simp: session_owner_def session_get_abs split: option.splits)
qed

lemma off_boarding_cuts_access_witness:
  "\<exists>out1 d1 out2 d2. dispatch_admin no_admin_fault [''force-logout'', ''ada@example.org'']
        (session_run example_opts example_ops example_db) = (Inr (), out1, d1)
     \<and> dispatch_admin no_admin_fault [''ssh-remove-key'', ''SHA256:x''] d1 = (Inr (), out2, d2)
     \<and> \<not> isl (session_get example_opts (seconds 1200) None ''YWJj'' (session_run example_opts example_ops example_db))
     \<and> session_get example_opts (seconds 1200) None ''YWJj'' d2 = Inl (Sentinel SessionNotFound)"
proof -
  let ?d = "session_run example_opts example_ops example_db"
  let ?run = "dispatch_admin no_admin_fault [''force-logout'', ''ada@example.org''] ?d"
  obtain res out1 d1 where 1: "?run = (res, out1, d1)" by (metis prod_cases3)
  obtain res2 out2 d2 where 2: "dispatch_admin no_admin_fault [''ssh-remove-key'', ''SHA256:x''] d1 = (res2, out2, d2)"
    by (metis prod_cases3)
  have "\<not> isl (fst ?run)" "\<not> isl (fst (dispatch_admin no_admin_fault [''ssh-remove-key'', ''SHA256:x''] (snd (snd ?run))))"
    by code_simp+
  with 1 2 have r: "res = Inr ()" "res2 = Inr ()" by (cases res; cases res2; auto)+
  have "map_sum id us_id (user_get_by_email None ''ada@example.org'' ?d) = Inr 1" "session_owner ?d ''YWJj'' = Some 1"
    "\<not> isl (session_get example_opts (seconds 1200) None ''YWJj'' ?d)" by code_simp+
  moreover have "db_wf ?d" by (rule session_run_wf) simp
  ultimately show ?thesis
    using off_boarding_cuts_access [OF _ no_admin_fault_driver 1 [unfolded r] 2 [unfolded r]] 1 2 r
    by (auto simp: map_sum_def split: sum.splits)
qed

section \<open>Observations\<close>

text \<open>
  The enrollment token is in the path of its pages, and the access log records the path: the line of
  a visit holds the token, which stays valid until it is completed.
\<close>

lemma access_log_holds_token:
  "let tok = ''dG9rZW4'';
       r = \<lparr>rq_method = ''GET'', rq_host = ''auth.forgeutah.tech'', rq_url = empty_url\<lparr>u_path := ''/ssh/enroll/'' @ tok\<rparr>,
            rq_header = [], rq_trailer = [], rq_remote_addr = ''10.0.0.1:5000'', rq_body = []\<rparr>
   in mux_handler True r = MuxRoute EnrollStart [tok]
      \<and> le_path (fst (access_log 0 1 r [CallWriteHeader 200])) = ''/ssh/enroll/'' @ tok"
  by code_simp

text \<open>
  The unit gives the server 31 seconds to stop, one more than the drain of HTTP alone may take; the SSH
  side has five more seconds of its own.
\<close>

lemma stop_timeout_too_short:
  "''TimeoutStopSec=31s'' \<in> set (unit_lines p) \<and> seconds 31 < http_shutdown_timeout + ssh_shutdown_timeout"
  by (simp add: unit_lines_def http_shutdown_timeout_def ssh_shutdown_timeout_def seconds_def)

text \<open>A unit for a binary below a home directory hides that directory from the service.\<close>

lemma home_binary_protected:
  "sp_binary_path p = ''/home/ada/bin/forge-proxy'' \<Longrightarrow>
     ''ExecStart=/home/ada/bin/forge-proxy'' \<in> set (unit_lines p) \<and> ''ProtectHome=true'' \<in> set (unit_lines p)"
  by (simp add: unit_lines_def)

text \<open>A lifetime in days is no duration to the parser, and is replaced by the default without a word.\<close>

lemma lifetime_in_days_ignored:
  "env ''SESSION_LIFETIME'' = ''1d'' \<Longrightarrow> env_lifetime env = seconds (30 * 24 * 3600)"
proof -
  have "trim_space ''1d'' = ''1d''" "parse_duration ''1d'' = None" "atoi ''1d'' = None" by code_simp+
  then show "env ''SESSION_LIFETIME'' = ''1d'' \<Longrightarrow> ?thesis"
    by (simp add: env_lifetime_def getenv_duration_def Let_def)
qed

end
